(* ===== verification/Prelude.thy ===== *)
theory Prelude
  imports Main "HOL-Library.Word"
begin

text \<open>
  What every theory of the development shares: names for the machine integers, the outcome
  of a Rust computation (a value, an error, a panic), the state-passing computations the
  effectful code is translated to, and the rules that lift a property of the parts of such a
  computation to the whole.
\<close>

named_theorems keep_intros "rules that a computation keeps a state predicate"
named_theorems yield_intros "rules that a computation returns a value with a property"
named_theorems only_intros "rules on the values and errors a computation can end with"
named_theorems run_simps "equations that run a computation on a state"

section \<open>Machine integers\<close>

type_synonym u8 = "8 word"
type_synonym u16 = "16 word"
type_synonym u32 = "32 word"
type_synonym u64 = "64 word"
type_synonym i32 = "32 word"
type_synonym i64 = "64 word"

text \<open>The signed reading of a 64-bit and of a 32-bit word.\<close>

lemma sint_i64: "sint (x :: i64) = (if uint x < 2 ^ 63 then uint x else uint x - 2 ^ 64)"
proof -
  have u: "uint x < 2 ^ 64" "0 \<le> uint x"
    using uint_lt2p [of x] by simp_all
  have "sint x = (uint x + 2 ^ 63) mod 2 ^ 64 - 2 ^ 63"
    by (simp add: sint_uint signed_take_bit_eq_take_bit_shift take_bit_eq_mod)
  moreover have "(uint x + 2 ^ 63) mod 2 ^ 64 = (uint x - 2 ^ 63) mod 2 ^ 64"
    using mod_add_self2 [of "uint x - 2 ^ 63" "2 ^ 64"] by (simp add: add.commute)
  ultimately show ?thesis
    using u by (auto simp: mod_pos_pos_trivial)
qed

lemma sint_i32: "sint (x :: i32) = (if uint x < 2 ^ 31 then uint x else uint x - 2 ^ 32)"
proof -
  have u: "uint x < 2 ^ 32" "0 \<le> uint x"
    using uint_lt2p [of x] by simp_all
  have "sint x = (uint x + 2 ^ 31) mod 2 ^ 32 - 2 ^ 31"
    by (simp add: sint_uint signed_take_bit_eq_take_bit_shift take_bit_eq_mod)
  moreover have "(uint x + 2 ^ 31) mod 2 ^ 32 = (uint x - 2 ^ 31) mod 2 ^ 32"
    using mod_add_self2 [of "uint x - 2 ^ 31" "2 ^ 32"] by (simp add: add.commute)
  ultimately show ?thesis
    using u by (auto simp: mod_pos_pos_trivial)
qed

lemma uint_sint_i64: "uint (x :: i64) = (if 0 \<le> sint x then sint x else sint x + 2 ^ 64)"
  using uint_lt2p [of x] by (simp add: sint_i64)

lemma uint_sint_i32: "uint (x :: i32) = (if 0 \<le> sint x then sint x else sint x + 2 ^ 32)"
  using uint_lt2p [of x] by (simp add: sint_i32)

section \<open>Outcomes and computations\<close>

text \<open>
  A Rust function that returns a \<open>Result\<close> ends in one of three ways: with a value, with an
  error value, or by a panic, which unwinds the thread and is not a value.
\<close>

datatype ('e, 'a) outcome = Ok 'a | Err 'e | Panic

type_synonym ('s, 'e, 'a) prog = "'s \<Rightarrow> ('e, 'a) outcome \<times> 's"

definition return :: "'a \<Rightarrow> ('s, 'e, 'a) prog" where
  "return a = (\<lambda>s. (Ok a, s))"

definition raise :: "'e \<Rightarrow> ('s, 'e, 'a) prog" where
  "raise e = (\<lambda>s. (Err e, s))"

definition panic :: "('s, 'e, 'a) prog" where
  "panic = (\<lambda>s. (Panic, s))"

text \<open>\<open>and_then m f\<close> is \<open>let x = m?; f(x)\<close>: an error or a panic of \<open>m\<close> ends the
  computation, the state changes made until then stay.\<close>

definition and_then :: "('s, 'e, 'a) prog \<Rightarrow> ('a \<Rightarrow> ('s, 'e, 'b) prog) \<Rightarrow> ('s, 'e, 'b) prog" where
  "and_then m f = (\<lambda>s. case m s of
       (Ok a, s') \<Rightarrow> f a s'
     | (Err e, s') \<Rightarrow> (Err e, s')
     | (Panic, s') \<Rightarrow> (Panic, s'))"

definition seq :: "('s, 'e, 'a) prog \<Rightarrow> ('s, 'e, 'b) prog \<Rightarrow> ('s, 'e, 'b) prog" where
  "seq m n = and_then m (\<lambda>_. n)"

definition gets :: "('s \<Rightarrow> 'a) \<Rightarrow> ('s, 'e, 'a) prog" where
  "gets f = (\<lambda>s. (Ok (f s), s))"

definition modify :: "('s \<Rightarrow> 's) \<Rightarrow> ('s, 'e, unit) prog" where
  "modify f = (\<lambda>s. (Ok (), f s))"

definition of_outcome :: "('e, 'a) outcome \<Rightarrow> ('s, 'e, 'a) prog" where
  "of_outcome r = (\<lambda>s. (r, s))"

text \<open>A call that cannot fail and changes the state: a library function over the world.\<close>

definition call :: "('s \<Rightarrow> 'a \<times> 's) \<Rightarrow> ('s, 'e, 'a) prog" where
  "call f = (\<lambda>s. case f s of (a, s') \<Rightarrow> (Ok a, s'))"

text \<open>A computation on one part of the state, as a computation on the whole state.\<close>

definition zoom :: "('s \<Rightarrow> 't) \<Rightarrow> ('t \<Rightarrow> 's \<Rightarrow> 's) \<Rightarrow> ('t, 'e, 'a) prog \<Rightarrow> ('s, 'e, 'a) prog" where
  "zoom get put m = (\<lambda>s. case m (get s) of (r, t) \<Rightarrow> (r, put t s))"

lemma return_run [run_simps]: "return a s = (Ok a, s)"
  by (simp add: return_def)

lemma raise_run [run_simps]: "raise e s = (Err e, s)"
  by (simp add: raise_def)

lemma panic_run [run_simps]: "panic s = (Panic, s)"
  by (simp add: panic_def)

lemma gets_run [run_simps]: "gets f s = (Ok (f s), s)"
  by (simp add: gets_def)

lemma modify_run [run_simps]: "modify f s = (Ok (), f s)"
  by (simp add: modify_def)

lemma of_outcome_run [run_simps]: "of_outcome r s = (r, s)"
  by (simp add: of_outcome_def)

lemma call_run [run_simps]: "call f s = (Ok (fst (f s)), snd (f s))"
  by (simp add: call_def split: prod.splits)

lemma zoom_run [run_simps]: "zoom get put m s = (fst (m (get s)), put (snd (m (get s))) s)"
  by (simp add: zoom_def split: prod.splits)

lemma and_then_run [run_simps]:
  "and_then m f s = (case m s of
       (Ok a, s') \<Rightarrow> f a s' | (Err e, s') \<Rightarrow> (Err e, s') | (Panic, s') \<Rightarrow> (Panic, s'))"
  by (simp add: and_then_def)

lemma seq_run [run_simps]:
  "seq m n s = (case m s of
       (Ok a, s') \<Rightarrow> n s' | (Err e, s') \<Rightarrow> (Err e, s') | (Panic, s') \<Rightarrow> (Panic, s'))"
  by (simp add: seq_def and_then_def)

lemma and_then_Ok: "m s = (Ok a, s') \<Longrightarrow> and_then m f s = f a s'"
  by (simp add: and_then_def)

lemma seq_Ok: "m s = (Ok a, s') \<Longrightarrow> seq m n s = n s'"
  by (simp add: seq_def and_then_def)

lemma and_then_return [simp]: "and_then (return a) f = f a"
  by (simp add: and_then_def return_def)

lemma seq_return [simp]: "seq (return a) m = m"
  by (simp add: seq_def)

lemma and_then_assoc: "and_then (and_then m f) g = and_then m (\<lambda>x. and_then (f x) g)"
  by (rule ext) (simp add: and_then_def split: prod.splits outcome.splits)

section \<open>Lifting facts over computations\<close>

text \<open>
  \<open>keeps I m\<close>: whatever way \<open>m\<close> ends, the predicate still holds of the state it leaves.
  \<open>ensures P m Q\<close>: started where \<open>P\<close> holds, a run of \<open>m\<close> that returns a value leaves a
  state where \<open>Q\<close> holds of that value, and every other way it ends keeps \<open>P\<close>.
\<close>

definition keeps :: "('s \<Rightarrow> bool) \<Rightarrow> ('s, 'e, 'a) prog \<Rightarrow> bool" where
  "keeps I m \<longleftrightarrow> (\<forall>s. I s \<longrightarrow> I (snd (m s)))"

definition ensures :: "('s \<Rightarrow> bool) \<Rightarrow> ('s, 'e, 'a) prog \<Rightarrow> ('a \<Rightarrow> 's \<Rightarrow> bool) \<Rightarrow> bool" where
  "ensures P m Q \<longleftrightarrow> (\<forall>s. P s \<longrightarrow> P (snd (m s)) \<and> (\<forall>a. fst (m s) = Ok a \<longrightarrow> Q a (snd (m s))))"

lemma keepsD: "keeps I m \<Longrightarrow> I s \<Longrightarrow> I (snd (m s))"
  by (simp add: keeps_def)

lemma keepsI: "(\<And>s. I s \<Longrightarrow> I (snd (m s))) \<Longrightarrow> keeps I m"
  by (simp add: keeps_def)

lemma ensuresD1: "ensures P m Q \<Longrightarrow> P s \<Longrightarrow> P (snd (m s))"
  by (simp add: ensures_def)

lemma ensuresD2: "ensures P m Q \<Longrightarrow> P s \<Longrightarrow> fst (m s) = Ok a \<Longrightarrow> Q a (snd (m s))"
  by (simp add: ensures_def)

lemma keeps_return [keep_intros]: "keeps I (return a)"
  by (simp add: keeps_def return_def)

lemma keeps_raise [keep_intros]: "keeps I (raise e)"
  by (simp add: keeps_def raise_def)

lemma keeps_panic [keep_intros]: "keeps I panic"
  by (simp add: keeps_def panic_def)

lemma keeps_gets [keep_intros]: "keeps I (gets f)"
  by (simp add: keeps_def gets_def)

lemma keeps_of_outcome [keep_intros]: "keeps I (of_outcome r)"
  by (simp add: keeps_def of_outcome_def)

lemma keeps_modify: "(\<And>s. I s \<Longrightarrow> I (f s)) \<Longrightarrow> keeps I (modify f)"
  by (simp add: keeps_def modify_def)

lemma keeps_and_then [keep_intros]:
  "keeps I m \<Longrightarrow> (\<And>a. keeps I (f a)) \<Longrightarrow> keeps I (and_then m f)"
  by (auto simp: keeps_def and_then_def split: prod.splits outcome.splits)

lemma keeps_seq [keep_intros]: "keeps I m \<Longrightarrow> keeps I n \<Longrightarrow> keeps I (seq m n)"
  unfolding seq_def by (rule keeps_and_then)

lemma keeps_if [keep_intros]:
  "(b \<Longrightarrow> keeps I m) \<Longrightarrow> (\<not> b \<Longrightarrow> keeps I n) \<Longrightarrow> keeps I (if b then m else n)"
  by simp

lemma keeps_case_option [keep_intros]:
  "(x = None \<Longrightarrow> keeps I m) \<Longrightarrow> (\<And>a. x = Some a \<Longrightarrow> keeps I (f a)) \<Longrightarrow>
   keeps I (case x of None \<Rightarrow> m | Some a \<Rightarrow> f a)"
  by (cases x) auto

lemma keeps_let [keep_intros]: "(\<And>x. x = t \<Longrightarrow> keeps I (f x)) \<Longrightarrow> keeps I (let x = t in f x)"
  by simp

lemma keeps_zoom [keep_intros]:
  "(\<And>s t. I s \<Longrightarrow> I (put t s)) \<Longrightarrow> keeps I (zoom get put m)"
  by (simp add: keeps_def zoom_def split: prod.splits)

lemma ensures_keeps: "ensures P m Q \<Longrightarrow> keeps P m"
  by (simp add: keeps_def ensures_def)

lemma keeps_and_then_ensures:
  assumes "ensures I m Q" and "\<And>a. keeps (\<lambda>s. I s \<and> Q a s) (f a)"
  shows "keeps I (and_then m f)"
proof (rule keepsI)
  fix s assume I: "I s"
  obtain r s' where r: "m s = (r, s')" by (cases "m s")
  from ensuresD1 [OF assms(1) I] r have I': "I s'" by simp
  show "I (snd (and_then m f s))"
  proof (cases r)
    case (Ok a)
    with ensuresD2 [OF assms(1) I] r have "Q a s'" by simp
    with I' keepsD [OF assms(2), of s' a] show ?thesis by (simp add: and_then_def r Ok)
  qed (simp_all add: and_then_def r I')
qed

text \<open>
  \<open>yields m Q\<close>: from every state \<open>m\<close> returns a value, neither an error nor a panic, and the
  value has the property \<open>Q\<close>.
\<close>

definition yields :: "('s, 'e, 'a) prog \<Rightarrow> ('a \<Rightarrow> bool) \<Rightarrow> bool" where
  "yields m Q \<longleftrightarrow> (\<forall>s. \<exists>a. fst (m s) = Ok a \<and> Q a)"

lemma yieldsD: "yields m Q \<Longrightarrow> \<exists>a s'. m s = (Ok a, s') \<and> Q a"
  unfolding yields_def by (metis prod.collapse)

lemma yields_return [yield_intros]: "Q a \<Longrightarrow> yields (return a) Q"
  by (simp add: yields_def return_def)

lemma yields_modify [yield_intros]: "Q () \<Longrightarrow> yields (modify f) Q"
  by (simp add: yields_def modify_def)

lemma yields_call: "(\<And>s. Q (fst (f s))) \<Longrightarrow> yields (call f) Q"
  by (simp add: yields_def call_run)

lemma yields_and_then:
  assumes "yields m Q" and "\<And>a. Q a \<Longrightarrow> yields (f a) R"
  shows "yields (and_then m f) R"
  unfolding yields_def
proof
  fix s
  obtain a s' where "m s = (Ok a, s')" and "Q a" using yieldsD [OF assms(1)] by blast
  moreover obtain b where "fst (f a s') = Ok b" "R b"
    using assms(2) [OF \<open>Q a\<close>] unfolding yields_def by blast
  ultimately show "\<exists>b. fst (and_then m f s) = Ok b \<and> R b" by (simp add: and_then_def)
qed

lemma yields_seq: "yields m (\<lambda>_. True) \<Longrightarrow> yields n R \<Longrightarrow> yields (seq m n) R"
  unfolding seq_def by (rule yields_and_then)

lemma yields_mono: "yields m Q \<Longrightarrow> (\<And>a. Q a \<Longrightarrow> R a) \<Longrightarrow> yields m R"
  unfolding yields_def by blast

lemma yields_if [yield_intros]:
  "(b \<Longrightarrow> yields m Q) \<Longrightarrow> (\<not> b \<Longrightarrow> yields n Q) \<Longrightarrow> yields (if b then m else n) Q"
  by simp

text \<open>
  \<open>only m Q E\<close>: a value \<open>m\<close> returns has the property \<open>Q\<close>, an error it ends with the property
  \<open>E\<close>; a panic is not excluded.
\<close>

definition only :: "('s, 'e, 'a) prog \<Rightarrow> ('a \<Rightarrow> bool) \<Rightarrow> ('e \<Rightarrow> bool) \<Rightarrow> bool" where
  "only m Q E \<longleftrightarrow> (\<forall>s. case fst (m s) of Ok a \<Rightarrow> Q a | Err e \<Rightarrow> E e | Panic \<Rightarrow> True)"

lemma onlyD1: "only m Q E \<Longrightarrow> fst (m s) = Ok a \<Longrightarrow> Q a"
  by (auto simp: only_def split: outcome.splits)

lemma onlyD2: "only m Q E \<Longrightarrow> fst (m s) = Err e \<Longrightarrow> E e"
  by (auto simp: only_def split: outcome.splits)

lemma only_return [only_intros]: "Q a \<Longrightarrow> only (return a) Q E"
  by (simp add: only_def return_def)

lemma only_modify [only_intros]: "Q () \<Longrightarrow> only (modify f) Q E"
  by (simp add: only_def modify_def)

lemma only_panic [only_intros]: "only panic Q E"
  by (simp add: only_def panic_def)

lemma only_call: "(\<And>s. Q (fst (f s))) \<Longrightarrow> only (call f) Q E"
  by (simp add: only_def call_run)

lemma only_of_outcome:
  "(\<And>a. r = Ok a \<Longrightarrow> Q a) \<Longrightarrow> (\<And>e. r = Err e \<Longrightarrow> E e) \<Longrightarrow> only (of_outcome r) Q E"
  by (simp add: only_def of_outcome_def split: outcome.splits)

lemma only_and_then:
  assumes "only m Q E" and "\<And>a. Q a \<Longrightarrow> only (f a) R E"
  shows "only (and_then m f) R E"
  unfolding only_def
proof
  fix s
  obtain r s' where r: "m s = (r, s')" by (cases "m s")
  show "case fst (and_then m f s) of Ok a \<Rightarrow> R a | Err e \<Rightarrow> E e | Panic \<Rightarrow> True"
  proof (cases r)
    case (Ok a)
    with onlyD1 [OF assms(1), of s a] r have "Q a" by simp
    with assms(2) Ok r show ?thesis by (simp add: and_then_def only_def)
  next
    case (Err e)
    with onlyD2 [OF assms(1), of s e] r show ?thesis by (simp add: and_then_def)
  qed (simp add: and_then_def r)
qed

lemma only_if [only_intros]:
  "(b \<Longrightarrow> only m Q E) \<Longrightarrow> (\<not> b \<Longrightarrow> only n Q E) \<Longrightarrow> only (if b then m else n) Q E"
  by simp

lemma only_seq: "only m (\<lambda>_. True) E \<Longrightarrow> only n R E \<Longrightarrow> only (seq m n) R E"
  unfolding seq_def by (rule only_and_then)

lemma only_mono:
  "only m Q E \<Longrightarrow> (\<And>a. Q a \<Longrightarrow> Q' a) \<Longrightarrow> (\<And>e. E e \<Longrightarrow> E' e) \<Longrightarrow> only m Q' E'"
  unfolding only_def by (auto split: outcome.splits)

lemma yields_only:
  assumes "yields m Q"
  shows "only m Q E"
  unfolding only_def
proof
  fix s
  obtain a s' where "m s = (Ok a, s')" "Q a" using yieldsD [OF assms] by blast
  then show "case fst (m s) of Ok a \<Rightarrow> Q a | Err e \<Rightarrow> E e | Panic \<Rightarrow> True" by simp
qed

lemma only_any: "only m (\<lambda>_. True) (\<lambda>_. True)"
  by (simp add: only_def split: outcome.splits)

lemma onlyI: "(\<And>s a. fst (m s) = Ok a \<Longrightarrow> Q a) \<Longrightarrow> only m Q (\<lambda>_. True)"
  by (simp add: only_def split: outcome.splits)

end
