(* ===== verification/Std_Path.thy ===== *)
theory Std_Path
  imports Prelude "HOL-Library.Sublist"
begin

text \<open>
  The part of Rust's \<open>std::path\<close> and \<open>std::ffi\<close> that toda uses, on Unix: a path is the byte
  string the program stores, its components are read from the front or from the back by
  the rules of the \<open>Components\<close> iterator, and two paths are equal when their components are.
\<close>

type_synonym path = string

section \<open>Components\<close>

datatype component = RootDir | CurDir | ParentDir | Normal string

definition is_sep :: "char \<Rightarrow> bool" where
  "is_sep c \<longleftrightarrow> c = CHR ''/''"

definition parse_single_component :: "string \<Rightarrow> component option" where
  "parse_single_component s =
     (if s = ''.'' then None
      else if s = ''..'' then Some ParentDir
      else if s = [] then None
      else Some (Normal s))"

text \<open>The bytes before the first separator, and what follows that separator.\<close>

definition first_comp :: "string \<Rightarrow> string" where
  "first_comp p = takeWhile (\<lambda>c. \<not> is_sep c) p"

definition after_comp :: "string \<Rightarrow> string" where
  "after_comp p = drop (Suc (length (first_comp p))) p"

lemma after_comp_less: "p \<noteq> [] \<Longrightarrow> length (after_comp p) < length p"
  by (cases p) (auto simp: after_comp_def)

text \<open>The body of a path: empty components and \<open>.\<close> are skipped.\<close>

function body_next :: "string \<Rightarrow> (component \<times> string) option" where
  "body_next p =
     (if p = [] then None
      else case parse_single_component (first_comp p) of
             Some c \<Rightarrow> Some (c, after_comp p)
           | None \<Rightarrow> body_next (after_comp p))"
  by pat_completeness auto
termination
  by (relation "measure length") (auto simp: after_comp_less)

declare body_next.simps [simp del]

lemma body_next_less: "body_next p = Some (c, r) \<Longrightarrow> length r < length p"
proof (induction p rule: body_next.induct)
  case (1 p)
  show ?case
  proof (cases "p = []")
    case True
    with 1 show ?thesis by (simp add: body_next.simps)
  next
    case False
    with 1 after_comp_less [OF False] show ?thesis
      by (subst (asm) body_next.simps) (fastforce split: option.splits)
  qed
qed

function body_list :: "string \<Rightarrow> component list" where
  "body_list p = (case body_next p of None \<Rightarrow> [] | Some (c, r) \<Rightarrow> c # body_list r)"
  by pat_completeness auto
termination
  by (relation "measure length") (auto dest: body_next_less)

declare body_list.simps [simp del]

definition has_root :: "path \<Rightarrow> bool" where
  "has_root p \<longleftrightarrow> (case p of [] \<Rightarrow> False | c # _ \<Rightarrow> is_sep c)"

abbreviation is_absolute :: "path \<Rightarrow> bool" where
  "is_absolute \<equiv> has_root"

text \<open>A leading \<open>.\<close> of a relative path is a component of its own.\<close>

definition include_cur_dir :: "path \<Rightarrow> bool" where
  "include_cur_dir p \<longleftrightarrow> \<not> has_root p \<and> first_comp p = ''.''"

text \<open>The iterator: whether it is past the start of the path, and the bytes still to read.\<close>

datatype iter = Iter (in_body: bool) (unread: string)

definition iter_next :: "iter \<Rightarrow> (component \<times> iter) option" where
  "iter_next it =
     (if \<not> in_body it \<and> has_root (unread it) then Some (RootDir, Iter True (tl (unread it)))
      else if \<not> in_body it \<and> include_cur_dir (unread it) then Some (CurDir, Iter True (tl (unread it)))
      else map_option (\<lambda>(c, r). (c, Iter True r)) (body_next (unread it)))"

definition components :: "path \<Rightarrow> component list" where
  "components p =
     (if has_root p then RootDir # body_list (tl p)
      else if include_cur_dir p then CurDir # body_list (tl p)
      else body_list p)"

definition path_eq :: "path \<Rightarrow> path \<Rightarrow> bool" where
  "path_eq p q \<longleftrightarrow> components p = components q"

section \<open>Reading from the back\<close>

definition len_before_body :: "bool \<Rightarrow> path \<Rightarrow> nat" where
  "len_before_body started p = (if \<not> started \<and> (has_root p \<or> include_cur_dir p) then 1 else 0)"

definition last_comp :: "string \<Rightarrow> string" where
  "last_comp p = rev (first_comp (rev p))"

text \<open>What is left once the last component and the separator before it are taken away.\<close>

definition before_comp :: "string \<Rightarrow> string" where
  "before_comp p = rev (after_comp (rev p))"

lemma before_comp_less: "p \<noteq> [] \<Longrightarrow> length (before_comp p) < length p"
  using after_comp_less [of "rev p"] by (simp add: before_comp_def)

text \<open>\<open>back_next\<close> works on the bytes after the root or the leading dot.\<close>

function back_next :: "string \<Rightarrow> (component \<times> string) option" where
  "back_next p =
     (if p = [] then None
      else case parse_single_component (last_comp p) of
             Some c \<Rightarrow> Some (c, before_comp p)
           | None \<Rightarrow> back_next (before_comp p))"
  by pat_completeness auto
termination
  by (relation "measure length") (auto simp: before_comp_less)

declare back_next.simps [simp del]

function trim_left :: "string \<Rightarrow> string" where
  "trim_left p =
     (if p = [] then []
      else if parse_single_component (first_comp p) = None then trim_left (after_comp p)
      else p)"
  by pat_completeness auto
termination
  by (relation "measure length") (auto simp: after_comp_less)

function trim_right :: "string \<Rightarrow> string" where
  "trim_right p =
     (if p = [] then []
      else if parse_single_component (last_comp p) = None then trim_right (before_comp p)
      else p)"
  by pat_completeness auto
termination
  by (relation "measure length") (auto simp: before_comp_less)

declare trim_left.simps [simp del] trim_right.simps [simp del]

text \<open>\<open>Components::as_path\<close>: the bytes still to read, trimmed at the ends that are in the body.\<close>

definition iter_as_path :: "iter \<Rightarrow> path" where
  "iter_as_path it =
     (let p = (if in_body it then trim_left (unread it) else unread it);
          n = len_before_body (in_body it) p
      in take n p @ trim_right (drop n p))"

section \<open>Operations on paths\<close>

fun iter_after :: "iter \<Rightarrow> component list \<Rightarrow> iter option" where
  "iter_after it [] = Some it"
| "iter_after it (y # ys) =
     (case iter_next it of
        Some (x, it') \<Rightarrow> if x = y then iter_after it' ys else None
      | None \<Rightarrow> None)"

definition strip_prefix :: "path \<Rightarrow> path \<Rightarrow> path option" where
  "strip_prefix p base = map_option iter_as_path (iter_after (Iter False p) (components base))"

definition starts_with :: "path \<Rightarrow> path \<Rightarrow> bool" where
  "starts_with p base \<longleftrightarrow> iter_after (Iter False p) (components base) \<noteq> None"

text \<open>\<open>PathBuf::push\<close>, and \<open>Path::join\<close>, which pushes onto a copy.\<close>

definition push :: "path \<Rightarrow> path \<Rightarrow> path" where
  "push p q =
     (if is_absolute q then q
      else if p \<noteq> [] \<and> \<not> is_sep (last p) then p @ ''/'' @ q
      else p @ q)"

abbreviation join :: "path \<Rightarrow> path \<Rightarrow> path" where
  "join \<equiv> push"

text \<open>\<open>Components::next_back\<close> on a whole path: the last component and the path before it.\<close>

definition comps_next_back :: "path \<Rightarrow> (component \<times> path) option" where
  "comps_next_back p =
     (let n = len_before_body False p in
      case back_next (drop n p) of
        Some (c, r) \<Rightarrow> Some (c, take n p @ trim_right r)
      | None \<Rightarrow>
          if has_root p then Some (RootDir, [])
          else if include_cur_dir p then Some (CurDir, [])
          else None)"

definition parent :: "path \<Rightarrow> path option" where
  "parent p = (case comps_next_back p of
       Some (RootDir, _) \<Rightarrow> None
     | Some (_, r) \<Rightarrow> Some r
     | None \<Rightarrow> None)"

definition file_name :: "path \<Rightarrow> string option" where
  "file_name p = (case comps_next_back p of Some (Normal s, _) \<Rightarrow> Some s | _ \<Rightarrow> None)"

text \<open>\<open>PathBuf::pop\<close> truncates to the length of the parent; \<open>None\<close> where it returns false.\<close>

definition pop :: "path \<Rightarrow> path option" where
  "pop p = map_option (\<lambda>q. take (length q) p) (parent p)"


section \<open>Component lists\<close>

lemma body_list_Nil [simp]: "body_list [] = []"
  by (simp add: body_list.simps body_next.simps)

lemma body_list_step:
  "p \<noteq> [] \<Longrightarrow> body_list p =
     (case parse_single_component (first_comp p) of None \<Rightarrow> [] | Some c \<Rightarrow> [c]) @
     body_list (after_comp p)"
  by (subst body_list.simps, subst body_next.simps)
     (auto simp: body_list.simps [of "after_comp p"] split: option.splits)

lemma first_comp_append_sep:
  "first_comp (p @ CHR ''/'' # q) = first_comp p"
  by (induction p) (simp_all add: first_comp_def is_sep_def)

lemma first_comp_no_sep: "CHR ''/'' \<notin> set p \<Longrightarrow> first_comp p = p"
  by (auto simp: first_comp_def is_sep_def takeWhile_eq_all_conv)

lemma first_comp_split:
  "CHR ''/'' \<in> set p \<Longrightarrow> p = first_comp p @ CHR ''/'' # after_comp p"
  by (induction p) (auto simp: first_comp_def after_comp_def is_sep_def)

lemma first_comp_less: "CHR ''/'' \<in> set p \<Longrightarrow> length (first_comp p) < length p"
  by (induction p) (auto simp: first_comp_def is_sep_def)

lemma after_comp_append_sep:
  "after_comp (p @ CHR ''/'' # q) =
     (if CHR ''/'' \<in> set p then after_comp p @ CHR ''/'' # q else q)"
  using first_comp_less [of p] first_comp_no_sep [of p]
  by (auto simp: after_comp_def first_comp_append_sep)

lemma body_list_no_sep:
  "CHR ''/'' \<notin> set p \<Longrightarrow>
   body_list p = (case parse_single_component p of None \<Rightarrow> [] | Some c \<Rightarrow> [c])"
proof (cases "p = []")
  case False
  assume "CHR ''/'' \<notin> set p"
  then have "first_comp p = p" by (rule first_comp_no_sep)
  then show ?thesis
    by (simp add: body_list_step [OF False] after_comp_def)
qed (simp add: parse_single_component_def)

text \<open>A separator splits the component list of a body.\<close>

lemma body_list_append_sep: "body_list (p @ CHR ''/'' # q) = body_list p @ body_list q"
proof (induction p rule: length_induct)
  case (1 p)
  show ?case
  proof (cases "CHR ''/'' \<in> set p")
    case True
    then have p: "p \<noteq> []" by auto
    with 1 after_comp_less
    have "body_list (after_comp p @ CHR ''/'' # q) = body_list (after_comp p) @ body_list q"
      by blast
    with True p show ?thesis
      by (simp add: body_list_step [of "p @ CHR ''/'' # q"] body_list_step [of p]
          first_comp_append_sep after_comp_append_sep)
  next
    case False
    then have "first_comp p = p" by (rule first_comp_no_sep)
    with False show ?thesis
      by (simp add: body_list_step [of "p @ CHR ''/'' # q"] first_comp_append_sep
          after_comp_append_sep body_list_no_sep)
  qed
qed

lemma body_list_sep_Cons [simp]: "body_list (CHR ''/'' # q) = body_list q"
  using body_list_append_sep [of "[]" q] by simp

lemma before_last_comp:
  "p = (if CHR ''/'' \<in> set p then before_comp p @ CHR ''/'' # last_comp p else last_comp p)"
proof (cases "CHR ''/'' \<in> set p")
  case True
  then have "rev p = first_comp (rev p) @ CHR ''/'' # after_comp (rev p)"
    by (intro first_comp_split) simp
  then have "rev (rev p) = rev (first_comp (rev p) @ CHR ''/'' # after_comp (rev p))"
    by (rule arg_cong)
  with True show ?thesis by (simp add: before_comp_def last_comp_def)
next
  case False
  then have "first_comp (rev p) = rev p" by (intro first_comp_no_sep) simp
  with False show ?thesis by (simp add: last_comp_def)
qed

lemma last_comp_no_sep: "CHR ''/'' \<notin> set (last_comp p)"
  by (auto simp: last_comp_def first_comp_def is_sep_def dest: set_takeWhileD)

lemma before_comp_no_sep: "CHR ''/'' \<notin> set p \<Longrightarrow> before_comp p = []"
proof -
  assume "CHR ''/'' \<notin> set p"
  then have "first_comp (rev p) = rev p" by (intro first_comp_no_sep) simp
  then show ?thesis by (simp add: before_comp_def after_comp_def)
qed

lemma body_list_last_step:
  "body_list p = body_list (before_comp p) @
     (case parse_single_component (last_comp p) of None \<Rightarrow> [] | Some c \<Rightarrow> [c])"
proof (cases "CHR ''/'' \<in> set p")
  case True
  then have "body_list p = body_list (before_comp p @ CHR ''/'' # last_comp p)"
    using before_last_comp [of p] by simp
  then show ?thesis
    by (simp add: body_list_append_sep body_list_no_sep [OF last_comp_no_sep])
next
  case False
  then have "last_comp p = p"
    using before_last_comp [of p] by simp
  with False show ?thesis by (simp add: before_comp_no_sep body_list_no_sep)
qed

lemma body_list_trim_left [simp]: "body_list (trim_left p) = body_list p"
proof (induction p rule: trim_left.induct)
  case (1 p)
  then show ?case
    by (subst trim_left.simps) (auto simp: body_list_step [of p])
qed

lemma body_list_trim_right [simp]: "body_list (trim_right p) = body_list p"
proof (induction p rule: trim_right.induct)
  case (1 p)
  then show ?case
    by (cases "p = []")
       (auto simp: trim_right.simps [of p] trim_right.simps [of "[]"] body_list_last_step [of p])
qed

lemma trim_left_relative: "\<not> has_root (trim_left p)"
proof (induction p rule: trim_left.induct)
  case (1 p)
  then show ?case
    by (subst trim_left.simps)
       (auto simp: has_root_def parse_single_component_def first_comp_def split: list.splits if_splits)
qed

lemma prefix_before_comp: "prefix (before_comp p) p"
  using before_last_comp [of p] before_comp_no_sep [of p]
  by (metis Nil_prefix prefixI)

lemma prefix_trim_right: "prefix (trim_right p) p"
proof (induction p rule: trim_right.induct)
  case (1 p)
  then show ?case
    by (subst trim_right.simps)
       (auto intro: prefix_order.trans prefix_before_comp)
qed

lemma has_root_prefix: "prefix q p \<Longrightarrow> \<not> has_root p \<Longrightarrow> \<not> has_root q"
  by (auto simp: has_root_def prefix_def split: list.splits)

section \<open>The iterator against the component lists\<close>

definition iter_list :: "iter \<Rightarrow> component list" where
  "iter_list it = (if in_body it then body_list (unread it) else components (unread it))"

lemma iter_list_next:
  "iter_list it = (case iter_next it of None \<Rightarrow> [] | Some (c, it') \<Rightarrow> c # iter_list it')"
  using body_list.simps [of "unread it"]
  by (auto simp: iter_list_def iter_next_def components_def split: option.splits)

lemma iter_next_in_body: "iter_next it = Some (c, it') \<Longrightarrow> in_body it'"
  by (auto simp: iter_next_def split: if_splits)

lemma iter_after_list: "iter_after it ys = Some it' \<Longrightarrow> iter_list it = ys @ iter_list it'"
proof (induction ys arbitrary: it)
  case (Cons y ys)
  then show ?case
    by (auto simp: iter_list_next [of it] split: option.splits prod.splits if_splits)
qed simp

lemma iter_after_exists: "iter_list it = ys @ zs \<Longrightarrow> \<exists>it'. iter_after it ys = Some it' \<and> iter_list it' = zs"
proof (induction ys arbitrary: it)
  case (Cons y ys)
  then show ?case
    by (fastforce simp: iter_list_next [of it] split: option.splits prod.splits)
qed simp

lemma iter_after_in_body: "iter_after it ys = Some it' \<Longrightarrow> ys \<noteq> [] \<or> in_body it \<Longrightarrow> in_body it'"
proof (induction ys arbitrary: it)
  case (Cons y ys)
  then show ?case
    by (auto dest: iter_next_in_body split: option.splits prod.splits if_splits)
qed simp

lemma iter_list_start [simp]: "iter_list (Iter False p) = components p"
  by (simp add: iter_list_def)

lemma starts_with_prefix: "starts_with p base \<longleftrightarrow> prefix (components base) (components p)"
  using iter_after_list [of "Iter False p" "components base"]
    iter_after_exists [of "Iter False p" "components base"]
  by (auto simp: starts_with_def prefix_def)

section \<open>Joining and stripping\<close>

lemma components_absolute: "has_root p \<Longrightarrow> components p = RootDir # body_list (tl p)"
  by (simp add: components_def)

lemma has_rootE: assumes "has_root p" obtains q where "p = CHR ''/'' # q"
  using assms by (auto simp: has_root_def is_sep_def split: list.splits)

text \<open>Joining a relative path onto an absolute one appends its components.\<close>

lemma components_push:
  assumes "has_root p" and "\<not> has_root q"
  shows "components (push p q) = components p @ body_list q"
proof -
  obtain r where r: "p = CHR ''/'' # r" using assms(1) by (rule has_rootE)
  show ?thesis
  proof (cases "is_sep (last p)")
    case True
    show ?thesis
    proof (cases "r = []")
      case False
      with True r obtain t where t: "r = t @ [CHR ''/'']"
        by (metis append_butlast_last_id is_sep_def last_ConsR)
      have "body_list (t @ CHR ''/'' # q) = body_list t @ body_list q"
        by (rule body_list_append_sep)
      moreover have "body_list (t @ CHR ''/'' # []) = body_list t"
        by (subst body_list_append_sep) simp
      ultimately show ?thesis
        using assms True r t by (simp add: push_def components_def has_root_def)
    qed (use assms r True in \<open>simp add: push_def components_def has_root_def is_sep_def\<close>)
  next
    case False
    with assms r show ?thesis
      using body_list_append_sep [of r q]
      by (simp add: push_def components_def has_root_def is_sep_def)
  qed
qed

lemma has_root_push: "has_root p \<Longrightarrow> has_root (push p q)"
  by (auto simp: push_def has_root_def split: list.splits)

lemma starts_with_refl [simp]: "starts_with p p"
  by (simp add: starts_with_prefix)

lemma body_list_no_root: "RootDir \<notin> set (body_list p)"
proof (induction p rule: length_induct)
  case (1 p)
  show ?case
  proof (cases "p = []")
    case False
    with 1 after_comp_less have "RootDir \<notin> set (body_list (after_comp p))" by blast
    with False show ?thesis
      by (simp add: body_list_step parse_single_component_def split: option.splits)
  qed simp
qed

lemma starts_with_absolute:
  assumes "starts_with p base" and "has_root base"
  shows "has_root p"
proof (rule ccontr)
  assume p: "\<not> has_root p"
  from assms have "RootDir \<in> set (components p)"
    by (auto simp: starts_with_prefix components_absolute dest: set_mono_prefix)
  with p show False
    using body_list_no_root by (auto simp: components_def split: if_splits)
qed

text \<open>Joining a relative path keeps the front of the path.\<close>

lemma starts_with_push:
  assumes "starts_with p base" and "has_root p" and "\<not> has_root q"
  shows "starts_with (push p q) base"
  using assms by (simp add: starts_with_prefix components_push)

lemma strip_prefix_Some:
  assumes "strip_prefix p base = Some t" and "has_root base"
  shows "components p = components base @ body_list t" and "\<not> has_root t"
proof -
  from assms(1) obtain it where it: "iter_after (Iter False p) (components base) = Some it"
    and t: "t = iter_as_path it"
    by (auto simp: strip_prefix_def)
  from iter_after_in_body [OF it] assms(2) have b: "in_body it"
    by (simp add: components_def)
  have "t = trim_right (trim_left (unread it))"
    using b by (simp add: t iter_as_path_def len_before_body_def)
  then show "components p = components base @ body_list t" and "\<not> has_root t"
    using iter_after_list [OF it] b
    by (simp_all add: iter_list_def has_root_prefix [OF prefix_trim_right trim_left_relative])
qed

text \<open>Moving a path from one directory to another keeps the components below it.\<close>

lemma components_moved:
  assumes "strip_prefix p base = Some t" and "has_root base" and "has_root new"
  shows "components (join new t) = components new @ drop (length (components base)) (components p)"
  using strip_prefix_Some [OF assms(1,2)] components_push [OF assms(3)] by simp

lemma strip_prefix_exists: "starts_with p base \<Longrightarrow> \<exists>t. strip_prefix p base = Some t"
  by (auto simp: starts_with_def strip_prefix_def)

section \<open>Staying below a directory\<close>

text \<open>A path below \<open>root\<close> continues \<open>root\<close> and never climbs up again.\<close>

definition below :: "path \<Rightarrow> path \<Rightarrow> bool" where
  "below p root \<longleftrightarrow>
     starts_with p root \<and> ParentDir \<notin> set (drop (length (components root)) (components p))"

text \<open>A name of a directory entry.\<close>

definition name_ok :: "string \<Rightarrow> bool" where
  "name_ok name \<longleftrightarrow> name \<noteq> [] \<and> name \<noteq> ''.'' \<and> name \<noteq> ''..'' \<and> \<not> list_ex is_sep name"

lemma below_refl [simp]: "below p p"
  by (simp add: below_def)

lemma below_starts_with: "below p root \<Longrightarrow> starts_with p root"
  by (simp add: below_def)

lemma below_path_eq: "path_eq p q \<Longrightarrow> below p root = below q root"
  by (simp add: below_def path_eq_def starts_with_prefix)

lemma name_no_root: "name_ok name \<Longrightarrow> \<not> has_root name"
  by (cases name) (auto simp: name_ok_def has_root_def)

lemma body_list_name: "name_ok name \<Longrightarrow> body_list name = [Normal name]"
proof -
  assume n: "name_ok name"
  then have "first_comp name = name"
    by (auto simp: first_comp_def name_ok_def list_ex_iff)
  moreover from this have "after_comp name = []" by (simp add: after_comp_def)
  ultimately show ?thesis
    using n by (subst body_list_step) (auto simp: name_ok_def parse_single_component_def)
qed

lemma components_child:
  "has_root p \<Longrightarrow> name_ok name \<Longrightarrow> components (join p name) = components p @ [Normal name]"
  by (simp add: components_push name_no_root body_list_name)

lemma below_child:
  assumes "has_root root" and "name_ok name" and "below p root"
  shows "below (join p name) root"
proof -
  from assms have p: "has_root p" using starts_with_absolute below_starts_with by blast
  obtain cs where "components p = components root @ cs" "ParentDir \<notin> set cs"
    using assms(3) by (auto simp: below_def starts_with_prefix prefix_def)
  with assms p show ?thesis
    by (simp add: below_def starts_with_prefix components_child)
qed

end
