(* ===== verification/Std_Values.thy ===== *)
theory Std_Values
  imports Prelude
begin

text \<open>
  Values of the Rust language and standard library the program computes with: double
  precision numbers, durations and system times, C strings, UTF-8 and lower-casing of text,
  resizing of vectors.
\<close>

section \<open>Double precision numbers\<close>

text \<open>
  Every \<open>f64\<close> the program computes is an integer multiple of \<open>2 ^ -59\<close>, and is represented by
  that integer: the random samples are multiples of \<open>2 ^ -53\<close>, the integers converted to \<open>f64\<close>
  are exact, a percentage is either 0 or at least \<open>1 / 100\<close>, whose 53-bit rounding has an
  exponent of \<open>-59\<close>. A quotient or product is rounded to 53 significant bits, to the nearest
  such value and to the even one of two that are equally near.
\<close>

type_synonym f64 = int

definition f64_unit :: nat where
  "f64_unit = 2 ^ 59"

fun bit_len :: "nat \<Rightarrow> nat" where
  "bit_len n = (if n = 0 then 0 else Suc (bit_len (n div 2)))"

declare bit_len.simps [simp del]

definition rne_div :: "nat \<Rightarrow> nat \<Rightarrow> nat" where
  "rne_div a b =
     (let q = a div b; r = a mod b in
      if 2 * r < b \<or> (2 * r = b \<and> even q) then q else q + 1)"

text \<open>The 53-bit rounding of \<open>a / b\<close>, for a quotient that is an integer or at least \<open>2 ^ 52\<close>.\<close>

definition round_ratio :: "nat \<Rightarrow> nat \<Rightarrow> nat" where
  "round_ratio a b = (let e = bit_len (a div b) - 53 in rne_div a (b * 2 ^ e) * 2 ^ e)"

definition f64_of_i32 :: "i32 \<Rightarrow> f64" where
  "f64_of_i32 n = sint n * int f64_unit"

definition f64_div :: "f64 \<Rightarrow> f64 \<Rightarrow> f64" where
  "f64_div x y = sgn x * sgn y * int (round_ratio (nat \<bar>x\<bar> * f64_unit) (nat \<bar>y\<bar>))"

definition f64_mul :: "f64 \<Rightarrow> f64 \<Rightarrow> f64" where
  "f64_mul x y = sgn x * sgn y * int (round_ratio (nat \<bar>x\<bar> * nat \<bar>y\<bar>) f64_unit)"

text \<open>The cast \<open>as i32\<close> truncates towards zero and saturates.\<close>

definition f64_as_i32 :: "f64 \<Rightarrow> i32" where
  "f64_as_i32 x =
     word_of_int (max (- (2 ^ 31)) (min (2 ^ 31 - 1) (sgn x * int (nat \<bar>x\<bar> div f64_unit))))"

text \<open>A sample of \<open>rng.gen::<f64>()\<close> is \<open>m / 2 ^ 53\<close> for the 53 random bits \<open>m\<close>.\<close>

definition f64_of_sample :: "nat \<Rightarrow> f64" where
  "f64_of_sample m = int m * 2 ^ 6"

lemma bit_len_bounds: "0 < n \<Longrightarrow> 2 ^ bit_len n \<le> 2 * n \<and> n < 2 ^ bit_len n"
proof (induction n rule: bit_len.induct)
  case (1 n)
  show ?case
  proof (cases "n div 2 = 0")
    case True
    with 1 have "n = 1" by auto
    then show ?thesis by (simp add: bit_len.simps [of "Suc 0"] bit_len.simps [of 0])
  next
    case False
    with 1 have "2 ^ bit_len (n div 2) \<le> 2 * (n div 2) \<and> n div 2 < 2 ^ bit_len (n div 2)"
      by auto
    with 1 show ?thesis by (auto simp: bit_len.simps [of n])
  qed
qed

lemma rne_div_upper: "0 < b \<Longrightarrow> 2 * (rne_div a b * b) \<le> 2 * a + b"
proof -
  assume b: "0 < b"
  have a: "a = a div b * b + a mod b" by simp
  have m: "a mod b < b" using b by simp
  show ?thesis
  proof (cases "2 * (a mod b) < b \<or> (2 * (a mod b) = b \<and> even (a div b))")
    case True
    have "2 * (a div b * b) \<le> 2 * a + b" using a by linarith
    with True show ?thesis by (simp add: rne_div_def Let_def)
  next
    case False
    then have "b \<le> 2 * (a mod b)" by linarith
    moreover have "2 * ((a div b + 1) * b) = 2 * (a div b * b) + 2 * b"
      by (simp add: algebra_simps)
    ultimately have "2 * ((a div b + 1) * b) \<le> 2 * a + b"
      using a by linarith
    with False show ?thesis by (simp add: rne_div_def Let_def)
  qed
qed

lemma rne_div_lower: "0 < b \<Longrightarrow> 2 * a \<le> 2 * (rne_div a b * b) + b"
proof -
  assume b: "0 < b"
  have a: "a = a div b * b + a mod b" by simp
  have m: "a mod b < b" using b by simp
  show ?thesis
  proof (cases "2 * (a mod b) < b \<or> (2 * (a mod b) = b \<and> even (a div b))")
    case True
    then have "2 * (a mod b) \<le> b" by linarith
    then have "2 * a \<le> 2 * (a div b * b) + b" using a by linarith
    with True show ?thesis by (simp add: rne_div_def Let_def)
  next
    case False
    have "2 * ((a div b + 1) * b) = 2 * (a div b * b) + 2 * b"
      by (simp add: algebra_simps)
    then have "2 * a \<le> 2 * ((a div b + 1) * b) + b" using a m by linarith
    with False show ?thesis by (auto simp: rne_div_def Let_def)
  qed
qed

lemma rne_div_ge: "a div b \<le> rne_div a b"
  by (simp add: rne_div_def Let_def)

lemma rne_div_mult: "0 < c \<Longrightarrow> rne_div (c * a) (c * b) = rne_div a b"
  by (auto simp: rne_div_def Let_def mult_mod_right [symmetric] mult.left_commute [of 2])

text \<open>The rounding moves a value by at most half a unit in the last place.\<close>

lemma round_ratio_bounds:
  assumes "0 < b" and "e = bit_len (a div b) - 53"
  shows "2 * (round_ratio a b * b) \<le> 2 * a + b * 2 ^ e"
    and "2 * a \<le> 2 * (round_ratio a b * b) + b * 2 ^ e"
  using rne_div_upper [of "b * 2 ^ e" a] rne_div_lower [of "b * 2 ^ e" a] assms
  by (simp_all add: round_ratio_def Let_def algebra_simps)

text \<open>
  A random sample below 1 times a positive 32-bit integer, rounded and truncated, stays
  below that integer: the rounding never reaches it.
\<close>

lemma round_product_less:
  assumes m: "m < 2 ^ 53" and s: "0 < s"
  shows "round_ratio (m * 2 ^ 6 * (s * f64_unit)) f64_unit < s * f64_unit"
proof -
  let ?A = "m * 2 ^ 6 * s"
  let ?e = "bit_len ?A - 53"
  have u: "0 < f64_unit" by (simp add: f64_unit_def)
  have dv: "m * 2 ^ 6 * (s * f64_unit) div f64_unit = ?A"
    using u by (metis mult.assoc nonzero_mult_div_cancel_right not_gr0)
  let ?R = "round_ratio (m * 2 ^ 6 * (s * f64_unit)) f64_unit"
  have "2 * (?R * f64_unit) \<le> 2 * (m * 2 ^ 6 * (s * f64_unit)) + f64_unit * 2 ^ ?e"
    by (rule round_ratio_bounds(1)) (simp_all only: u dv)
  then have "f64_unit * (2 * ?R) \<le> f64_unit * (2 * ?A + 2 ^ ?e)"
    by (simp add: algebra_simps)
  then have R: "2 * ?R \<le> 2 * ?A + 2 ^ ?e" using u by simp
  have "(m + 1) * s \<le> 2 ^ 53 * s" using m by (intro mult_right_mono) auto
  then have A: "?A + 2 ^ 6 * s \<le> s * f64_unit"
    by (simp add: f64_unit_def algebra_simps)
  show ?thesis
  proof (rule ccontr)
    assume "\<not> ?thesis"
    with R A have e: "2 * (2 ^ 6 * s) \<le> 2 ^ ?e" by linarith
    then have pos: "0 < ?e" using s by (cases ?e) auto
    then have "0 < ?A" by (cases "?A = 0") (auto simp: bit_len.simps [of 0])
    then have "2 ^ bit_len ?A \<le> 2 * ?A" using bit_len_bounds by blast
    moreover have "bit_len ?A = 53 + ?e" using pos by simp
    ultimately have "2 ^ 53 * 2 ^ ?e \<le> 2 * ?A" by (metis power_add)
    with e have "2 ^ 53 * (2 * (2 ^ 6 * s)) \<le> 2 * ?A"
      by (meson le_trans mult_le_mono2)
    with A s show False by (simp add: f64_unit_def)
  qed
qed

lemma f64_as_i32_range:
  assumes "0 \<le> x" and "x < int s * int f64_unit" and "s < 2 ^ 31"
  shows "0 \<le> sint (f64_as_i32 x)" and "sint (f64_as_i32 x) < int s"
proof -
  let ?q = "nat x div f64_unit"
  have "nat x < s * f64_unit" using assms(1,2) by (metis nat_less_iff of_nat_mult)
  then have q: "?q < s" by (simp add: div_less_iff_less_mult f64_unit_def)
  have s0: "s \<noteq> 0" using q by auto
  have eq: "max (- (2 ^ 31)) (min (2 ^ 31 - 1) (sgn x * int (nat \<bar>x\<bar> div f64_unit))) = int ?q"
    using assms(1,3) q by (cases "x = 0") (auto simp: sgn_if max_def min_def)
  have "sint (word_of_int (int ?q) :: i32) = int ?q"
    unfolding sint_sbintrunc' using q assms(3) by (intro signed_take_bit_int_eq_self) auto
  then show "0 \<le> sint (f64_as_i32 x)" and "sint (f64_as_i32 x) < int s"
    using q unfolding f64_as_i32_def eq by simp_all
qed

section \<open>Durations and system times\<close>

datatype duration = Duration (as_secs: nat) (subsec_nanos: nat)

definition duration_from_secs :: "u64 \<Rightarrow> duration" where
  "duration_from_secs s = Duration (unat s) 0"

definition duration_from_nanos :: "u64 \<Rightarrow> duration" where
  "duration_from_nanos n = Duration (unat n div 1000000000) (unat n mod 1000000000)"

datatype systime = SystemTime (tv_sec: int) (tv_nsec: nat)

definition UNIX_EPOCH :: systime where
  "UNIX_EPOCH = SystemTime 0 0"

text \<open>\<open>SystemTime + Duration\<close>: the seconds are a signed 64-bit number, overflow is a panic
  (\<open>None\<close>).\<close>

definition add_duration :: "systime \<Rightarrow> duration \<Rightarrow> systime option" where
  "add_duration t d =
     (let n = tv_nsec t + subsec_nanos d;
          carry = (if 1000000000 \<le> n then 1 else 0);
          s = tv_sec t + int (as_secs d) + carry
      in if int (as_secs d) < 2 ^ 63 \<and> tv_sec t + int (as_secs d) < 2 ^ 63 \<and> s < 2 ^ 63
         then Some (SystemTime s (if 1000000000 \<le> n then n - 1000000000 else n))
         else None)"

text \<open>\<open>t.duration_since(UNIX_EPOCH)\<close> in nanoseconds; \<open>None\<close> for a time before the epoch.\<close>

definition nanos_since_epoch :: "systime \<Rightarrow> nat option" where
  "nanos_since_epoch t =
     (if tv_sec t < 0 then None else Some (nat (tv_sec t) * 1000000000 + tv_nsec t))"

section \<open>Text and vectors\<close>

definition cstring_new :: "string \<Rightarrow> string option" where
  "cstring_new s = (if CHR 0x00 \<in> set s then None else Some s)"

definition resize :: "'a list \<Rightarrow> nat \<Rightarrow> 'a \<Rightarrow> 'a list" where
  "resize xs n x = take n xs @ replicate (n - length xs) x"

definition bytes_of :: "string \<Rightarrow> u8 list" where
  "bytes_of s = map of_char s"

definition utf8_cont :: "nat \<Rightarrow> bool" where
  "utf8_cont b \<longleftrightarrow> 128 \<le> b \<and> b < 192"

text \<open>The validation of \<open>str::from_utf8\<close>: no overlong forms, no surrogates, at most
  \<open>U+10FFFF\<close>.\<close>

fun utf8_valid :: "nat list \<Rightarrow> bool" where
  "utf8_valid [] = True"
| "utf8_valid (a # r) =
     (if a < 128 then utf8_valid r
      else if 194 \<le> a \<and> a < 224 then
        (case r of b # r' \<Rightarrow> utf8_cont b \<and> utf8_valid r' | [] \<Rightarrow> False)
      else if 224 \<le> a \<and> a < 240 then
        (case r of b # c # r' \<Rightarrow>
             utf8_cont b \<and> (a = 224 \<longrightarrow> 160 \<le> b) \<and> (a = 237 \<longrightarrow> b < 160) \<and> utf8_cont c \<and> utf8_valid r'
         | _ \<Rightarrow> False)
      else if 240 \<le> a \<and> a < 245 then
        (case r of b # c # d # r' \<Rightarrow>
             utf8_cont b \<and> (a = 240 \<longrightarrow> 144 \<le> b) \<and> (a = 244 \<longrightarrow> b < 144) \<and>
             utf8_cont c \<and> utf8_cont d \<and> utf8_valid r'
         | _ \<Rightarrow> False)
      else False)"

definition to_str :: "string \<Rightarrow> string option" where
  "to_str s = (if utf8_valid (map of_char s) then Some s else None)"

definition ascii_lower :: "char \<Rightarrow> char" where
  "ascii_lower c = (let n = of_char c :: nat in if 65 \<le> n \<and> n \<le> 90 then char_of (n + 32) else c)"

text \<open>
  \<open>str::to_lowercase\<close> as far as a comparison with ASCII text sees it: the ASCII letters, and
  the Kelvin sign \<open>U+212A\<close>, the only other character whose lower case is an ASCII text. Every
  other character stays a non-ASCII one and compares unequal either way.
\<close>

fun to_lowercase :: "string \<Rightarrow> string" where
  "to_lowercase [] = []"
| "to_lowercase (a # s) =
     (case s of
        b # c # r \<Rightarrow>
          if a = CHR 0xE2 \<and> b = CHR 0x84 \<and> c = CHR 0xAA then CHR ''k'' # to_lowercase r
          else ascii_lower a # to_lowercase s
      | _ \<Rightarrow> ascii_lower a # to_lowercase s)"

lemma length_resize [simp]: "length (resize xs n x) = n"
  by (simp add: resize_def)

lemma resize_take: "n \<le> length xs \<Longrightarrow> resize xs n x = take n xs"
  by (simp add: resize_def)

lemma cstring_new_Some: "cstring_new s = Some t \<longleftrightarrow> t = s \<and> CHR 0x00 \<notin> set s"
  by (auto simp: cstring_new_def)

end
