(* ===== verification/Errors.thy ===== *)
theory Errors
  imports Std_Values
begin

text \<open>
  \<open>src/hookfs/errors.rs\<close> and \<open>src/hookfs/runtime.rs\<close>: the error type of the file system, its
  conversions from the errors of the libraries and to the number sent to the kernel, and the
  runtime that runs blocking calls.
\<close>

type_synonym errno = i32

text \<open>The error type of the \<open>nix\<close> crate, as far as the conversions tell its values apart.\<close>

datatype nix_error = nix_Sys errno | nix_InvalidPath | nix_InvalidUtf8 | nix_UnsupportedOperation

datatype HookFsError =
    Sys errno
  | InodeNotFound u64
  | FhNotFound u64
  | InvalidStr
  | UnknownFileType
  | StripPrefixError
  | UnknownError

definition EPERM :: errno where "EPERM = 1"
definition ESRCH :: errno where "ESRCH = 3"
definition EFAULT :: errno where "EFAULT = 14"
definition EINVAL :: errno where "EINVAL = 22"
definition ENOSYS :: errno where "ENOSYS = 38"

lemmas errno_defs = EPERM_def ESRCH_def EFAULT_def EINVAL_def ENOSYS_def

fun from_nix_Error :: "nix_error \<Rightarrow> HookFsError" where
  "from_nix_Error (nix_Sys errno) = Sys errno"
| "from_nix_Error _ = UnknownError"

definition from_NulError :: HookFsError where
  "from_NulError = InvalidStr"

definition from_io_Error :: HookFsError where
  "from_io_Error = UnknownError"

definition from_JoinError :: HookFsError where
  "from_JoinError = UnknownError"

text \<open>\<open>HookFsError::last\<close>: the error of the \<open>errno\<close> of the thread that calls it.\<close>

definition HookFsError_last :: "errno \<Rightarrow> HookFsError" where
  "HookFsError_last errno = from_nix_Error (nix_Sys errno)"

fun into_c_int :: "HookFsError \<Rightarrow> i32" where
  "into_c_int (Sys errno) = errno"
| "into_c_int (InodeNotFound inode) = EFAULT"
| "into_c_int (FhNotFound fh) = EFAULT"
| "into_c_int UnknownFileType = EINVAL"
| "into_c_int InvalidStr = EINVAL"
| "into_c_int _ = EFAULT"

section \<open>The runtime\<close>

text \<open>
  \<open>spawn_blocking(f).await?\<close>: without a runtime the call hits \<open>unreachable!()\<close>; a panic of the
  closure is caught by the join handle and becomes the error of \<open>from_JoinError\<close>.
\<close>

definition spawn_blocking ::
  "('s \<Rightarrow> bool) \<Rightarrow> ('s, HookFsError, 'a) prog \<Rightarrow> ('s, HookFsError, 'a) prog" where
  "spawn_blocking RUNTIME func = (\<lambda>s.
     if RUNTIME s
     then case func s of
            (Panic, s') \<Rightarrow> (Err from_JoinError, s')
          | (Ok a, s') \<Rightarrow> (Ok a, s')
          | (Err e, s') \<Rightarrow> (Err e, s')
     else (Panic, s))"

lemma keeps_spawn_blocking [keep_intros]: "keeps I f \<Longrightarrow> keeps I (spawn_blocking R f)"
  by (auto simp: keeps_def spawn_blocking_def split: prod.splits outcome.splits)

lemma spawn_blocking_no_panic: "R s \<Longrightarrow> fst (spawn_blocking R f s) \<noteq> Panic"
  by (simp add: spawn_blocking_def split: prod.splits outcome.splits)

text \<open>A result of the \<open>nix\<close> crate, converted by \<open>?\<close>.\<close>

definition of_nix :: "nix_error + 'a \<Rightarrow> (HookFsError, 'a) outcome" where
  "of_nix r = (case r of Inl e \<Rightarrow> Err (from_nix_Error e) | Inr a \<Rightarrow> Ok a)"

lemma of_nix_simps [simp]: "of_nix (Inr a) = Ok a" "of_nix (Inl e) = Err (from_nix_Error e)"
  by (simp_all add: of_nix_def)

end
