(* ===== verification/Tables.thy ===== *)
theory Tables
  imports Std_Path Errors
begin

text \<open>
  The two tables of \<open>src/hookfs/mod.rs\<close>: \<open>InodeMap\<close>, from inode numbers to the paths they were
  found under, and \<open>FhMap\<close>, from file handles to open files or directories. The slab that
  hands out file handles is a library and a parameter.
\<close>

section \<open>Inode map\<close>

record Node =
  ref_count :: u64
  paths :: "path list"

definition Node_default :: Node where
  "Node_default = \<lparr>ref_count = 0, paths = []\<rparr>"

definition Node_get_path :: "Node \<Rightarrow> path option" where
  "Node_get_path n = (if paths n = [] then None else Some (last (paths n)))"

definition Node_insert :: "path \<Rightarrow> Node \<Rightarrow> Node" where
  "Node_insert path n =
     (if list_ex (\<lambda>p. path_eq p path) (paths n) then n else n\<lparr>paths := paths n @ [path]\<rparr>)"

definition Node_remove :: "path \<Rightarrow> Node \<Rightarrow> Node" where
  "Node_remove path n = n\<lparr>paths := filter (\<lambda>x. \<not> path_eq x path) (paths n)\<rparr>"

type_synonym InodeMap = "u64 \<rightharpoonup> Node"

definition InodeMap_get_path :: "InodeMap \<Rightarrow> u64 \<Rightarrow> HookFsError + path" where
  "InodeMap_get_path m inode =
     (case Option.bind (m inode) Node_get_path of
        Some p \<Rightarrow> Inr p
      | None \<Rightarrow> Inl (InodeNotFound inode))"

definition InodeMap_increase_ref :: "u64 \<Rightarrow> InodeMap \<Rightarrow> InodeMap" where
  "InodeMap_increase_ref inode m = (case m inode of
       Some node \<Rightarrow> m(inode \<mapsto> node\<lparr>ref_count := ref_count node + 1\<rparr>)
     | None \<Rightarrow> m)"

definition InodeMap_decrease_ref :: "u64 \<Rightarrow> u64 \<Rightarrow> InodeMap \<Rightarrow> InodeMap" where
  "InodeMap_decrease_ref inode nlookup m = (case m inode of
       Some node \<Rightarrow> if ref_count node \<le> nlookup then m(inode := None) else m
     | None \<Rightarrow> m)"

definition InodeMap_insert_path :: "u64 \<Rightarrow> path \<Rightarrow> InodeMap \<Rightarrow> InodeMap" where
  "InodeMap_insert_path inode path m =
     m(inode \<mapsto> Node_insert path (case m inode of Some n \<Rightarrow> n | None \<Rightarrow> Node_default))"

definition InodeMap_remove_path :: "u64 \<Rightarrow> path \<Rightarrow> InodeMap \<Rightarrow> InodeMap" where
  "InodeMap_remove_path inode path m = (case m inode of
       Some node \<Rightarrow> m(inode \<mapsto> Node_remove path node)
     | None \<Rightarrow> m)"

section \<open>File handle map\<close>

text \<open>
  The \<open>slab\<close> crate: \<open>insert\<close> returns the key it chose, or panics when the storage cannot grow
  (\<open>None\<close>); \<open>remove\<close> panics on a key that holds no value (\<open>None\<close>).
\<close>

record ('s, 'a) slab =
  slab_new :: 's
  slab_get :: "'s \<Rightarrow> u64 \<Rightarrow> 'a option"
  slab_insert :: "'a \<Rightarrow> 's \<Rightarrow> (u64 \<times> 's) option"
  slab_remove :: "u64 \<Rightarrow> 's \<Rightarrow> 's option"

definition FhMap_get :: "('s, 'a) slab \<Rightarrow> 's \<Rightarrow> u64 \<Rightarrow> HookFsError + 'a" where
  "FhMap_get S m key = (case slab_get S m key of Some x \<Rightarrow> Inr x | None \<Rightarrow> Inl (FhNotFound key))"

definition FhMap_get_mut :: "('s, 'a) slab \<Rightarrow> 's \<Rightarrow> u64 \<Rightarrow> HookFsError + 'a" where
  "FhMap_get_mut S m key = (case slab_get S m key of Some x \<Rightarrow> Inr x | None \<Rightarrow> Inl (FhNotFound key))"

text \<open>What the documentation of \<open>slab\<close> promises.\<close>

definition slab_ok :: "('s, 'a) slab \<Rightarrow> bool" where
  "slab_ok S \<longleftrightarrow>
     (\<forall>k. slab_get S (slab_new S) k = None) \<and>
     (\<forall>x s k s'. slab_insert S x s = Some (k, s') \<longrightarrow>
        slab_get S s k = None \<and> slab_get S s' = (slab_get S s)(k \<mapsto> x)) \<and>
     (\<forall>k s s'. slab_remove S k s = Some s' \<longrightarrow>
        slab_get S s k \<noteq> None \<and> slab_get S s' = (slab_get S s)(k := None)) \<and>
     (\<forall>k s. slab_remove S k s = None \<longrightarrow> slab_get S s k = None)"

lemma slab_ok_new: "slab_ok S \<Longrightarrow> slab_get S (slab_new S) k = None"
  by (simp add: slab_ok_def)

lemma slab_ok_insert:
  "slab_ok S \<Longrightarrow> slab_insert S x s = Some (k, s') \<Longrightarrow>
   slab_get S s k = None \<and> slab_get S s' = (slab_get S s)(k \<mapsto> x)"
  by (simp add: slab_ok_def)

lemma slab_ok_remove:
  "slab_ok S \<Longrightarrow> slab_remove S k s = Some s' \<Longrightarrow>
   slab_get S s k \<noteq> None \<and> slab_get S s' = (slab_get S s)(k := None)"
  by (simp add: slab_ok_def)

lemma slab_ok_remove_iff: "slab_ok S \<Longrightarrow> slab_remove S k s = None \<longleftrightarrow> slab_get S s k = None"
  unfolding slab_ok_def by (metis not_None_eq)

text \<open>A slab on a list: removed slots stay empty.\<close>

definition list_slab :: "('a option list, 'a) slab" where
  "list_slab =
     \<lparr>slab_new = [],
      slab_get = (\<lambda>s k. if unat k < length s then s ! unat k else None),
      slab_insert = (\<lambda>x s. if length s < 2 ^ 64 then Some (word_of_nat (length s), s @ [Some x]) else None),
      slab_remove = (\<lambda>k s. if unat k < length s \<and> s ! unat k \<noteq> None then Some (s[unat k := None]) else None)\<rparr>"

lemma list_slab_ok: "slab_ok list_slab"
proof -
  have u: "unat (word_of_nat n :: u64) = n" if "n < 2 ^ 64" for n
    using that by (simp add: unat_of_nat)
  have "slab_get list_slab s k = None \<and> slab_get list_slab s' = (slab_get list_slab s)(k \<mapsto> x)"
    if "slab_insert list_slab x s = Some (k, s')" for x :: 'a and s k s'
  proof -
    from that have k: "unat k = length s" and s': "s' = s @ [Some x]"
      by (auto simp: list_slab_def u split: if_splits)
    have "slab_get list_slab s' j = ((slab_get list_slab s)(k \<mapsto> x)) j" for j
      using k s' by (cases "j = k") (auto simp: list_slab_def nth_append less_Suc_eq word_unat_eq_iff)
    with k show ?thesis by (auto simp: list_slab_def)
  qed
  moreover have "slab_get list_slab s k \<noteq> None \<and> slab_get list_slab s' = (slab_get list_slab s)(k := None)"
    if "slab_remove list_slab k s = Some s'" for k and s :: "'a option list" and s'
    using that by (auto simp: list_slab_def fun_eq_iff nth_list_update word_unat_eq_iff split: if_splits)
  ultimately show ?thesis
    by (simp add: slab_ok_def) (auto simp: list_slab_def)
qed

section \<open>The inode map as a relation between inodes and paths\<close>

text \<open>
  What the file system relies on of the table: the pairs of an inode and a path (up to the
  equality of paths) that are recorded, and how each operation changes them.
\<close>

locale path_table =
  fixes get :: "'m \<Rightarrow> u64 \<Rightarrow> HookFsError + path"
    and ins :: "u64 \<Rightarrow> path \<Rightarrow> 'm \<Rightarrow> 'm"
    and rem :: "u64 \<Rightarrow> path \<Rightarrow> 'm \<Rightarrow> 'm"
    and inc :: "u64 \<Rightarrow> 'm \<Rightarrow> 'm"
    and dec :: "u64 \<Rightarrow> u64 \<Rightarrow> 'm \<Rightarrow> 'm"
    and known :: "'m \<Rightarrow> u64 \<Rightarrow> path \<Rightarrow> bool"
  assumes known_ins: "known (ins i p m) j q \<longleftrightarrow> known m j q \<or> (j = i \<and> path_eq q p)"
    and known_rem: "known (rem i p m) j q \<longleftrightarrow> known m j q \<and> \<not> (j = i \<and> path_eq q p)"
    and known_inc: "known (inc i m) j q \<longleftrightarrow> known m j q"
    and known_dec: "known (dec i n m) j q \<Longrightarrow> known m j q"
    and get_known: "get m i = Inr p \<Longrightarrow> known m i p"
    and get_unknown: "get m i = Inl e \<Longrightarrow> e = InodeNotFound i \<and> \<not> known m i q"
begin

text \<open>Every recorded path lies in the directory tree of \<open>root\<close>.\<close>

definition rooted :: "path \<Rightarrow> 'm \<Rightarrow> bool" where
  "rooted root m \<longleftrightarrow> (\<forall>i q. known m i q \<longrightarrow> below q root)"

lemma rooted_ins: "rooted root m \<Longrightarrow> below p root \<Longrightarrow> rooted root (ins i p m)"
  by (auto simp: rooted_def known_ins below_path_eq)

lemma rooted_rem: "rooted root m \<Longrightarrow> rooted root (rem i p m)"
  by (auto simp: rooted_def known_rem)

lemma rooted_inc: "rooted root m \<Longrightarrow> rooted root (inc i m)"
  by (simp add: rooted_def known_inc)

lemma rooted_dec: "rooted root m \<Longrightarrow> rooted root (dec i n m)"
  by (auto simp: rooted_def dest: known_dec)

lemma rooted_get: "rooted root m \<Longrightarrow> get m i = Inr p \<Longrightarrow> below p root"
  by (auto simp: rooted_def dest: get_known)

lemma get_after_ins: "\<exists>q. get (ins i p m) i = Inr q"
proof (cases "get (ins i p m) i")
  case (Inl e)
  then have "\<not> known (ins i p m) i p" using get_unknown by blast
  then show ?thesis by (simp add: known_ins path_eq_def)
qed auto

lemma get_only_path:
  assumes "\<And>q. \<not> known m i q"
  shows "\<exists>q. get (ins i p m) i = Inr q \<and> path_eq q p"
proof -
  obtain q where q: "get (ins i p m) i = Inr q" using get_after_ins by blast
  then have "known (ins i p m) i q" by (rule get_known)
  with assms q show ?thesis by (auto simp: known_ins)
qed

lemma get_after_rem:
  assumes "\<And>q. known m i q \<Longrightarrow> path_eq q p"
  shows "get (rem i p m) i = Inl (InodeNotFound i)"
proof (cases "get (rem i p m) i")
  case (Inl e)
  then show ?thesis using get_unknown by blast
next
  case (Inr q)
  then have "known (rem i p m) i q" by (rule get_known)
  with assms show ?thesis by (auto simp: known_rem)
qed

end

definition InodeMap_known :: "InodeMap \<Rightarrow> u64 \<Rightarrow> path \<Rightarrow> bool" where
  "InodeMap_known m i q \<longleftrightarrow> (case m i of None \<Rightarrow> False | Some n \<Rightarrow> list_ex (\<lambda>p. path_eq p q) (paths n))"

lemma path_eq_refl [simp]: "path_eq p p"
  by (simp add: path_eq_def)

lemma path_eq_sym: "path_eq p q \<longleftrightarrow> path_eq q p"
  by (auto simp: path_eq_def)

interpretation inode_map: path_table InodeMap_get_path InodeMap_insert_path InodeMap_remove_path
  InodeMap_increase_ref InodeMap_decrease_ref InodeMap_known
proof
  fix m :: InodeMap and i j :: u64 and p q :: path and n :: u64 and e
  show "InodeMap_known (InodeMap_insert_path i p m) j q \<longleftrightarrow>
      InodeMap_known m j q \<or> (j = i \<and> path_eq q p)"
    by (auto simp: InodeMap_known_def InodeMap_insert_path_def Node_insert_def Node_default_def
        list_ex_iff path_eq_def split: option.splits)
  show "InodeMap_known (InodeMap_remove_path i p m) j q \<longleftrightarrow>
      InodeMap_known m j q \<and> \<not> (j = i \<and> path_eq q p)"
    by (auto simp: InodeMap_known_def InodeMap_remove_path_def Node_remove_def list_ex_iff path_eq_def
        split: option.splits)
  show "InodeMap_known (InodeMap_increase_ref i m) j q \<longleftrightarrow> InodeMap_known m j q"
    by (auto simp: InodeMap_known_def InodeMap_increase_ref_def split: option.splits)
  show "InodeMap_known (InodeMap_decrease_ref i n m) j q \<Longrightarrow> InodeMap_known m j q"
    by (auto simp: InodeMap_known_def InodeMap_decrease_ref_def split: option.splits if_splits)
  show "InodeMap_get_path m i = Inr p \<Longrightarrow> InodeMap_known m i p"
    by (auto simp: InodeMap_get_path_def InodeMap_known_def Node_get_path_def list_ex_iff
        bind_eq_Some_conv split: option.splits if_splits intro!: bexI [of _ p])
  show "InodeMap_get_path m i = Inl e \<Longrightarrow> e = InodeNotFound i \<and> \<not> InodeMap_known m i q"
    by (auto simp: InodeMap_get_path_def InodeMap_known_def Node_get_path_def list_ex_iff
        bind_eq_None_conv split: option.splits if_splits)
qed

text \<open>The path a lookup finds is the last new one recorded.\<close>

lemma get_path_insert_new:
  "\<not> InodeMap_known m i p \<Longrightarrow> InodeMap_get_path (InodeMap_insert_path i p m) i = Inr p"
  by (auto simp: InodeMap_known_def InodeMap_get_path_def InodeMap_insert_path_def Node_insert_def
      Node_get_path_def Node_default_def split: option.splits)

lemma get_path_insert_other:
  "j \<noteq> i \<Longrightarrow> InodeMap_get_path (InodeMap_insert_path i p m) j = InodeMap_get_path m j"
  by (simp add: InodeMap_get_path_def InodeMap_insert_path_def)

lemma get_path_increase_ref [simp]:
  "InodeMap_get_path (InodeMap_increase_ref i m) j = InodeMap_get_path m j"
  by (auto simp: InodeMap_get_path_def InodeMap_increase_ref_def Node_get_path_def split: option.splits)

end
