(* ===== verification/Attributes.thy ===== *)
theory Attributes
  imports Errors "HOL-Library.Signed_Division"
begin

text \<open>
  \<open>src/hookfs/utils.rs\<close>: the attributes of a file as the kernel interface wants them, from the
  \<open>stat\<close> structure of libc, and the conversions of file types and times.
\<close>

unbundle bit_operations_syntax

section \<open>Types of the libraries\<close>

datatype FileType = NamedPipe | CharDevice | BlockDevice | Directory | RegularFile | Symlink | Socket

datatype dir_Type =
  DT_Fifo | DT_CharacterDevice | DT_Directory | DT_BlockDevice | DT_File | DT_Symlink | DT_Socket

record FileAttr =
  fa_ino :: u64
  fa_size :: u64
  fa_blocks :: u64
  fa_atime :: systime
  fa_mtime :: systime
  fa_ctime :: systime
  fa_crtime :: systime
  fa_kind :: FileType
  fa_perm :: u16
  fa_nlink :: u32
  fa_uid :: u32
  fa_gid :: u32
  fa_rdev :: u32
  fa_blksize :: u32
  fa_padding :: u32
  fa_flags :: u32

record libc_stat =
  st_mode :: u32
  st_ino :: u64
  st_size :: i64
  st_blocks :: i64
  st_atime :: i64
  st_atime_nsec :: i64
  st_mtime :: i64
  st_mtime_nsec :: i64
  st_ctime :: i64
  st_ctime_nsec :: i64
  st_nlink :: u64
  st_uid :: u32
  st_gid :: u32
  st_rdev :: u64
  st_blksize :: i64

datatype TimeOrNow = SpecificTime systime | Now

record timespec =
  ts_sec :: i64
  ts_nsec :: i64

definition S_IFMT :: u32 where "S_IFMT = 0xF000"
definition S_IFBLK :: u32 where "S_IFBLK = 0x6000"
definition S_IFCHR :: u32 where "S_IFCHR = 0x2000"
definition S_IFDIR :: u32 where "S_IFDIR = 0x4000"
definition S_IFIFO :: u32 where "S_IFIFO = 0x1000"
definition S_IFLNK :: u32 where "S_IFLNK = 0xA000"
definition S_IFREG :: u32 where "S_IFREG = 0x8000"
definition S_IFSOCK :: u32 where "S_IFSOCK = 0xC000"

lemmas S_IF_defs = S_IFMT_def S_IFBLK_def S_IFCHR_def S_IFDIR_def S_IFIFO_def S_IFLNK_def
  S_IFREG_def S_IFSOCK_def

definition UTIME_NOW :: i64 where "UTIME_NOW = 0x3FFFFFFF"
definition UTIME_OMIT :: i64 where "UTIME_OMIT = 0x3FFFFFFE"

section \<open>Conversions\<close>

fun convert_filetype :: "dir_Type \<Rightarrow> FileType" where
  "convert_filetype DT_Fifo = NamedPipe"
| "convert_filetype DT_CharacterDevice = CharDevice"
| "convert_filetype DT_Directory = Directory"
| "convert_filetype DT_BlockDevice = BlockDevice"
| "convert_filetype DT_File = RegularFile"
| "convert_filetype DT_Symlink = Symlink"
| "convert_filetype DT_Socket = Socket"

text \<open>\<open>system_time\<close>; \<open>None\<close> where one of the additions overflows and panics.\<close>

definition system_time :: "i64 \<Rightarrow> i64 \<Rightarrow> systime option" where
  "system_time sec nsec =
     (case add_duration UNIX_EPOCH (duration_from_secs sec) of
        None \<Rightarrow> None
      | Some t \<Rightarrow> add_duration t (duration_from_nanos nsec))"

definition stat_kind :: "u32 \<Rightarrow> FileType option" where
  "stat_kind mode =
     (let m = mode AND S_IFMT in
      if m = S_IFBLK then Some BlockDevice
      else if m = S_IFCHR then Some CharDevice
      else if m = S_IFDIR then Some Directory
      else if m = S_IFIFO then Some NamedPipe
      else if m = S_IFLNK then Some Symlink
      else if m = S_IFREG then Some RegularFile
      else if m = S_IFSOCK then Some Socket
      else None)"

definition convert_libc_stat_to_fuse_stat :: "libc_stat \<Rightarrow> (HookFsError, FileAttr) outcome" where
  "convert_libc_stat_to_fuse_stat stat =
     (case stat_kind (st_mode stat) of
        None \<Rightarrow> Err UnknownFileType
      | Some kind \<Rightarrow>
          (case (system_time (st_atime stat) (st_atime_nsec stat),
                 system_time (st_mtime stat) (st_mtime_nsec stat),
                 system_time (st_ctime stat) (st_ctime_nsec stat),
                 system_time 0 0) of
             (Some atime, Some mtime, Some ctime, Some crtime) \<Rightarrow>
               Ok \<lparr>fa_ino = st_ino stat,
                   fa_size = st_size stat,
                   fa_blocks = st_blocks stat,
                   fa_atime = atime,
                   fa_mtime = mtime,
                   fa_ctime = ctime,
                   fa_crtime = crtime,
                   fa_kind = kind,
                   fa_perm = ucast (st_mode stat AND 0xFFF),
                   fa_nlink = ucast (st_nlink stat),
                   fa_uid = st_uid stat,
                   fa_gid = st_gid stat,
                   fa_rdev = ucast (st_rdev stat),
                   fa_blksize = ucast (st_blksize stat),
                   fa_padding = 0,
                   fa_flags = 0\<rparr>
           | _ \<Rightarrow> Panic))"

text \<open>
  \<open>convert_time\<close>; the cast of the 128-bit nanoseconds to \<open>i64\<close> keeps the low 64 bits, and the
  quotient and remainder are the truncating ones of signed integers. A time before the epoch
  makes the \<open>unwrap\<close> panic (\<open>None\<close>).
\<close>

definition convert_time :: "TimeOrNow option \<Rightarrow> timespec option" where
  "convert_time t = (case t of
       Some (SpecificTime t) \<Rightarrow>
         (case nanos_since_epoch t of
            None \<Rightarrow> None
          | Some n \<Rightarrow>
              let nano_unit = 1000000000 :: int; t = (word_of_nat n :: i64) in
              Some \<lparr>ts_sec = word_of_int (sint t sdiv nano_unit),
                    ts_nsec = word_of_int (sint t smod nano_unit)\<rparr>)
     | Some Now \<Rightarrow> Some \<lparr>ts_sec = 0, ts_nsec = UTIME_NOW\<rparr>
     | None \<Rightarrow> Some \<lparr>ts_sec = 0, ts_nsec = UTIME_OMIT\<rparr>)"

section \<open>Facts\<close>

lemma system_time_ok:
  assumes "0 \<le> sint sec" and "0 \<le> sint nsec" and "sint nsec < 1000000000"
  shows "system_time sec nsec = Some (SystemTime (sint sec) (nat (sint nsec)))"
proof -
  have "uint sec = sint sec" "unat nsec = nat (sint nsec)"
    using assms by (simp_all add: unat_eq_nat_uint uint_sint_i64)
  moreover have "sint sec < 2 ^ 63"
    using uint_lt2p [of sec] by (simp add: sint_i64)
  moreover have "nat (sint nsec) < 1000000000" using assms by simp
  ultimately show ?thesis
    using assms
    by (auto simp: system_time_def add_duration_def duration_from_secs_def duration_from_nanos_def
        UNIX_EPOCH_def Let_def)
qed

lemma system_time_negative:
  assumes "sint sec < 0"
  shows "system_time sec nsec = None"
proof -
  have "2 ^ 63 \<le> uint sec"
    using assms by (simp add: sint_i64 split: if_splits)
  then show ?thesis
    by (simp add: system_time_def add_duration_def duration_from_secs_def UNIX_EPOCH_def Let_def)
qed

lemma convert_time_back:
  assumes "0 \<le> sint sec" and "0 \<le> sint nsec" and "sint nsec < 1000000000"
    and "sint sec * 1000000000 + sint nsec < 2 ^ 63"
  shows "convert_time (Some (SpecificTime (SystemTime (sint sec) (nat (sint nsec))))) =
    Some \<lparr>ts_sec = sec, ts_nsec = nsec\<rparr>"
proof -
  define n where "n = nat (sint sec) * 1000000000 + nat (sint nsec)"
  have n: "int n = sint sec * 1000000000 + sint nsec" using assms by (simp add: n_def)
  then have "n < 2 ^ 63" using assms by simp
  then have "uint (word_of_nat n :: i64) = int n"
    by (simp add: unsigned_of_nat take_bit_nat_eq_self_iff flip: of_nat_take_bit)
  then have "sint (word_of_nat n :: i64) = sint sec * 1000000000 + sint nsec"
    using assms n by (simp add: sint_i64)
  moreover have "(sint sec * 1000000000 + sint nsec) sdiv 1000000000 = sint sec"
    "(sint sec * 1000000000 + sint nsec) smod 1000000000 = sint nsec"
    using assms by (simp_all add: signed_divide_int_def signed_modulo_int_def sgn_if)
  ultimately show ?thesis
    using assms by (simp add: convert_time_def nanos_since_epoch_def Let_def flip: n_def)
qed

end
