(* ===== verification/Reply.thy ===== *)
theory Reply
  imports Attributes
begin

text \<open>
  \<open>src/hookfs/reply.rs\<close>: the values the file system operations return, and how a result
  becomes the one answer the kernel gets.
\<close>

section \<open>Reply values\<close>

record Entry =
  entry_stat :: FileAttr
  entry_generation :: u64

record Open =
  open_fh :: u64
  open_flags :: i32

record Attr =
  attr_attr :: FileAttr

record Data =
  data_data :: "u8 list"

record StatFs =
  sf_blocks :: u64
  sf_bfree :: u64
  sf_bavail :: u64
  sf_files :: u64
  sf_ffree :: u64
  sf_bsize :: u32
  sf_namelen :: u32
  sf_frsize :: u32

record Write =
  write_size :: u32

record Create =
  create_attr :: FileAttr
  create_generation :: u64
  create_fh :: u64
  create_flags :: i32

record Lock =
  lock_start :: u64
  lock_end :: u64
  lock_typ :: i32
  lock_pid :: u32

datatype Xattr = Xattr_Data "u8 list" | Xattr_Size u32

datatype Reply =
    Reply_Entry Entry
  | Reply_Open Open
  | Reply_Attr Attr
  | Reply_Data Data
  | Reply_StatFs StatFs
  | Reply_Write Write
  | Reply_Create Create
  | Reply_Lock Lock
  | Reply_Xattr Xattr

section \<open>Answers to the kernel\<close>

definition TTL :: duration where
  "TTL = duration_from_secs 0"

text \<open>
  The calls on the reply objects of the \<open>fuser\<close> crate, one constructor per method. The last one
  is a reply object that is dropped without a call, as a panic does it; \<open>fuser\<close> then answers the
  kernel with \<open>EIO\<close> from the destructor of the reply.
\<close>

datatype answer =
    ans_entry duration FileAttr u64
  | ans_opened u64 u32
  | ans_attr duration FileAttr
  | ans_data "u8 list"
  | ans_statfs u64 u64 u64 u64 u64 u32 u32 u32
  | ans_written u32
  | ans_created duration FileAttr u64 u64 u32
  | ans_locked u64 u64 i32 u32
  | ans_size u32
  | ans_dir "(u64 \<times> i64 \<times> FileType \<times> string) list"
  | ans_ok
  | ans_error i32
  | ans_dropped

fun reply_ok :: "Reply \<Rightarrow> answer" where
  "reply_ok (Reply_Entry item) = ans_entry TTL (entry_stat item) (entry_generation item)"
| "reply_ok (Reply_Open item) = ans_opened (open_fh item) (open_flags item)"
| "reply_ok (Reply_Attr item) = ans_attr TTL (attr_attr item)"
| "reply_ok (Reply_Data item) = ans_data (data_data item)"
| "reply_ok (Reply_StatFs item) =
     ans_statfs (sf_blocks item) (sf_bfree item) (sf_bavail item) (sf_files item) (sf_ffree item)
       (sf_bsize item) (sf_namelen item) (sf_frsize item)"
| "reply_ok (Reply_Write item) = ans_written (write_size item)"
| "reply_ok (Reply_Create item) =
     ans_created TTL (create_attr item) (create_generation item) (create_fh item) (create_flags item)"
| "reply_ok (Reply_Lock item) =
     ans_locked (lock_start item) (lock_end item) (lock_typ item) (lock_pid item)"
| "reply_ok (Reply_Xattr item) =
     (case item of Xattr_Data data \<Rightarrow> ans_data data | Xattr_Size sz \<Rightarrow> ans_size sz)"

definition reply_ok_unit :: "unit \<Rightarrow> answer" where
  "reply_ok_unit _ = ans_ok"

text \<open>
  \<open>FsReply::reply\<close>. A panic of the operation ends the task before the call and drops the reply.
\<close>

definition FsReply_reply :: "('a \<Rightarrow> answer) \<Rightarrow> (HookFsError, 'a) outcome \<Rightarrow> answer option" where
  "FsReply_reply ok result = (case result of
       Ok item \<Rightarrow> Some (ok item)
     | Err err \<Rightarrow> Some (ans_error (into_c_int err))
     | Panic \<Rightarrow> Some ans_dropped)"

end
