(* ===== verification/Injector_Filter.thy ===== *)
theory Injector_Filter
  imports Std_Path Reply
begin

text \<open>
  \<open>src/injector/filter.rs\<close>: the set of methods an injector applies to, the path pattern and
  the probability, and the decision for one request. The libraries the injectors call are a
  parameter of the definitions.
\<close>

section \<open>Library functions\<close>

text \<open>
  What the injectors call outside the repository, over a world \<open>'w\<close> that holds the state of
  the random generator and the clock: \<open>rand\<close> (a sample \<open>m / 2 ^ 53\<close> of \<open>gen::<f64>\<close>,
  \<open>gen_range\<close>, \<open>fill\<close> of a slice), \<open>tokio::time::delay_for\<close>, the patterns of \<open>glob\<close>, and
  \<open>Errno::from_i32\<close> of \<open>nix\<close>.
\<close>

datatype pattern = Pattern string

record match_options =
  case_sensitive :: bool
  require_literal_separator :: bool
  require_literal_leading_dot :: bool

record 'w lib =
  rng_gen_f64 :: "'w \<Rightarrow> nat \<times> 'w"
  rng_gen_range :: "nat \<Rightarrow> nat \<Rightarrow> 'w \<Rightarrow> nat \<times> 'w"
  rng_fill :: "nat \<Rightarrow> 'w \<Rightarrow> u8 list \<times> 'w"
  delay_for :: "duration \<Rightarrow> 'w \<Rightarrow> 'w"
  Pattern_new :: "string \<Rightarrow> pattern option"
  matches_path_with :: "pattern \<Rightarrow> path \<Rightarrow> match_options \<Rightarrow> bool"
  Errno_from_i32 :: "i32 \<Rightarrow> errno"

text \<open>
  What \<open>rand\<close> documents: a sample lies in \<open>[0, 1)\<close>, \<open>gen_range(low, high)\<close> in \<open>[low, high)\<close>,
  and \<open>fill\<close> fills the slice it is given.
\<close>

definition rand_ok :: "'w lib \<Rightarrow> bool" where
  "rand_ok L \<longleftrightarrow>
     (\<forall>w. fst (rng_gen_f64 L w) < 2 ^ 53) \<and>
     (\<forall>lo hi w. lo < hi \<longrightarrow> lo \<le> fst (rng_gen_range L lo hi w) \<and> fst (rng_gen_range L lo hi w) < hi) \<and>
     (\<forall>n w. length (fst (rng_fill L n w)) = n)"

text \<open>\<open>gen_range\<close> panics on an empty range.\<close>

definition gen_range :: "'w lib \<Rightarrow> nat \<Rightarrow> nat \<Rightarrow> ('w, 'e, nat) prog" where
  "gen_range L low high = (if low < high then call (rng_gen_range L low high) else panic)"

section \<open>Methods\<close>

unbundle bit_operations_syntax

type_synonym Method = u32

definition LOOKUP :: Method where "LOOKUP = 1"
definition FORGET :: Method where "FORGET = push_bit 1 1"
definition GETATTR :: Method where "GETATTR = push_bit 2 1"
definition SETATTR :: Method where "SETATTR = push_bit 3 1"
definition READLINK :: Method where "READLINK = push_bit 4 1"
definition MKNOD :: Method where "MKNOD = push_bit 5 1"
definition MKDIR :: Method where "MKDIR = push_bit 6 1"
definition UNLINK :: Method where "UNLINK = push_bit 7 1"
definition RMDIR :: Method where "RMDIR = push_bit 8 1"
definition SYMLINK :: Method where "SYMLINK = push_bit 9 1"
definition RENAME :: Method where "RENAME = push_bit 10 1"
definition LINK :: Method where "LINK = push_bit 11 1"
definition OPEN :: Method where "OPEN = push_bit 12 1"
definition READ :: Method where "READ = push_bit 13 1"
definition WRITE :: Method where "WRITE = push_bit 14 1"
definition FLUSH :: Method where "FLUSH = push_bit 15 1"
definition RELEASE :: Method where "RELEASE = push_bit 16 1"
definition FSYNC :: Method where "FSYNC = push_bit 17 1"
definition OPENDIR :: Method where "OPENDIR = push_bit 18 1"
definition READDIR :: Method where "READDIR = push_bit 19 1"
definition RELEASEDIR :: Method where "RELEASEDIR = push_bit 20 1"
definition FSYNCDIR :: Method where "FSYNCDIR = push_bit 21 1"
definition STATFS :: Method where "STATFS = push_bit 22 1"
definition SETXATTR :: Method where "SETXATTR = push_bit 23 1"
definition GETXATTR :: Method where "GETXATTR = push_bit 24 1"
definition LISTXATTR :: Method where "LISTXATTR = push_bit 25 1"
definition REMOVEXATTR :: Method where "REMOVEXATTR = push_bit 26 1"
definition ACCESS :: Method where "ACCESS = push_bit 27 1"
definition CREATE :: Method where "CREATE = push_bit 28 1"
definition GETLK :: Method where "GETLK = push_bit 29 1"
definition SETLK :: Method where "SETLK = push_bit 30 1"
definition BMAP :: Method where "BMAP = push_bit 31 1"

lemmas Method_defs =
  LOOKUP_def FORGET_def GETATTR_def SETATTR_def READLINK_def MKNOD_def MKDIR_def UNLINK_def
  RMDIR_def SYMLINK_def RENAME_def LINK_def OPEN_def READ_def WRITE_def FLUSH_def
  RELEASE_def FSYNC_def OPENDIR_def READDIR_def RELEASEDIR_def FSYNCDIR_def STATFS_def
  SETXATTR_def GETXATTR_def LISTXATTR_def REMOVEXATTR_def ACCESS_def CREATE_def GETLK_def
  SETLK_def BMAP_def

definition method_names :: "(string \<times> Method) list" where
  "method_names =
    [(''lookup'', LOOKUP),
     (''forget'', FORGET),
     (''getattr'', GETATTR),
     (''setattr'', SETATTR),
     (''readlink'', READLINK),
     (''mknod'', MKNOD),
     (''mkdir'', MKDIR),
     (''unlink'', UNLINK),
     (''rmdir'', RMDIR),
     (''symlink'', SYMLINK),
     (''rename'', RENAME),
     (''link'', LINK),
     (''open'', OPEN),
     (''read'', READ),
     (''write'', WRITE),
     (''flush'', FLUSH),
     (''release'', RELEASE),
     (''fsync'', FSYNC),
     (''opendir'', OPENDIR),
     (''readdir'', READDIR),
     (''releasedir'', RELEASEDIR),
     (''fsyncdir'', FSYNCDIR),
     (''statfs'', STATFS),
     (''setxattr'', SETXATTR),
     (''getxattr'', GETXATTR),
     (''listxattr'', LISTXATTR),
     (''removexattr'', REMOVEXATTR),
     (''access'', ACCESS),
     (''create'', CREATE),
     (''getlk'', GETLK),
     (''setlk'', SETLK),
     (''bmap'', BMAP)]"

definition Method_try_from :: "string \<Rightarrow> Method option" where
  "Method_try_from s = map_of method_names (to_lowercase s)"

definition Method_all :: Method where
  "Method_all = foldr (\<lambda>(_, m) acc. m OR acc) method_names 0"

section \<open>Filters\<close>

record FilterConfig =
  cfg_path :: "string option"
  cfg_methods :: "string list option"
  cfg_percent :: i32

record Filter =
  path_filter :: "pattern option"
  methods :: Method
  probability :: f64

definition build_methods :: "string list option \<Rightarrow> Method" where
  "build_methods ms = (case ms of
       None \<Rightarrow> Method_all
     | Some ms \<Rightarrow>
         if ms = [] then Method_all
         else foldl (OR) 0 (List.map_filter Method_try_from ms))"

definition build_path_filter :: "'w lib \<Rightarrow> string option \<Rightarrow> pattern option" where
  "build_path_filter L path = (case path of
       None \<Rightarrow> None
     | Some p \<Rightarrow> if p \<noteq> [] then Pattern_new L p else None)"

text \<open>\<open>Filter::build\<close>; an error of \<open>anyhow\<close> would be its message, but there is none.\<close>

definition Filter_build :: "'w lib \<Rightarrow> FilterConfig \<Rightarrow> string + Filter" where
  "Filter_build L conf =
     Inr \<lparr>path_filter = build_path_filter L (cfg_path conf),
          methods = build_methods (cfg_methods conf),
          probability = f64_div (f64_of_i32 (cfg_percent conf)) (f64_of_i32 100)\<rparr>"

definition match_path :: "'w lib \<Rightarrow> Filter \<Rightarrow> path \<Rightarrow> bool" where
  "match_path L f path = (case path_filter f of
       Some pat \<Rightarrow>
         matches_path_with L pat path
           \<lparr>case_sensitive = True, require_literal_separator = True,
            require_literal_leading_dot = False\<rparr>
     | None \<Rightarrow> True)"

definition match_method :: "Filter \<Rightarrow> Method \<Rightarrow> bool" where
  "match_method f method \<longleftrightarrow> methods f AND method \<noteq> 0"

definition Filter_filter :: "'w lib \<Rightarrow> Filter \<Rightarrow> Method \<Rightarrow> path \<Rightarrow> ('w, 'e, bool) prog" where
  "Filter_filter L f method path =
     and_then (call (rng_gen_f64 L)) (\<lambda>m.
       return (match_path L f path \<and> match_method f method \<and> f64_of_sample m < probability f))"

section \<open>The method set\<close>

lemma method_names_nth: "map snd method_names = map ((^) 2) [0..<32]"
  by (simp add: method_names_def Method_defs upt_rec)

lemma method_names_bits: "(n, m) \<in> set method_names \<Longrightarrow> \<exists>k < 32. m = 2 ^ k"
proof -
  assume "(n, m) \<in> set method_names"
  then have "m \<in> set (map snd method_names)" by (metis image_eqI list.set_map snd_conv)
  then show ?thesis unfolding method_names_nth by auto
qed

lemma method_names_distinct: "distinct (map fst method_names)"
  by (simp add: method_names_def)

lemma method_names_inj:
  "(n, m) \<in> set method_names \<Longrightarrow> (n', m) \<in> set method_names \<Longrightarrow> n = n'"
proof -
  have "distinct (map snd method_names)"
    unfolding method_names_nth by (simp add: upt_rec)
  then have "inj_on snd (set method_names)" by (simp add: distinct_map)
  moreover assume "(n, m) \<in> set method_names" "(n', m) \<in> set method_names"
  ultimately show ?thesis by (metis inj_onD prod.inject snd_conv)
qed

lemma Method_all_eq: "Method_all = mask 32"
  by (simp add: Method_all_def method_names_def Method_defs mask_eq_exp_minus_1)

lemma single_bit_and: "2 ^ i AND 2 ^ j \<noteq> (0 :: u32) \<longleftrightarrow> i = j"
  if "i < 32" "j < 32"
  using that by (auto simp: bit_eq_iff bit_simps)

lemma foldl_or_and:
  "foldl (OR) a ms AND m \<noteq> (0 :: u32) \<longleftrightarrow> a AND m \<noteq> 0 \<or> (\<exists>x \<in> set ms. x AND m \<noteq> 0)"
proof (induction ms arbitrary: a)
  case (Cons x ms)
  have "(a OR x) AND m \<noteq> 0 \<longleftrightarrow> a AND m \<noteq> 0 \<or> x AND m \<noteq> 0"
    by (auto simp: bit_eq_iff bit_simps)
  with Cons show ?case by auto
qed simp

lemma method_all_and: "(n, m) \<in> set method_names \<Longrightarrow> Method_all AND m \<noteq> 0"
  by (auto simp: Method_all_eq dest!: method_names_bits) (auto simp: bit_eq_iff bit_simps)

lemma try_from_mem: "Method_try_from s = Some m \<longleftrightarrow> (to_lowercase s, m) \<in> set method_names"
  by (simp add: Method_try_from_def map_of_eq_Some_iff [OF method_names_distinct])

lemma build_methods_and:
  assumes "(n, m) \<in> set method_names" and "ms \<noteq> []"
  shows "build_methods (Some ms) AND m \<noteq> 0 \<longleftrightarrow> (\<exists>s \<in> set ms. to_lowercase s = n)"
proof -
  have "x AND m \<noteq> 0 \<longleftrightarrow> to_lowercase s = n" if "Method_try_from s = Some x" for s x
  proof -
    from that have x: "(to_lowercase s, x) \<in> set method_names" by (simp add: try_from_mem)
    from method_names_bits [OF x] method_names_bits [OF assms(1)]
    obtain i j where ij: "i < 32" "x = 2 ^ i" "j < 32" "m = 2 ^ j" by auto
    then have "x AND m \<noteq> 0 \<longleftrightarrow> x = m"
      using single_bit_and [of i j] single_bit_and [of i i] by metis
    also have "x = m \<longleftrightarrow> to_lowercase s = n"
      using x assms(1) method_names_inj method_names_distinct
      by (metis map_of_eq_Some_iff option.inject)
    finally show ?thesis .
  qed
  moreover have "\<exists>x. Method_try_from s = Some x" if "to_lowercase s = n" for s
    using that assms(1) try_from_mem by blast
  ultimately show ?thesis
    using assms(2)
    by (auto simp: build_methods_def foldl_or_and List.map_filter_def)
qed

section \<open>The probability\<close>

lemma f64_of_i32_pos: "0 < sint n \<Longrightarrow> f64_of_i32 n = int (nat (sint n) * f64_unit)"
  by (simp add: f64_of_i32_def)

lemma percent_pos:
  assumes "0 < sint n"
  shows "f64_div (f64_of_i32 n) (f64_of_i32 100) =
    int (round_ratio (nat (sint n) * f64_unit * f64_unit) (100 * f64_unit))"
  using assms by (simp add: f64_div_def f64_of_i32_def f64_unit_def nat_mult_distrib)

lemma percent_nonpos: "sint n \<le> 0 \<Longrightarrow> f64_div (f64_of_i32 n) (f64_of_i32 100) \<le> 0"
  by (simp add: f64_div_def f64_of_i32_def f64_unit_def sgn_if)

lemma round_ratio_ge:
  assumes "0 < b" and "b * (2 ^ k) \<le> a" and "bit_len (a div b) - 53 \<le> k"
  shows "2 ^ k \<le> round_ratio a b"
proof -
  let ?e = "bit_len (a div b) - 53"
  have "b * 2 ^ ?e * 2 ^ (k - ?e) \<le> a"
    using assms by (simp add: mult.assoc flip: power_add)
  then have "2 ^ (k - ?e) \<le> a div (b * 2 ^ ?e)"
    using assms(1) by (simp add: less_eq_div_iff_mult_less_eq mult.commute)
  then have "2 ^ (k - ?e) * 2 ^ ?e \<le> rne_div a (b * 2 ^ ?e) * 2 ^ ?e"
    using rne_div_ge [of a "b * 2 ^ ?e"] by (intro mult_right_mono) auto
  then show ?thesis
    using assms(3) by (simp add: round_ratio_def Let_def flip: power_add)
qed

lemma bit_len_le: "n < 2 ^ k \<Longrightarrow> bit_len n \<le> k"
proof (cases "n = 0")
  case False
  assume "n < 2 ^ k"
  moreover have "2 ^ bit_len n \<le> 2 * n" using False bit_len_bounds by simp
  ultimately have "2 ^ bit_len n < (2 :: nat) ^ Suc k" by simp
  then have "bit_len n < Suc k" by (rule power_less_imp_less_exp [of "2 :: nat", rotated]) simp
  then show ?thesis by simp
qed (simp add: bit_len.simps [of 0])

lemma percent_ge_100:
  assumes "100 \<le> sint (n :: i32)"
  shows "int f64_unit \<le> f64_div (f64_of_i32 n) (f64_of_i32 100)"
proof -
  have lt: "sint n < 2 ^ 31" using uint_lt2p [of n] by (simp add: sint_i32)
  have "2 ^ 59 \<le> round_ratio (nat (sint n) * f64_unit * f64_unit) (100 * f64_unit)"
  proof (rule round_ratio_ge)
    show "100 * f64_unit * 2 ^ 59 \<le> nat (sint n) * f64_unit * f64_unit"
      using assms by (simp add: f64_unit_def)
    have "nat (sint n) * f64_unit * f64_unit div (100 * f64_unit) \<le> nat (sint n) * f64_unit"
      by (simp add: f64_unit_def)
    also have "\<dots> < 2 ^ 90" using lt by (simp add: f64_unit_def)
    finally show "bit_len (nat (sint n) * f64_unit * f64_unit div (100 * f64_unit)) - 53 \<le> 59"
      using bit_len_le by fastforce
  qed (simp add: f64_unit_def)
  with assms show ?thesis by (simp add: percent_pos f64_unit_def)
qed

text \<open>The probability is within half a sample of the exact percentage.\<close>

lemma percent_error:
  assumes "0 < sint (n :: i32)" and "sint n < 100"
  shows "\<bar>100 * f64_div (f64_of_i32 n) (f64_of_i32 100) - sint n * int f64_unit\<bar> \<le> 100 * 2 ^ 5"
proof -
  let ?a = "nat (sint n) * f64_unit * f64_unit" and ?b = "100 * f64_unit"
  let ?e = "bit_len (?a div ?b) - 53"
  have u: "0 < f64_unit" by (simp add: f64_unit_def)
  have "?a div ?b < 2 ^ 59"
    using assms(2) by (intro div_less_iff_less_mult [THEN iffD2]) (auto simp: f64_unit_def)
  then have "?e \<le> 6" using bit_len_le [of "?a div ?b" 59] by simp
  then have e: "(2 :: nat) ^ ?e \<le> 2 ^ 6" by (intro power_increasing) auto
  let ?R = "round_ratio ?a ?b"
  have "f64_unit * (2 * (100 * ?R)) \<le> f64_unit * (2 * (nat (sint n) * f64_unit) + 100 * 2 ^ ?e)"
    using round_ratio_bounds(1) [OF _ refl, of ?b ?a] u by (simp add: algebra_simps)
  then have 1: "2 * (100 * ?R) \<le> 2 * (nat (sint n) * f64_unit) + 100 * 2 ^ ?e" using u by simp
  have "f64_unit * (2 * (nat (sint n) * f64_unit)) \<le> f64_unit * (2 * (100 * ?R) + 100 * 2 ^ ?e)"
    using round_ratio_bounds(2) [OF _ refl, of ?b ?a] u by (simp add: algebra_simps)
  then have 2: "2 * (nat (sint n) * f64_unit) \<le> 2 * (100 * ?R) + 100 * 2 ^ ?e" using u by simp
  have "\<bar>100 * int R - int N\<bar> \<le> 100 * 2 ^ 5"
    if "2 * (100 * R) \<le> 2 * N + 100 * P" "2 * N \<le> 2 * (100 * R) + 100 * P" "P \<le> 2 ^ 6"
    for R N P :: nat
    using that by simp
  from this [OF 1 2 e] have "\<bar>100 * int ?R - int (nat (sint n) * f64_unit)\<bar> \<le> 100 * 2 ^ 5" .
  with assms(1) show ?thesis by (simp add: percent_pos)
qed

end
