(* ===== verification/Injectors.thy ===== *)
theory Injectors
  imports Injector_Filter
begin

text \<open>
  \<open>src/injector/\<close>: the configurations, the four injectors, and the list of injectors the file
  system runs (\<open>MultiInjector\<close>). An injector has four operations: \<open>inject\<close> before an operation,
  \<open>inject_attr\<close> on attributes, \<open>inject_reply\<close> on a reply, \<open>inject_write_data\<close> on data about to
  be written; what an injector does not implement leaves its argument alone.
\<close>

section \<open>Configurations (injector_config.rs)\<close>

record LatencyConfig =
  lc_filter :: FilterConfig
  lc_latency :: duration

record FaultConfig =
  fc_errno :: i32
  fc_weight :: i32

record FaultsConfig =
  fsc_filter :: FilterConfig
  fsc_faults :: "FaultConfig list"

datatype ConfigFileType =
    Cfg_NamedPipe | Cfg_CharDevice | Cfg_BlockDevice | Cfg_Directory | Cfg_RegularFile
  | Cfg_Symlink | Cfg_Socket

record AttrOverrideConfig =
  ac_path :: string
  ac_percent :: i32
  ac_ino :: "u64 option"
  ac_size :: "u64 option"
  ac_blocks :: "u64 option"
  ac_atime :: "systime option"
  ac_mtime :: "systime option"
  ac_ctime :: "systime option"
  ac_kind :: "ConfigFileType option"
  ac_perm :: "u16 option"
  ac_nlink :: "u32 option"
  ac_uid :: "u32 option"
  ac_gid :: "u32 option"
  ac_rdev :: "u32 option"

datatype MistakeType = Zero | Random

record MistakeConfig =
  filling :: MistakeType
  max_length :: u64
  max_occurrences :: u64

record MistakesConfig =
  mc_mistake :: MistakeConfig
  mc_filter :: FilterConfig

datatype InjectorConfig =
    Cfg_Latency LatencyConfig
  | Cfg_Fault FaultsConfig
  | Cfg_AttrOverride AttrOverrideConfig
  | Cfg_Mistake MistakesConfig

section \<open>Latency (latency_injector.rs)\<close>

record LatencyInjector =
  li_latency :: duration
  li_filter :: Filter

definition LatencyInjector_build :: "'w lib \<Rightarrow> LatencyConfig \<Rightarrow> string + LatencyInjector" where
  "LatencyInjector_build L conf = (case Filter_build L (lc_filter conf) of
       Inl e \<Rightarrow> Inl e
     | Inr f \<Rightarrow> Inr \<lparr>li_latency = lc_latency conf, li_filter = f\<rparr>)"

definition LatencyInjector_inject ::
  "'w lib \<Rightarrow> LatencyInjector \<Rightarrow> Method \<Rightarrow> path \<Rightarrow> ('w, HookFsError, unit) prog" where
  "LatencyInjector_inject L self method path =
     and_then (Filter_filter L (li_filter self) method path) (\<lambda>b.
       if b then modify (delay_for L (li_latency self)) else return ())"

section \<open>Faults (fault_injector.rs)\<close>

record FaultInjector =
  fi_filter :: Filter
  fi_errnos :: "(errno \<times> i32) list"
  fi_sum :: i32

definition FaultInjector_build :: "'w lib \<Rightarrow> FaultsConfig \<Rightarrow> string + FaultInjector" where
  "FaultInjector_build L conf =
     (let errnos = map (\<lambda>item. (Errno_from_i32 L (fc_errno item), fc_weight item)) (fsc_faults conf);
          weights = foldl (\<lambda>acc w. acc + snd w) 0 errnos
      in case Filter_build L (fsc_filter conf) of
           Inl e \<Rightarrow> Inl e
         | Inr f \<Rightarrow> Inr \<lparr>fi_filter = f, fi_errnos = errnos, fi_sum = weights\<rparr>)"

fun pick_errno :: "i32 \<Rightarrow> (errno \<times> i32) list \<Rightarrow> (HookFsError, unit) outcome" where
  "pick_errno attempt [] = Ok ()"
| "pick_errno attempt ((err, p) # rest) =
     (let attempt = attempt - p in
      if sint attempt < 0 then Err (Sys err) else pick_errno attempt rest)"

definition fault_attempt :: "i32 \<Rightarrow> nat \<Rightarrow> i32" where
  "fault_attempt weights m = f64_as_i32 (f64_mul (f64_of_sample m) (f64_of_i32 weights))"

definition FaultInjector_inject ::
  "'w lib \<Rightarrow> FaultInjector \<Rightarrow> Method \<Rightarrow> path \<Rightarrow> ('w, HookFsError, unit) prog" where
  "FaultInjector_inject L self method path =
     and_then (Filter_filter L (fi_filter self) method path) (\<lambda>b.
       if b
       then and_then (call (rng_gen_f64 L)) (\<lambda>m.
              of_outcome (pick_errno (fault_attempt (fi_sum self) m) (fi_errnos self)))
       else return ())"

section \<open>Attributes (attr_override_injector.rs)\<close>

record AttrOverrideInjector =
  ai_filter :: Filter
  ai_ino :: "u64 option"
  ai_size :: "u64 option"
  ai_blocks :: "u64 option"
  ai_atime :: "systime option"
  ai_mtime :: "systime option"
  ai_ctime :: "systime option"
  ai_kind :: "FileType option"
  ai_perm :: "u16 option"
  ai_nlink :: "u32 option"
  ai_uid :: "u32 option"
  ai_gid :: "u32 option"
  ai_rdev :: "u32 option"

fun config_kind :: "ConfigFileType \<Rightarrow> FileType" where
  "config_kind Cfg_Directory = Directory"
| "config_kind Cfg_NamedPipe = NamedPipe"
| "config_kind Cfg_RegularFile = RegularFile"
| "config_kind Cfg_Socket = Socket"
| "config_kind Cfg_Symlink = Symlink"
| "config_kind Cfg_CharDevice = CharDevice"
| "config_kind Cfg_BlockDevice = BlockDevice"

definition AttrOverrideInjector_build ::
  "'w lib \<Rightarrow> AttrOverrideConfig \<Rightarrow> string + AttrOverrideInjector" where
  "AttrOverrideInjector_build L conf =
     (case Filter_build L \<lparr>cfg_path = Some (ac_path conf), cfg_methods = None,
                            cfg_percent = ac_percent conf\<rparr> of
        Inl e \<Rightarrow> Inl e
      | Inr f \<Rightarrow>
          Inr \<lparr>ai_filter = f, ai_ino = ac_ino conf, ai_size = ac_size conf,
               ai_blocks = ac_blocks conf, ai_atime = ac_atime conf, ai_mtime = ac_mtime conf,
               ai_ctime = ac_ctime conf, ai_kind = map_option config_kind (ac_kind conf),
               ai_perm = ac_perm conf, ai_nlink = ac_nlink conf, ai_uid = ac_uid conf,
               ai_gid = ac_gid conf, ai_rdev = ac_rdev conf\<rparr>)"

text \<open>\<open>if let Some(v) = new \{ attr.field = v \}\<close>\<close>

definition override :: "'v option \<Rightarrow> (('v \<Rightarrow> 'v) \<Rightarrow> 'a \<Rightarrow> 'a) \<Rightarrow> 'a \<Rightarrow> 'a" where
  "override new upd attr = (case new of Some v \<Rightarrow> upd (\<lambda>_. v) attr | None \<Rightarrow> attr)"

definition override_attr :: "AttrOverrideInjector \<Rightarrow> FileAttr \<Rightarrow> FileAttr" where
  "override_attr self attr =
     (let attr = override (ai_ino self) fa_ino_update attr;
          attr = override (ai_size self) fa_size_update attr;
          attr = override (ai_blocks self) fa_blocks_update attr;
          attr = override (ai_atime self) fa_atime_update attr;
          attr = override (ai_mtime self) fa_mtime_update attr;
          attr = override (ai_ctime self) fa_ctime_update attr;
          attr = override (ai_kind self) fa_kind_update attr;
          attr = override (ai_perm self) fa_perm_update attr;
          attr = override (ai_nlink self) fa_nlink_update attr;
          attr = override (ai_uid self) fa_uid_update attr;
          attr = override (ai_gid self) fa_gid_update attr
      in override (ai_rdev self) fa_rdev_update attr)"

definition AttrOverrideInjector_inject_attr ::
  "'w lib \<Rightarrow> AttrOverrideInjector \<Rightarrow> FileAttr \<Rightarrow> path \<Rightarrow> ('w, HookFsError, FileAttr) prog" where
  "AttrOverrideInjector_inject_attr L self attr path =
     and_then (Filter_filter L (ai_filter self) LOOKUP path) (\<lambda>b.
       return (if b then override_attr self attr else attr))"

section \<open>Mistakes (mistake_injector.rs)\<close>

record MistakeInjector =
  mi_mistake :: MistakeConfig
  mi_filter :: Filter

definition MistakeInjector_build :: "'w lib \<Rightarrow> MistakesConfig \<Rightarrow> string + MistakeInjector" where
  "MistakeInjector_build L conf = (case Filter_build L (mc_filter conf) of
       Inl e \<Rightarrow> Inl e
     | Inr f \<Rightarrow> Inr \<lparr>mi_mistake = mc_mistake conf, mi_filter = f\<rparr>)"

definition zero_range :: "u8 list \<Rightarrow> nat \<Rightarrow> nat \<Rightarrow> u8 list" where
  "zero_range data pos len = foldl (\<lambda>d i. d[i := 0]) data [pos..<pos + len]"

text \<open>One round of the loop of \<open>handle\<close>.\<close>

definition mistake_round :: "'w lib \<Rightarrow> MistakeConfig \<Rightarrow> u8 list \<Rightarrow> ('w, HookFsError, u8 list) prog" where
  "mistake_round L mistake data =
     and_then (gen_range L 0 (max (length data) 1)) (\<lambda>pos.
       let l = min (unat (max_length mistake)) (length data - pos) in
       and_then (if l = 0 then return 0 else gen_range L 1 (l + 1)) (\<lambda>len.
         case filling mistake of
           Zero \<Rightarrow> return (zero_range data pos len)
         | Random \<Rightarrow>
             and_then (call (rng_fill L len)) (\<lambda>bytes.
               return (take pos data @ bytes @ drop (pos + len) data))))"

fun mistake_loop ::
  "'w lib \<Rightarrow> MistakeConfig \<Rightarrow> nat \<Rightarrow> u8 list \<Rightarrow> ('w, HookFsError, u8 list) prog" where
  "mistake_loop L mistake 0 data = return data"
| "mistake_loop L mistake (Suc n) data =
     and_then (mistake_round L mistake data) (mistake_loop L mistake n)"

definition MistakeInjector_handle ::
  "'w lib \<Rightarrow> MistakeInjector \<Rightarrow> u8 list \<Rightarrow> ('w, HookFsError, u8 list) prog" where
  "MistakeInjector_handle L self data =
     (let mo = max_occurrences (mi_mistake self) in
      and_then (if mo = 0 then return 0 else gen_range L 1 (unat (mo + 1))) (\<lambda>occurrence.
        mistake_loop L (mi_mistake self) occurrence data))"

definition MistakeInjector_inject_reply ::
  "'w lib \<Rightarrow> MistakeInjector \<Rightarrow> Method \<Rightarrow> path \<Rightarrow> Reply \<Rightarrow> ('w, HookFsError, Reply) prog" where
  "MistakeInjector_inject_reply L self method path reply =
     and_then (Filter_filter L (mi_filter self) method path) (\<lambda>b.
       if b
       then case reply of
              Reply_Data d \<Rightarrow>
                and_then (MistakeInjector_handle L self (data_data d)) (\<lambda>data.
                  return (Reply_Data (d\<lparr>data_data := data\<rparr>)))
            | _ \<Rightarrow> return reply
       else return reply)"

definition MistakeInjector_inject_write_data ::
  "'w lib \<Rightarrow> MistakeInjector \<Rightarrow> path \<Rightarrow> u8 list \<Rightarrow> ('w, HookFsError, u8 list) prog" where
  "MistakeInjector_inject_write_data L self path data =
     and_then (Filter_filter L (mi_filter self) WRITE path) (\<lambda>b.
       if b then MistakeInjector_handle L self data else return data)"

section \<open>Any injector (mod.rs), all injectors (multi_injector.rs)\<close>

datatype injector =
    Fault FaultInjector
  | Latency LatencyInjector
  | AttrOverride AttrOverrideInjector
  | Mistake MistakeInjector

type_synonym MultiInjector = "injector list"

fun Injector_inject ::
  "'w lib \<Rightarrow> injector \<Rightarrow> Method \<Rightarrow> path \<Rightarrow> ('w, HookFsError, unit) prog" where
  "Injector_inject L (Fault i) method path = FaultInjector_inject L i method path"
| "Injector_inject L (Latency i) method path = LatencyInjector_inject L i method path"
| "Injector_inject L (AttrOverride i) method path = return ()"
| "Injector_inject L (Mistake i) method path = return ()"

fun Injector_inject_reply ::
  "'w lib \<Rightarrow> injector \<Rightarrow> Method \<Rightarrow> path \<Rightarrow> Reply \<Rightarrow> ('w, HookFsError, Reply) prog" where
  "Injector_inject_reply L (Mistake i) method path reply =
     MistakeInjector_inject_reply L i method path reply"
| "Injector_inject_reply L _ method path reply = return reply"

fun Injector_inject_write_data ::
  "'w lib \<Rightarrow> injector \<Rightarrow> path \<Rightarrow> u8 list \<Rightarrow> ('w, HookFsError, u8 list) prog" where
  "Injector_inject_write_data L (Mistake i) path data =
     MistakeInjector_inject_write_data L i path data"
| "Injector_inject_write_data L _ path data = return data"

fun Injector_inject_attr ::
  "'w lib \<Rightarrow> injector \<Rightarrow> FileAttr \<Rightarrow> path \<Rightarrow> ('w, HookFsError, FileAttr) prog" where
  "Injector_inject_attr L (AttrOverride i) attr path = AttrOverrideInjector_inject_attr L i attr path"
| "Injector_inject_attr L _ attr path = return attr"

fun build_injector :: "'w lib \<Rightarrow> InjectorConfig \<Rightarrow> string + injector" where
  "build_injector L (Cfg_Fault c) = map_sum id Fault (FaultInjector_build L c)"
| "build_injector L (Cfg_Latency c) = map_sum id Latency (LatencyInjector_build L c)"
| "build_injector L (Cfg_AttrOverride c) = map_sum id AttrOverride (AttrOverrideInjector_build L c)"
| "build_injector L (Cfg_Mistake c) = map_sum id Mistake (MistakeInjector_build L c)"

fun MultiInjector_build :: "'w lib \<Rightarrow> InjectorConfig list \<Rightarrow> string + MultiInjector" where
  "MultiInjector_build L [] = Inr []"
| "MultiInjector_build L (c # cs) = (case build_injector L c of
       Inl e \<Rightarrow> Inl e
     | Inr i \<Rightarrow> map_sum id ((#) i) (MultiInjector_build L cs))"

fun MultiInjector_inject ::
  "'w lib \<Rightarrow> MultiInjector \<Rightarrow> Method \<Rightarrow> path \<Rightarrow> ('w, HookFsError, unit) prog" where
  "MultiInjector_inject L [] method path = return ()"
| "MultiInjector_inject L (i # is) method path =
     seq (Injector_inject L i method path) (MultiInjector_inject L is method path)"

fun MultiInjector_inject_reply ::
  "'w lib \<Rightarrow> MultiInjector \<Rightarrow> Method \<Rightarrow> path \<Rightarrow> Reply \<Rightarrow> ('w, HookFsError, Reply) prog" where
  "MultiInjector_inject_reply L [] method path reply = return reply"
| "MultiInjector_inject_reply L (i # is) method path reply =
     and_then (Injector_inject_reply L i method path reply)
       (MultiInjector_inject_reply L is method path)"

fun MultiInjector_inject_attr ::
  "'w lib \<Rightarrow> MultiInjector \<Rightarrow> FileAttr \<Rightarrow> path \<Rightarrow> ('w, HookFsError, FileAttr) prog" where
  "MultiInjector_inject_attr L [] attr path = return attr"
| "MultiInjector_inject_attr L (i # is) attr path =
     and_then (Injector_inject_attr L i attr path) (\<lambda>attr.
       MultiInjector_inject_attr L is attr path)"

fun MultiInjector_inject_write_data ::
  "'w lib \<Rightarrow> MultiInjector \<Rightarrow> path \<Rightarrow> u8 list \<Rightarrow> ('w, HookFsError, u8 list) prog" where
  "MultiInjector_inject_write_data L [] path data = return data"
| "MultiInjector_inject_write_data L (i # is) path data =
     and_then (Injector_inject_write_data L i path data) (\<lambda>data.
       MultiInjector_inject_write_data L is path data)"

text \<open>Building never fails: an invalid pattern becomes no pattern, an unknown method no method.\<close>

lemma build_injector_total: "\<exists>i. build_injector L c = Inr i"
  by (cases c) (simp_all add: FaultInjector_build_def LatencyInjector_build_def AttrOverrideInjector_build_def
      MistakeInjector_build_def Filter_build_def Let_def)

lemma MultiInjector_build_total: "\<exists>is. MultiInjector_build L cs = Inr is \<and> length is = length cs"
proof (induction cs)
  case (Cons c cs)
  moreover obtain i where "build_injector L c = Inr i" using build_injector_total by blast
  ultimately show ?case by auto
qed simp

lemma MultiInjector_build_list:
  "MultiInjector_build L cs = Inr is \<Longrightarrow> list_all2 (\<lambda>c i. build_injector L c = Inr i) cs is"
proof (induction cs arbitrary: "is")
  case (Cons c cs)
  then show ?case
    by (cases "build_injector L c"; cases "MultiInjector_build L cs") auto
qed simp

section \<open>The weighted choice\<close>

text \<open>Every error as often as its weight says, in the order of the configuration.\<close>

definition weighted :: "(errno \<times> i32) list \<Rightarrow> errno list" where
  "weighted errnos = concat (map (\<lambda>(e, p). replicate (nat (sint p)) e) errnos)"

lemma weighted_simps [simp]:
  "weighted [] = []"
  "weighted ((e, p) # errnos) = replicate (nat (sint p)) e @ weighted errnos"
  by (simp_all add: weighted_def)

lemma sint_diff_i32:
  "0 \<le> sint (a :: i32) \<Longrightarrow> 0 \<le> sint b \<Longrightarrow> sint (a - b) = sint a - sint b"
proof -
  assume a: "0 \<le> sint a" and b: "0 \<le> sint b"
  have "sint a < 2 ^ 31" "sint b < 2 ^ 31"
    using uint_lt2p [of a] uint_lt2p [of b] by (simp_all add: sint_i32)
  with a b have "signed_take_bit 31 (sint a - sint b) = sint a - sint b"
    by (intro signed_take_bit_int_eq_self) simp_all
  then show ?thesis by (simp add: sint_word_ariths)
qed

text \<open>The loop finds the entry of the weighted list at the attempted position, or runs off
  its end.\<close>

lemma pick_errno_weighted:
  assumes "\<forall>(e, p) \<in> set errnos. 0 \<le> sint p" and "0 \<le> sint attempt"
  shows "pick_errno attempt errnos =
    (if nat (sint attempt) < length (weighted errnos)
     then Err (Sys (weighted errnos ! nat (sint attempt))) else Ok ())"
  using assms
proof (induction attempt errnos rule: pick_errno.induct)
  case (2 attempt err p errnos)
  then have p: "0 \<le> sint p" and d: "sint (attempt - p) = sint attempt - sint p"
    by (auto simp: sint_diff_i32)
  show ?case
  proof (cases "sint attempt < sint p")
    case True
    with 2 p d show ?thesis by (auto simp: nth_append)
  next
    case False
    with 2 p d have "pick_errno (attempt - p) errnos =
      (if nat (sint attempt - sint p) < length (weighted errnos)
       then Err (Sys (weighted errnos ! nat (sint attempt - sint p))) else Ok ())"
      by auto
    moreover have "nat (sint attempt - sint p) = nat (sint attempt) - nat (sint p)"
      using False p by (simp add: nat_diff_distrib)
    ultimately show ?thesis
      using False p d by (auto simp: nth_append Let_def)
  qed
qed simp

lemma sum_weights_fold:
  assumes "\<forall>(e, p) \<in> set errnos. 0 \<le> sint p"
    and "sint acc + int (length (weighted errnos)) < 2 ^ 31" and "0 \<le> sint acc"
  shows "sint (foldl (\<lambda>acc w. acc + snd w) acc errnos) = sint acc + int (length (weighted errnos))"
  using assms
proof (induction errnos arbitrary: acc)
  case (Cons x errnos)
  obtain e p where x: "x = (e, p)" by (cases x)
  from Cons.prems x have p: "0 \<le> sint p" by simp
  have "sint (acc + p) = sint acc + sint p"
  proof -
    have "signed_take_bit 31 (sint acc + sint p) = sint acc + sint p"
      using Cons.prems x p by (intro signed_take_bit_int_eq_self) simp_all
    then show ?thesis by (simp add: sint_word_ariths)
  qed
  with Cons x p show ?case by simp
qed simp

lemma fault_attempt_range:
  assumes "m < 2 ^ 53" and "0 < sint weights"
  shows "0 \<le> sint (fault_attempt weights m)" and "sint (fault_attempt weights m) < sint weights"
proof -
  define s where "s = nat (sint weights)"
  have "sint weights < 2 ^ 31" using uint_lt2p [of weights] by (simp add: sint_i32)
  then have s: "0 < s" "int s = sint weights" and lt: "s < 2 ^ 31"
    using assms(2) by (simp_all add: s_def)
  let ?x = "f64_mul (f64_of_sample m) (f64_of_i32 weights)"
  have x: "?x = (if m = 0 then 0 else int (round_ratio (m * 2 ^ 6 * (s * f64_unit)) f64_unit))"
    using s by (simp add: f64_mul_def f64_of_sample_def f64_of_i32_def f64_unit_def nat_mult_distrib
        flip: s(2))
  have "0 \<le> ?x" by (simp add: x)
  moreover have "?x < int s * int f64_unit"
    using round_product_less [OF assms(1) s(1)] s(1)
    by (auto simp: x f64_unit_def simp flip: of_nat_mult)
  ultimately show "0 \<le> sint (fault_attempt weights m)"
    and "sint (fault_attempt weights m) < sint weights"
    using f64_as_i32_range [of ?x s] lt s(2) by (simp_all add: fault_attempt_def)
qed

text \<open>Weights that make sense: none is negative, and their sum is positive and fits.\<close>

definition weights_ok :: "FaultConfig list \<Rightarrow> bool" where
  "weights_ok faults \<longleftrightarrow>
     (\<forall>f \<in> set faults. 0 \<le> sint (fc_weight f)) \<and>
     0 < (\<Sum>f\<leftarrow>faults. sint (fc_weight f)) \<and> (\<Sum>f\<leftarrow>faults. sint (fc_weight f)) < 2 ^ 31"

lemma length_weighted:
  assumes "\<forall>f \<in> set faults. 0 \<le> sint (fc_weight f)"
  shows "int (length (weighted (map (\<lambda>f. (g f, fc_weight f)) faults))) = (\<Sum>f\<leftarrow>faults. sint (fc_weight f))"
  using assms by (induction faults) simp_all

lemma set_weighted:
  "set (weighted (map (\<lambda>f. (g f, fc_weight f)) faults)) = {g f |f. f \<in> set faults \<and> 0 < sint (fc_weight f)}"
  by (induction faults) (auto simp: set_replicate_conv_if)

text \<open>A built fault injector that draws always draws an error of its configuration.\<close>

lemma fault_total:
  assumes "FaultInjector_build L conf = Inr i" and "weights_ok (fsc_faults conf)"
  shows "int (length (weighted (map (\<lambda>f. (Errno_from_i32 L (fc_errno f), fc_weight f)) (fsc_faults conf)))) =
    sint (fi_sum i)"
proof -
  have es: "fi_errnos i = map (\<lambda>f. (Errno_from_i32 L (fc_errno f), fc_weight f)) (fsc_faults conf)"
    and sum: "fi_sum i = foldl (\<lambda>acc w. acc + snd w) 0 (fi_errnos i)"
    using assms(1) by (auto simp: FaultInjector_build_def Let_def split: sum.splits)
  have nn: "\<forall>(e, p) \<in> set (fi_errnos i). 0 \<le> sint p"
    using assms(2) by (auto simp: es weights_ok_def)
  have "int (length (weighted (fi_errnos i))) = (\<Sum>f\<leftarrow>fsc_faults conf. sint (fc_weight f))"
    unfolding es using assms(2) by (intro length_weighted) (simp add: weights_ok_def)
  then show ?thesis
    using sum_weights_fold [OF nn, of 0] assms(2) by (simp add: sum weights_ok_def flip: es)
qed

lemma fault_drawn:
  assumes "FaultInjector_build L conf = Inr i" and "weights_ok (fsc_faults conf)" and "m < 2 ^ 53"
  defines "errnos \<equiv> weighted (map (\<lambda>f. (Errno_from_i32 L (fc_errno f), fc_weight f)) (fsc_faults conf))"
    and "attempt \<equiv> fault_attempt (fi_sum i) m"
  shows "nat (sint attempt) < length errnos" and "pick_errno attempt (fi_errnos i) = Err (Sys (errnos ! nat (sint attempt)))"
proof -
  have es: "fi_errnos i = map (\<lambda>f. (Errno_from_i32 L (fc_errno f), fc_weight f)) (fsc_faults conf)"
    using assms(1) by (auto simp: FaultInjector_build_def Let_def split: sum.splits)
  have nn: "\<forall>(e, p) \<in> set (fi_errnos i). 0 \<le> sint p"
    using assms(2) by (auto simp: es weights_ok_def)
  have eq: "weighted (fi_errnos i) = errnos" by (simp add: es errnos_def)
  have len: "sint (fi_sum i) = int (length errnos)"
    using fault_total [OF assms(1,2)] by (simp add: errnos_def)
  moreover have "0 < sint (fi_sum i)"
    using len length_weighted [of "fsc_faults conf"] assms(2) by (simp add: errnos_def weights_ok_def)
  ultimately have r: "0 \<le> sint attempt" "nat (sint attempt) < length errnos"
    using fault_attempt_range [OF assms(3), of "fi_sum i"] by (auto simp: attempt_def)
  from pick_errno_weighted [OF nn r(1)] r(2)
  show "nat (sint attempt) < length errnos" and "pick_errno attempt (fi_errnos i) = Err (Sys (errnos ! nat (sint attempt)))"
    by (simp_all add: eq)
qed

lemma fault_draw:
  assumes "FaultInjector_build L conf = Inr i" and "weights_ok (fsc_faults conf)" and "m < 2 ^ 53"
  shows "\<exists>e. pick_errno (fault_attempt (fi_sum i) m) (fi_errnos i) = Err (Sys e) \<and>
    e \<in> {Errno_from_i32 L (fc_errno f) |f. f \<in> set (fsc_faults conf) \<and> 0 < sint (fc_weight f)}"
  using fault_drawn [OF assms] nth_mem [OF fault_drawn(1) [OF assms]] unfolding set_weighted by auto

section \<open>The damage of a mistake\<close>

text \<open>The number of positions at which two byte strings differ.\<close>

fun hamming :: "'a list \<Rightarrow> 'a list \<Rightarrow> nat" where
  "hamming (x # xs) (y # ys) = (if x = y then 0 else 1) + hamming xs ys"
| "hamming _ _ = 0"

lemma hamming_self [simp]: "hamming xs xs = 0"
  by (induction xs) auto

lemma hamming_le_length: "hamming xs ys \<le> length ys"
  by (induction xs ys rule: hamming.induct) auto

lemma hamming_append:
  "length xs = length xs' \<Longrightarrow> hamming (xs @ ys) (xs' @ ys') = hamming xs xs' + hamming ys ys'"
  by (induction xs xs' rule: list_induct2) auto

lemma hamming_triangle:
  "length xs = length ys \<Longrightarrow> length ys = length zs \<Longrightarrow> hamming xs zs \<le> hamming xs ys + hamming ys zs"
  by (induction xs ys zs rule: list_induct3) auto

text \<open>\<open>splice\<close> is what a round does: some bytes in place of as many of the data.\<close>

definition splice_at :: "'a list \<Rightarrow> nat \<Rightarrow> 'a list \<Rightarrow> 'a list" where
  "splice_at data pos bytes = take pos data @ bytes @ drop (pos + length bytes) data"

lemma length_splice_at: "pos + length bytes \<le> length data \<Longrightarrow> length (splice_at data pos bytes) = length data"
  by (simp add: splice_at_def)

lemma hamming_splice_at:
  assumes "pos + length bytes \<le> length data"
  shows "hamming data (splice_at data pos bytes) \<le> length bytes"
proof -
  have "data = take pos data @ take (length bytes) (drop pos data) @ drop (pos + length bytes) data"
    by (metis append_take_drop_id add.commute drop_drop)
  then have "hamming data (splice_at data pos bytes) =
      hamming (take pos data @ take (length bytes) (drop pos data) @ drop (pos + length bytes) data)
        (splice_at data pos bytes)"
    by simp
  also have "\<dots> = hamming (take (length bytes) (drop pos data)) bytes"
    using assms by (simp add: splice_at_def hamming_append)
  also have "\<dots> \<le> length bytes" by (rule hamming_le_length)
  finally show ?thesis .
qed

lemma splice_at_nth:
  assumes "pos + length bytes \<le> length data" and "i < length data"
  shows "splice_at data pos bytes ! i =
    (if pos \<le> i \<and> i < pos + length bytes then bytes ! (i - pos) else data ! i)"
  using assms by (auto simp: splice_at_def nth_append min_def)

lemma zero_range_splice:
  "pos + len \<le> length data \<Longrightarrow> zero_range data pos len = splice_at data pos (replicate len 0)"
proof (induction len)
  case (Suc len)
  then have "zero_range data pos (Suc len) = (splice_at data pos (replicate len 0))[pos + len := 0]"
    by (simp add: zero_range_def)
  also have "\<dots> = splice_at data pos (replicate (Suc len) 0)"
    using Suc.prems
    by (intro nth_equalityI) (auto simp: length_splice_at splice_at_nth nth_list_update less_Suc_eq
        simp del: replicate_Suc, subst nth_replicate, auto)
  finally show ?case .
qed (simp add: zero_range_def splice_at_def)

lemma yields_gen_range:
  "rand_ok L \<Longrightarrow> lo < hi \<Longrightarrow> yields (gen_range L lo hi) (\<lambda>n. lo \<le> n \<and> n < hi)"
  by (auto simp: gen_range_def rand_ok_def intro!: yields_call)

text \<open>One round replaces at most \<open>max_length\<close> bytes at one place, by zeros for \<open>Zero\<close>.\<close>

definition mistake_step :: "MistakeConfig \<Rightarrow> u8 list \<Rightarrow> u8 list \<Rightarrow> bool" where
  "mistake_step c data data' \<longleftrightarrow>
     (\<exists>pos bytes. pos + length bytes \<le> length data \<and> length bytes \<le> unat (max_length c) \<and>
        (filling c = Zero \<longrightarrow> bytes = replicate (length bytes) 0) \<and> data' = splice_at data pos bytes)"

lemma mistake_round_step:
  assumes L: "rand_ok L"
  shows "yields (mistake_round L c data) (mistake_step c data)"
  unfolding mistake_round_def
proof (rule yields_and_then [where Q = "\<lambda>pos. pos < max (length data) 1"])
  show "yields (gen_range L 0 (max (length data) 1)) (\<lambda>pos. pos < max (length data) 1)"
    by (rule yields_mono [OF yields_gen_range [OF L]]) auto
  fix pos assume pos: "pos < max (length data) 1"
  define l where "l = min (unat (max_length c)) (length data - pos)"
  have "yields (if l = 0 then return 0 else gen_range L 1 (l + 1)) (\<lambda>len. len \<le> l)"
    by (auto intro!: yields_return yields_mono [OF yields_gen_range [OF L]])
  moreover have "yields (case filling c of
        Zero \<Rightarrow> return (zero_range data pos len)
      | Random \<Rightarrow> and_then (call (rng_fill L len)) (\<lambda>bytes.
          return (take pos data @ bytes @ drop (pos + len) data))) (mistake_step c data)"
    if "len \<le> l" for len
  proof (cases "filling c")
    case Zero
    with that pos show ?thesis
      by (auto simp: l_def mistake_step_def zero_range_splice
          intro!: yields_return exI [of _ pos] exI [of _ "replicate len 0"])
  next
    case Random
    have "yields (call (rng_fill L len)) (\<lambda>bytes. length bytes = len)"
      using L by (intro yields_call) (simp add: rand_ok_def)
    moreover have "mistake_step c data (take pos data @ bytes @ drop (pos + len) data)"
      if "length bytes = len" for bytes
      using that \<open>len \<le> l\<close> pos Random
      by (auto simp: l_def mistake_step_def splice_at_def intro!: exI [of _ pos] exI [of _ bytes])
    ultimately show ?thesis
      using Random by (auto intro: yields_and_then yields_return)
  qed
  ultimately show "yields (let l = min (unat (max_length c)) (length data - pos) in
      and_then (if l = 0 then return 0 else gen_range L 1 (l + 1)) (\<lambda>len.
        case filling c of
          Zero \<Rightarrow> return (zero_range data pos len)
        | Random \<Rightarrow> and_then (call (rng_fill L len)) (\<lambda>bytes.
            return (take pos data @ bytes @ drop (pos + len) data)))) (mistake_step c data)"
    unfolding Let_def l_def [symmetric] by (rule yields_and_then)
qed

text \<open>After \<open>n\<close> rounds.\<close>

definition damaged :: "MistakeConfig \<Rightarrow> nat \<Rightarrow> u8 list \<Rightarrow> u8 list \<Rightarrow> bool" where
  "damaged c n data data' \<longleftrightarrow>
     length data' = length data \<and> hamming data data' \<le> n * unat (max_length c) \<and>
     (filling c = Zero \<longrightarrow> (\<forall>i < length data. data' ! i = data ! i \<or> data' ! i = 0))"

lemma mistake_step_damaged:
  assumes "mistake_step c data data'" and "damaged c n data' data''"
  shows "damaged c (Suc n) data data''"
proof -
  from assms(1) obtain pos bytes where s: "pos + length bytes \<le> length data"
    "length bytes \<le> unat (max_length c)" "filling c = Zero \<Longrightarrow> bytes = replicate (length bytes) 0"
    "data' = splice_at data pos bytes"
    by (auto simp: mistake_step_def)
  have len: "length data' = length data" using s by (simp add: length_splice_at)
  have "hamming data data' \<le> unat (max_length c)"
    using hamming_splice_at [OF s(1)] s(2,4) by simp
  moreover have "hamming data data'' \<le> hamming data data' + hamming data' data''"
    using len assms(2) by (intro hamming_triangle) (simp_all add: damaged_def)
  moreover have "data'' ! i = data ! i \<or> data'' ! i = 0" if "filling c = Zero" "i < length data" for i
  proof -
    from s(3) [OF that(1)] have "data' ! i = data ! i \<or> data' ! i = 0"
      using splice_at_nth [OF s(1) that(2)] s(4) by (metis add.commute less_diff_conv2 nth_replicate)
    with that assms(2) len show ?thesis by (auto simp: damaged_def)
  qed
  ultimately show ?thesis
    using assms(2) len by (auto simp: damaged_def)
qed

lemma mistake_loop_damaged:
  "rand_ok L \<Longrightarrow> yields (mistake_loop L c n data) (damaged c n data)"
proof (induction n arbitrary: data)
  case (Suc n)
  have "yields (mistake_loop L c n data') (damaged c (Suc n) data)" if "mistake_step c data data'" for data'
    by (rule yields_mono [OF Suc.IH [OF Suc.prems]]) (rule mistake_step_damaged [OF that])
  then show ?case
    using mistake_round_step [OF Suc.prems] by (auto intro: yields_and_then)
qed (auto simp: damaged_def intro: yields_return)

lemma damaged_mono: "damaged c n data data' \<Longrightarrow> n \<le> m \<Longrightarrow> damaged c m data data'"
  unfolding damaged_def by (meson le_trans mult_le_mono1)

lemma handle_damaged:
  assumes "rand_ok L" and "max_occurrences (mi_mistake i) \<noteq> - 1"
  shows "yields (MistakeInjector_handle L i data)
    (damaged (mi_mistake i) (unat (max_occurrences (mi_mistake i))) data)"
proof -
  let ?mo = "max_occurrences (mi_mistake i)"
  have "1 + ?mo \<noteq> 0" using assms(2) by (simp add: add_eq_0_iff)
  then have "unat (?mo + 1) = unat ?mo + 1" by (simp add: unatSuc add.commute)
  then have "yields (if ?mo = 0 then return 0 else gen_range L 1 (unat (?mo + 1))) (\<lambda>n. n \<le> unat ?mo)"
    using assms(1)
    by (auto intro!: yields_return yields_mono [OF yields_gen_range] simp: unat_gt_0)
  then show ?thesis
    unfolding MistakeInjector_handle_def Let_def
    by (rule yields_and_then)
       (rule yields_mono [OF mistake_loop_damaged [OF assms(1)]], erule damaged_mono)
qed

text \<open>With the largest \<open>usize\<close> as \<open>max_occurrences\<close> the range of the draw is empty.\<close>

lemma handle_panics: "max_occurrences (mi_mistake i) = - 1 \<Longrightarrow> MistakeInjector_handle L i data w = (Panic, w)"
  by (simp add: MistakeInjector_handle_def gen_range_def run_simps)

section \<open>The contract of an injector\<close>

text \<open>An injected reply is the reply itself, except for the bytes of a data reply.\<close>

definition same_shape :: "Reply \<Rightarrow> Reply \<Rightarrow> bool" where
  "same_shape r r' = (case r of
       Reply_Data d \<Rightarrow> (\<exists>d'. r' = Reply_Data d' \<and> length (data_data d') = length (data_data d))
     | _ \<Rightarrow> r' = r)"

lemma same_shape_refl [simp]: "same_shape r r"
  by (simp add: same_shape_def split: Reply.splits)

lemma same_shape_trans: "same_shape r s \<Longrightarrow> same_shape s t \<Longrightarrow> same_shape r t"
  by (auto simp: same_shape_def split: Reply.splits)

text \<open>
  The interface the file system relies on (the trait \<open>Injector\<close>): an injected error is an
  error number, attributes and replies are always produced, a reply keeps its kind and size,
  and data to be written keeps its length.
\<close>

locale Injector =
  fixes L :: "'w lib"
    and inject :: "Method \<Rightarrow> path \<Rightarrow> ('w, HookFsError, unit) prog"
    and inject_reply :: "Method \<Rightarrow> path \<Rightarrow> Reply \<Rightarrow> ('w, HookFsError, Reply) prog"
    and inject_write_data :: "path \<Rightarrow> u8 list \<Rightarrow> ('w, HookFsError, u8 list) prog"
    and inject_attr :: "FileAttr \<Rightarrow> path \<Rightarrow> ('w, HookFsError, FileAttr) prog"
  assumes inject_errors: "only (inject method path) (\<lambda>_. True) (\<lambda>e. \<exists>n. e = Sys n)"
    and reply_shape: "rand_ok L \<Longrightarrow> only (inject_reply method path r) (same_shape r) (\<lambda>_. False)"
    and write_length:
      "rand_ok L \<Longrightarrow> only (inject_write_data path d) (\<lambda>d'. length d' = length d) (\<lambda>_. False)"
    and attr_returns: "yields (inject_attr attr path) (\<lambda>_. True)"
begin

lemma reply_other:
  assumes "rand_ok L" and "fst (inject_reply method path r w) = Ok r'" and "\<forall>d. r \<noteq> Reply_Data d"
  shows "r' = r"
  using onlyD1 [OF reply_shape [OF assms(1)] assms(2)] assms(3)
  by (auto simp: same_shape_def split: Reply.splits)

lemma reply_data:
  assumes "rand_ok L" and "fst (inject_reply method path (Reply_Data d) w) = Ok r'"
  shows "\<exists>d'. r' = Reply_Data d' \<and> length (data_data d') = length (data_data d)"
  using onlyD1 [OF reply_shape [OF assms(1)] assms(2)] by (simp add: same_shape_def)

lemma no_reply_error: "rand_ok L \<Longrightarrow> fst (inject_reply method path r w) \<noteq> Err e"
  using onlyD2 [OF reply_shape] by blast

lemma no_write_error: "rand_ok L \<Longrightarrow> fst (inject_write_data path d w) \<noteq> Err e"
  using onlyD2 [OF write_length] by blast

end

lemma yields_filter: "yields (Filter_filter L f method path) (\<lambda>_. True)"
  unfolding Filter_filter_def
  by (intro yields_and_then [where Q = "\<lambda>_. True"] yields_call yields_return) simp_all

lemma only_filter: "only (Filter_filter L f method path) (\<lambda>_. True) E"
  by (rule yields_only [OF yields_filter])

lemma pick_errno_only: "only (of_outcome (pick_errno a es)) (\<lambda>_. True) (\<lambda>e. \<exists>n. e = Sys n)"
proof (rule only_of_outcome)
  show "\<exists>n. e = Sys n" if "pick_errno a es = Err e" for e
    using that by (induction a es rule: pick_errno.induct) (auto simp: Let_def split: if_splits)
qed simp

lemma handle_length:
  assumes "rand_ok L"
  shows "only (MistakeInjector_handle L i data) (\<lambda>d'. length d' = length data) (\<lambda>_. False)"
proof (cases "max_occurrences (mi_mistake i) = - 1")
  case True
  then show ?thesis by (simp add: only_def handle_panics)
next
  case False
  show ?thesis
    by (rule only_mono [OF yields_only [OF handle_damaged [OF assms False], where E = "\<lambda>_. False"]])
       (simp_all add: damaged_def)
qed

lemma filter_certain:
  assumes "rand_ok L" and "Filter_build L conf = Inr f" and "100 \<le> sint (cfg_percent conf)"
  shows "Filter_filter L f meth path w = (Ok (match_path L f path \<and> match_method f meth), snd (rng_gen_f64 L w))"
proof -
  have "fst (rng_gen_f64 L w) < 2 ^ 53" using assms(1) by (simp add: rand_ok_def)
  then have "f64_of_sample (fst (rng_gen_f64 L w)) < int f64_unit"
    by (simp add: f64_of_sample_def f64_unit_def)
  also have "int f64_unit \<le> probability f"
    using assms(2) percent_ge_100 [OF assms(3)] by (auto simp: Filter_build_def)
  finally show ?thesis by (simp add: Filter_filter_def run_simps)
qed

lemma fault_certain:
  assumes "rand_ok L" and "FaultInjector_build L conf = Inr i" and "weights_ok (fsc_faults conf)"
    and "100 \<le> sint (cfg_percent (fsc_filter conf))"
    and "match_path L (fi_filter i) path" and "match_method (fi_filter i) meth"
  shows "\<exists>e. FaultInjector_inject L i meth path w = (Err (Sys e), snd (rng_gen_f64 L (snd (rng_gen_f64 L w)))) \<and>
    e \<in> {Errno_from_i32 L (fc_errno f) |f. f \<in> set (fsc_faults conf) \<and> 0 < sint (fc_weight f)}"
proof -
  have b: "Filter_build L (fsc_filter conf) = Inr (fi_filter i)"
    using assms(2) by (auto simp: FaultInjector_build_def Let_def split: sum.splits)
  note f = filter_certain [OF assms(1) b assms(4)]
  let ?w = "snd (rng_gen_f64 L w)"
  have "fst (rng_gen_f64 L ?w) < 2 ^ 53" using assms(1) by (simp add: rand_ok_def)
  from fault_draw [OF assms(2,3) this] show ?thesis
    using assms(5,6) by (auto simp: FaultInjector_inject_def run_simps f)
qed

interpretation fault: Injector L "FaultInjector_inject L i" "\<lambda>_ _. return" "\<lambda>_. return"
  "\<lambda>attr _. return attr" for L i
proof
  show "only (FaultInjector_inject L i meth path) (\<lambda>_. True) (\<lambda>e. \<exists>n. e = Sys n)" for meth path
    unfolding FaultInjector_inject_def
    by (intro only_and_then [OF only_filter] only_if only_return pick_errno_only
        only_and_then [OF only_call [of "\<lambda>_. True"]]) simp_all
qed (simp_all add: only_return yields_return)

interpretation latency: Injector L "LatencyInjector_inject L i" "\<lambda>_ _. return" "\<lambda>_. return"
  "\<lambda>attr _. return attr" for L i
proof
  show "only (LatencyInjector_inject L i meth path) (\<lambda>_. True) (\<lambda>e. \<exists>n. e = Sys n)" for meth path
    unfolding LatencyInjector_inject_def
    by (intro only_and_then [OF only_filter] only_intros) simp_all
qed (simp_all add: only_return yields_return)

interpretation attr_override: Injector L "\<lambda>_ _. return ()" "\<lambda>_ _. return" "\<lambda>_. return"
  "AttrOverrideInjector_inject_attr L i" for L i
proof
  show "yields (AttrOverrideInjector_inject_attr L i attr path) (\<lambda>_. True)" for attr path
    unfolding AttrOverrideInjector_inject_attr_def
    by (intro yields_and_then [OF yields_filter] yields_return) simp
qed (simp_all add: only_return)

interpretation mistake: Injector L "\<lambda>_ _. return ()" "MistakeInjector_inject_reply L i"
  "MistakeInjector_inject_write_data L i" "\<lambda>attr _. return attr" for L i
proof
  fix meth path r d assume L: "rand_ok L"
  show "only (MistakeInjector_inject_reply L i meth path r) (same_shape r) (\<lambda>_. False)"
    unfolding MistakeInjector_inject_reply_def
  proof (intro only_and_then [OF only_filter] only_if)
    show "only (case r of
        Reply_Data d \<Rightarrow> and_then (MistakeInjector_handle L i (data_data d)) (\<lambda>data.
          return (Reply_Data (d\<lparr>data_data := data\<rparr>)))
      | _ \<Rightarrow> return r) (same_shape r) (\<lambda>_. False)"
      by (cases r) (auto intro!: only_return only_and_then [OF handle_length [OF L]] simp: same_shape_def)
  qed (simp add: only_return)
  show "only (MistakeInjector_inject_write_data L i path d) (\<lambda>d'. length d' = length d) (\<lambda>_. False)"
    unfolding MistakeInjector_inject_write_data_def
    by (intro only_and_then [OF only_filter] only_if handle_length [OF L] only_return) simp
qed (simp_all add: only_return yields_return)

text \<open>Any injector has the contract, by its kind, and so has any list of them.\<close>

interpretation any: Injector L "Injector_inject L i" "Injector_inject_reply L i"
  "Injector_inject_write_data L i" "Injector_inject_attr L i" for L i
proof (cases i)
  case (Fault x)
  then show "Injector L (Injector_inject L i) (Injector_inject_reply L i)
      (Injector_inject_write_data L i) (Injector_inject_attr L i)"
    using fault.Injector_axioms [of L x] by (simp add: fun_eq_iff Injector_def)
next
  case (Latency x)
  then show "Injector L (Injector_inject L i) (Injector_inject_reply L i)
      (Injector_inject_write_data L i) (Injector_inject_attr L i)"
    using latency.Injector_axioms [of L x] by (simp add: fun_eq_iff Injector_def)
next
  case (AttrOverride x)
  then show "Injector L (Injector_inject L i) (Injector_inject_reply L i)
      (Injector_inject_write_data L i) (Injector_inject_attr L i)"
    using attr_override.Injector_axioms [of L x] by (simp add: fun_eq_iff Injector_def)
next
  case (Mistake x)
  then show "Injector L (Injector_inject L i) (Injector_inject_reply L i)
      (Injector_inject_write_data L i) (Injector_inject_attr L i)"
    using mistake.Injector_axioms [of L x] by (simp add: fun_eq_iff Injector_def)
qed

interpretation multi: Injector L "MultiInjector_inject L is" "MultiInjector_inject_reply L is"
  "MultiInjector_inject_write_data L is" "MultiInjector_inject_attr L is" for L "is"
proof
  show "only (MultiInjector_inject L is meth path) (\<lambda>_. True) (\<lambda>e. \<exists>n. e = Sys n)" for meth path
    by (induction "is") (auto intro: only_return only_seq any.inject_errors)
  show "only (MultiInjector_inject_reply L is meth path r) (same_shape r) (\<lambda>_. False)"
    if "rand_ok L" for meth path r
  proof (induction "is" arbitrary: r)
    case (Cons i "is")
    show ?case
      by (auto intro!: only_and_then [OF any.reply_shape [OF that]] only_mono [OF Cons]
          intro: same_shape_trans)
  qed (simp add: only_return)
  show "only (MultiInjector_inject_write_data L is path d) (\<lambda>d'. length d' = length d) (\<lambda>_. False)"
    if "rand_ok L" for path d
  proof (induction "is" arbitrary: d)
    case (Cons i "is")
    show ?case
      by (auto intro!: only_and_then [OF any.write_length [OF that]] only_mono [OF Cons])
  qed (simp add: only_return)
  show "yields (MultiInjector_inject_attr L is attr path) (\<lambda>_. True)" for attr path
    by (induction "is" arbitrary: attr) (auto intro: yields_return yields_and_then any.attr_returns)
qed

end
