(* ===== verification/Os.thy ===== *)
theory Os
  imports Tables Injectors
begin

text \<open>
  The state a request of the file system works on, the system calls it makes (a parameter,
  over the world), and the \<open>async_*\<close> helpers at the end of \<open>src/hookfs/mod.rs\<close> that run them on
  the blocking threads of the runtime.
\<close>

section \<open>System calls\<close>

text \<open>\<open>errno\<close> is local to a thread: the blocking thread that made the call, or the worker that
  polls the request.\<close>

datatype thread = Blocking | Worker

type_synonym dir_handle = nat

record dirent =
  de_ino :: u64
  de_name :: string
  de_type :: "dir_Type option"

record statfs_t =
  sfs_blocks :: u64
  sfs_blocks_free :: u64
  sfs_blocks_available :: u64
  sfs_files :: u64
  sfs_files_free :: u64
  sfs_block_size :: i64
  sfs_maximum_name_length :: i64

text \<open>Calls through \<open>nix\<close> return its result type. Calls through \<open>libc\<close> return the number the C
  function returns, and the bytes it put into the buffer it was given.\<close>

record 'w fs_calls =
  os_lstat :: "path \<Rightarrow> 'w \<Rightarrow> (nix_error + libc_stat) \<times> 'w"
  os_fchownat :: "path \<Rightarrow> u32 option \<Rightarrow> u32 option \<Rightarrow> 'w \<Rightarrow> (nix_error + unit) \<times> 'w"
  os_fchmodat :: "path \<Rightarrow> u32 \<Rightarrow> 'w \<Rightarrow> (nix_error + unit) \<times> 'w"
  os_truncate :: "path \<Rightarrow> i64 \<Rightarrow> 'w \<Rightarrow> (nix_error + unit) \<times> 'w"
  os_utimensat :: "string \<Rightarrow> timespec \<times> timespec \<Rightarrow> 'w \<Rightarrow> i32 \<times> 'w"
  os_readlink :: "path \<Rightarrow> 'w \<Rightarrow> (nix_error + string) \<times> 'w"
  os_mknod :: "string \<Rightarrow> u32 \<Rightarrow> u64 \<Rightarrow> 'w \<Rightarrow> i32 \<times> 'w"
  os_mkdir :: "path \<Rightarrow> u32 \<Rightarrow> 'w \<Rightarrow> (nix_error + unit) \<times> 'w"
  os_unlink :: "path \<Rightarrow> 'w \<Rightarrow> (nix_error + unit) \<times> 'w"
  os_rmdir :: "string \<Rightarrow> 'w \<Rightarrow> i32 \<times> 'w"
  os_symlinkat :: "path \<Rightarrow> path \<Rightarrow> 'w \<Rightarrow> (nix_error + unit) \<times> 'w"
  os_renameat :: "path \<Rightarrow> path \<Rightarrow> 'w \<Rightarrow> (nix_error + unit) \<times> 'w"
  os_linkat :: "path \<Rightarrow> path \<Rightarrow> 'w \<Rightarrow> (nix_error + unit) \<times> 'w"
  os_access :: "path \<Rightarrow> i32 \<Rightarrow> 'w \<Rightarrow> (nix_error + unit) \<times> 'w"

record 'w io_calls =
  os_open :: "path \<Rightarrow> i32 \<Rightarrow> u32 \<Rightarrow> 'w \<Rightarrow> (nix_error + i32) \<times> 'w"
  os_pread :: "i32 \<Rightarrow> nat \<Rightarrow> i64 \<Rightarrow> 'w \<Rightarrow> (i64 \<times> u8 list) \<times> 'w"
  os_pwrite :: "i32 \<Rightarrow> u8 list \<Rightarrow> i64 \<Rightarrow> 'w \<Rightarrow> i64 \<times> 'w"
  os_fsync :: "i32 \<Rightarrow> 'w \<Rightarrow> (nix_error + unit) \<times> 'w"
  os_close :: "i32 \<Rightarrow> 'w \<Rightarrow> (nix_error + unit) \<times> 'w"
  os_opendir :: "path \<Rightarrow> i32 \<Rightarrow> u32 \<Rightarrow> 'w \<Rightarrow> (nix_error + dir_handle) \<times> 'w"
  os_dir_iter :: "dir_handle \<Rightarrow> 'w \<Rightarrow> (nix_error + dirent) list \<times> 'w"
  os_closedir :: "dir_handle \<Rightarrow> 'w \<Rightarrow> 'w"
  os_open_sync_all :: "path \<Rightarrow> 'w \<Rightarrow> bool \<times> 'w"
  os_statfs :: "path \<Rightarrow> 'w \<Rightarrow> (nix_error + statfs_t) \<times> 'w"
  os_umask :: "u32 \<Rightarrow> 'w \<Rightarrow> 'w"
  os_errno :: "thread \<Rightarrow> 'w \<Rightarrow> errno"

record 'w xattr_calls =
  os_lsetxattr :: "string \<Rightarrow> string \<Rightarrow> u8 list \<Rightarrow> i32 \<Rightarrow> 'w \<Rightarrow> i32 \<times> 'w"
  os_lgetxattr :: "string \<Rightarrow> string \<Rightarrow> nat \<Rightarrow> 'w \<Rightarrow> (i64 \<times> u8 list) \<times> 'w"
  os_llistxattr :: "string \<Rightarrow> nat \<Rightarrow> 'w \<Rightarrow> (i64 \<times> u8 list) \<times> 'w"
  os_lremovexattr :: "string \<Rightarrow> string \<Rightarrow> 'w \<Rightarrow> i32 \<times> 'w"

text \<open>\<open>from_bits_truncate\<close> of the flag types of \<open>nix\<close>.\<close>

record nix_flags =
  OFlag_from_bits_truncate :: "i32 \<Rightarrow> i32"
  Mode_from_bits_truncate :: "u32 \<Rightarrow> u32"
  AccessFlags_from_bits_truncate :: "i32 \<Rightarrow> i32"

section \<open>The state of the file system\<close>

record File =
  file_fd :: i32
  file_original_path :: path

record Dir =
  dir_dir :: dir_handle
  dir_original_path :: path

record ('f, 'd) HookFs =
  mount_path :: path
  original_path :: path
  enable_injection :: bool
  opened_files :: 'f
  opened_dirs :: 'd
  hf_injector :: MultiInjector
  inode_map :: InodeMap

text \<open>A request works on the \<open>HookFs\<close> value, the world, and the \<open>RUNTIME\<close> slot, which is
  empty once the mount loop has ended.\<close>

record ('w, 'f, 'd) st =
  hookfs :: "('f, 'd) HookFs"
  world :: 'w
  RUNTIME :: bool

record ('w, 'f, 'd) env =
  lib :: "'w lib"
  fs :: "'w fs_calls"
  io :: "'w io_calls"
  xattr :: "'w xattr_calls"
  nix :: nix_flags
  files :: "('f, File) slab"
  dirs :: "('d, Dir) slab"

type_synonym ('w, 'f, 'd, 'a) fs_prog = "(('w, 'f, 'd) st, HookFsError, 'a) prog"

definition on_world :: "('w, HookFsError, 'a) prog \<Rightarrow> ('w, 'f, 'd, 'a) fs_prog" where
  "on_world m = zoom world (\<lambda>w s. s\<lparr>world := w\<rparr>) m"

definition nix_call :: "('w \<Rightarrow> (nix_error + 'a) \<times> 'w) \<Rightarrow> ('w, 'f, 'd, 'a) fs_prog" where
  "nix_call f = (\<lambda>s. case f (world s) of (r, w) \<Rightarrow> (of_nix r, s\<lparr>world := w\<rparr>))"

definition libc_call :: "('w \<Rightarrow> 'a \<times> 'w) \<Rightarrow> ('w, 'f, 'd, 'a) fs_prog" where
  "libc_call f = (\<lambda>s. case f (world s) of (a, w) \<Rightarrow> (Ok a, s\<lparr>world := w\<rparr>))"

definition last_error :: "('w, 'f, 'd) env \<Rightarrow> thread \<Rightarrow> ('w, 'f, 'd, 'a) fs_prog" where
  "last_error E t = (\<lambda>s. (Err (HookFsError_last (os_errno (io E) t (world s))), s))"

definition of_result :: "'e + 'a \<Rightarrow> ('s, 'e, 'a) prog" where
  "of_result r = (case r of Inl e \<Rightarrow> raise e | Inr a \<Rightarrow> return a)"

definition cstring :: "string \<Rightarrow> ('w, 'f, 'd, string) fs_prog" where
  "cstring s = (case cstring_new s of None \<Rightarrow> raise from_NulError | Some c \<Rightarrow> return c)"

text \<open>A buffer of zeros after a call has written some bytes to its front.\<close>

definition buffer_after :: "nat \<Rightarrow> u8 list \<Rightarrow> u8 list" where
  "buffer_after sz bytes = take sz bytes @ replicate (sz - length bytes) 0"

section \<open>Blocking helpers\<close>

definition async_setxattr ::
  "('w, 'f, 'd) env \<Rightarrow> string \<Rightarrow> string \<Rightarrow> u8 list \<Rightarrow> i32 \<Rightarrow> ('w, 'f, 'd, unit) fs_prog" where
  "async_setxattr E path name data flags = spawn_blocking RUNTIME
     (if data = [] then panic \<comment> \<open>\<open>&data[0]\<close>\<close>
      else and_then (libc_call (os_lsetxattr (xattr E) path name data flags)) (\<lambda>ret.
             if ret = - 1 then last_error E Blocking else return ()))"

definition async_getxattr ::
  "('w, 'f, 'd) env \<Rightarrow> string \<Rightarrow> string \<Rightarrow> nat \<Rightarrow> ('w, 'f, 'd, u8 list) fs_prog" where
  "async_getxattr E path name sz = spawn_blocking RUNTIME
     (and_then (libc_call (os_lgetxattr (xattr E) path name sz)) (\<lambda>(ret, bytes).
        if ret = - 1 then last_error E Blocking
        else return (resize (buffer_after sz bytes) (unat ret) 0)))"

definition async_read ::
  "('w, 'f, 'd) env \<Rightarrow> i32 \<Rightarrow> nat \<Rightarrow> i64 \<Rightarrow> ('w, 'f, 'd, u8 list) fs_prog" where
  "async_read E fd count offset = spawn_blocking RUNTIME
     (and_then (libc_call (os_pread (io E) fd count offset)) (\<lambda>(ret, bytes).
        if ret = - 1 then last_error E Blocking
        else return (resize (buffer_after count bytes) (unat ret) 0)))"

definition async_write ::
  "('w, 'f, 'd) env \<Rightarrow> i32 \<Rightarrow> u8 list \<Rightarrow> i64 \<Rightarrow> ('w, 'f, 'd, i64) fs_prog" where
  "async_write E fd data offset = spawn_blocking RUNTIME
     (and_then (libc_call (os_pwrite (io E) fd data offset)) (\<lambda>ret.
        if ret = - 1 then last_error E Blocking else return ret))"

definition async_stat :: "('w, 'f, 'd) env \<Rightarrow> path \<Rightarrow> ('w, 'f, 'd, libc_stat) fs_prog" where
  "async_stat E path = spawn_blocking RUNTIME (nix_call (os_lstat (fs E) path))"

definition async_lchown ::
  "('w, 'f, 'd) env \<Rightarrow> path \<Rightarrow> u32 option \<Rightarrow> u32 option \<Rightarrow> ('w, 'f, 'd, unit) fs_prog" where
  "async_lchown E path uid gid = spawn_blocking RUNTIME (nix_call (os_fchownat (fs E) path uid gid))"

definition async_fchmodat :: "('w, 'f, 'd) env \<Rightarrow> path \<Rightarrow> u32 \<Rightarrow> ('w, 'f, 'd, unit) fs_prog" where
  "async_fchmodat E path mode = spawn_blocking RUNTIME
     (nix_call (os_fchmodat (fs E) path (Mode_from_bits_truncate (nix E) mode)))"

definition async_truncate :: "('w, 'f, 'd) env \<Rightarrow> path \<Rightarrow> i64 \<Rightarrow> ('w, 'f, 'd, unit) fs_prog" where
  "async_truncate E path len = spawn_blocking RUNTIME (nix_call (os_truncate (fs E) path len))"

definition async_utimensat ::
  "('w, 'f, 'd) env \<Rightarrow> string \<Rightarrow> timespec \<times> timespec \<Rightarrow> ('w, 'f, 'd, unit) fs_prog" where
  "async_utimensat E path ts = spawn_blocking RUNTIME
     (and_then (libc_call (os_utimensat (fs E) path ts)) (\<lambda>ret.
        if ret \<noteq> 0 then last_error E Blocking else return ()))"

definition async_readlink :: "('w, 'f, 'd) env \<Rightarrow> path \<Rightarrow> ('w, 'f, 'd, string) fs_prog" where
  "async_readlink E path = spawn_blocking RUNTIME (nix_call (os_readlink (fs E) path))"

definition async_mknod ::
  "('w, 'f, 'd) env \<Rightarrow> string \<Rightarrow> u32 \<Rightarrow> u64 \<Rightarrow> ('w, 'f, 'd, unit) fs_prog" where
  "async_mknod E path mode rdev = spawn_blocking RUNTIME
     (and_then (libc_call (os_mknod (fs E) path mode rdev)) (\<lambda>ret.
        if ret \<noteq> 0 then last_error E Blocking else return ()))"

definition async_mkdir :: "('w, 'f, 'd) env \<Rightarrow> path \<Rightarrow> u32 \<Rightarrow> ('w, 'f, 'd, unit) fs_prog" where
  "async_mkdir E path mode = spawn_blocking RUNTIME (nix_call (os_mkdir (fs E) path mode))"

definition async_unlink :: "('w, 'f, 'd) env \<Rightarrow> path \<Rightarrow> ('w, 'f, 'd, unit) fs_prog" where
  "async_unlink E path = spawn_blocking RUNTIME (nix_call (os_unlink (fs E) path))"

definition async_rmdir :: "('w, 'f, 'd) env \<Rightarrow> string \<Rightarrow> ('w, 'f, 'd, unit) fs_prog" where
  "async_rmdir E path = spawn_blocking RUNTIME
     (and_then (libc_call (os_rmdir (fs E) path)) (\<lambda>ret.
        if ret \<noteq> 0 then last_error E Blocking else return ()))"

definition async_open ::
  "('w, 'f, 'd) env \<Rightarrow> path \<Rightarrow> i32 \<Rightarrow> u32 \<Rightarrow> ('w, 'f, 'd, i32) fs_prog" where
  "async_open E path filtered_flags mode = spawn_blocking RUNTIME
     (nix_call (os_open (io E) path filtered_flags mode))"

definition async_close :: "('w, 'f, 'd) env \<Rightarrow> i32 \<Rightarrow> ('w, 'f, 'd, unit) fs_prog" where
  "async_close E fd = spawn_blocking RUNTIME (nix_call (os_close (io E) fd))"

lemmas async_defs = async_setxattr_def async_getxattr_def async_read_def async_write_def
  async_stat_def async_lchown_def async_fchmodat_def async_truncate_def async_utimensat_def
  async_readlink_def async_mknod_def async_mkdir_def async_unlink_def async_rmdir_def
  async_open_def async_close_def

section \<open>What the helpers leave alone\<close>

text \<open>A predicate that looks at the \<open>HookFs\<close> value only is kept by every call.\<close>

lemma keeps_on_world [keep_intros]: "keeps (\<lambda>s. P (hookfs s)) (on_world m)"
  by (simp add: on_world_def keeps_zoom)

lemma keeps_nix_call [keep_intros]: "keeps (\<lambda>s. P (hookfs s)) (nix_call f)"
  by (simp add: keeps_def nix_call_def split: prod.splits)

lemma keeps_libc_call [keep_intros]: "keeps (\<lambda>s. P (hookfs s)) (libc_call f)"
  by (simp add: keeps_def libc_call_def split: prod.splits)

lemma keeps_last_error [keep_intros]: "keeps I (last_error E t)"
  by (simp add: keeps_def last_error_def)

lemma keeps_of_result [keep_intros]: "keeps I (of_result r)"
  by (cases r) (simp_all add: of_result_def keep_intros)

lemma keeps_cstring [keep_intros]: "keeps I (cstring s)"
  by (simp add: cstring_def keep_intros)

lemma keeps_async [keep_intros]:
  "keeps (\<lambda>s. P (hookfs s)) (async_setxattr E p n d fl)"
  "keeps (\<lambda>s. P (hookfs s)) (async_getxattr E p n sz)"
  "keeps (\<lambda>s. P (hookfs s)) (async_read E fd cnt off)"
  "keeps (\<lambda>s. P (hookfs s)) (async_write E fd d off)"
  "keeps (\<lambda>s. P (hookfs s)) (async_stat E p)"
  "keeps (\<lambda>s. P (hookfs s)) (async_lchown E p uid gid)"
  "keeps (\<lambda>s. P (hookfs s)) (async_fchmodat E p mode)"
  "keeps (\<lambda>s. P (hookfs s)) (async_truncate E p len)"
  "keeps (\<lambda>s. P (hookfs s)) (async_utimensat E p ts)"
  "keeps (\<lambda>s. P (hookfs s)) (async_readlink E p)"
  "keeps (\<lambda>s. P (hookfs s)) (async_mknod E p mode rdev)"
  "keeps (\<lambda>s. P (hookfs s)) (async_mkdir E p mode)"
  "keeps (\<lambda>s. P (hookfs s)) (async_unlink E p)"
  "keeps (\<lambda>s. P (hookfs s)) (async_rmdir E p)"
  "keeps (\<lambda>s. P (hookfs s)) (async_open E p fl mode)"
  "keeps (\<lambda>s. P (hookfs s)) (async_close E fd)"
  unfolding async_defs by (auto intro!: keep_intros split: prod.splits)

end
