(* ===== verification/Hook_Fs.thy ===== *)
theory Hook_Fs
  imports Os
begin

text \<open>
  \<open>src/hookfs/mod.rs\<close>: the file system itself. Each request of the kernel is one definition,
  the injection macros are the definitions before them. A request runs to its end before the
  next one starts; arguments the source names with an underscore and never reads are left out.
\<close>

unbundle bit_operations_syntax

section \<open>Construction\<close>

definition HookFs_new ::
  "('w, 'f, 'd) env \<Rightarrow> path \<Rightarrow> path \<Rightarrow> MultiInjector \<Rightarrow> ('f, 'd) HookFs" where
  "HookFs_new E mount original injectors =
     \<lparr>mount_path = mount,
      original_path = original,
      enable_injection = False,
      opened_files = slab_new (files E),
      opened_dirs = slab_new (dirs E),
      hf_injector = injectors,
      inode_map = InodeMap_insert_path 1 original Map.empty\<rparr>"

definition HookFs_enable_injection :: "('f, 'd) HookFs \<Rightarrow> ('f, 'd) HookFs" where
  "HookFs_enable_injection self = self\<lparr>enable_injection := True\<rparr>"

definition HookFs_disable_injection :: "('f, 'd) HookFs \<Rightarrow> ('f, 'd) HookFs" where
  "HookFs_disable_injection self = self\<lparr>enable_injection := False\<rparr>"

definition HookFs_rebuild_path :: "('f, 'd) HookFs \<Rightarrow> path \<Rightarrow> HookFsError + path" where
  "HookFs_rebuild_path self path =
     (case strip_prefix path (original_path self) of
        None \<Rightarrow> Inl StripPrefixError
      | Some path_tail \<Rightarrow> Inr (join (mount_path self) path_tail))"

section \<open>Reading and writing the state\<close>

definition self :: "('w, 'f, 'd, ('f, 'd) HookFs) fs_prog" where
  "self = gets hookfs"

definition get_path :: "u64 \<Rightarrow> ('w, 'f, 'd, path) fs_prog" where
  "get_path ino = and_then self (\<lambda>h. of_result (InodeMap_get_path (inode_map h) ino))"

definition update_inode_map :: "(InodeMap \<Rightarrow> InodeMap) \<Rightarrow> ('w, 'f, 'd, unit) fs_prog" where
  "update_inode_map f = modify (\<lambda>s. s\<lparr>hookfs := (hookfs s)\<lparr>inode_map := f (inode_map (hookfs s))\<rparr>\<rparr>)"

definition get_file :: "('w, 'f, 'd) env \<Rightarrow> u64 \<Rightarrow> ('w, 'f, 'd, File) fs_prog" where
  "get_file E fh = and_then self (\<lambda>h. of_result (FhMap_get (files E) (opened_files h) fh))"

definition get_dir :: "('w, 'f, 'd) env \<Rightarrow> u64 \<Rightarrow> ('w, 'f, 'd, Dir) fs_prog" where
  "get_dir E fh = and_then self (\<lambda>h. of_result (FhMap_get_mut (dirs E) (opened_dirs h) fh))"

definition insert_file :: "('w, 'f, 'd) env \<Rightarrow> File \<Rightarrow> ('w, 'f, 'd, u64) fs_prog" where
  "insert_file E file = (\<lambda>s. case slab_insert (files E) file (opened_files (hookfs s)) of
       None \<Rightarrow> (Panic, s)
     | Some (fh, m) \<Rightarrow> (Ok fh, s\<lparr>hookfs := (hookfs s)\<lparr>opened_files := m\<rparr>\<rparr>))"

definition insert_dir :: "('w, 'f, 'd) env \<Rightarrow> Dir \<Rightarrow> ('w, 'f, 'd, u64) fs_prog" where
  "insert_dir E dir = (\<lambda>s. case slab_insert (dirs E) dir (opened_dirs (hookfs s)) of
       None \<Rightarrow> (Panic, s)
     | Some (fh, m) \<Rightarrow> (Ok fh, s\<lparr>hookfs := (hookfs s)\<lparr>opened_dirs := m\<rparr>\<rparr>))"

definition remove_file :: "('w, 'f, 'd) env \<Rightarrow> u64 \<Rightarrow> ('w, 'f, 'd, unit) fs_prog" where
  "remove_file E fh = (\<lambda>s. case slab_remove (files E) fh (opened_files (hookfs s)) of
       None \<Rightarrow> (Panic, s)
     | Some m \<Rightarrow> (Ok (), s\<lparr>hookfs := (hookfs s)\<lparr>opened_files := m\<rparr>\<rparr>))"

text \<open>The value \<open>remove\<close> returns is dropped, which closes the directory stream.\<close>

definition remove_dir :: "('w, 'f, 'd) env \<Rightarrow> u64 \<Rightarrow> ('w, 'f, 'd, unit) fs_prog" where
  "remove_dir E fh = (\<lambda>s.
     case (slab_get (dirs E) (opened_dirs (hookfs s)) fh, slab_remove (dirs E) fh (opened_dirs (hookfs s))) of
       (Some dir, Some m) \<Rightarrow>
         (Ok (), s\<lparr>hookfs := (hookfs s)\<lparr>opened_dirs := m\<rparr>, world := os_closedir (io E) (dir_dir dir) (world s)\<rparr>)
     | _ \<Rightarrow> (Panic, s))"

section \<open>Injection macros\<close>

definition inject :: "('w, 'f, 'd) env \<Rightarrow> Method \<Rightarrow> path \<Rightarrow> ('w, 'f, 'd, unit) fs_prog" where
  "inject E method path = and_then self (\<lambda>h.
     if enable_injection h then
       and_then (of_result (HookFs_rebuild_path h path)) (\<lambda>p.
         on_world (MultiInjector_inject (lib E) (hf_injector h) method p))
     else return ())"

definition inject_with_ino :: "('w, 'f, 'd) env \<Rightarrow> Method \<Rightarrow> u64 \<Rightarrow> ('w, 'f, 'd, unit) fs_prog" where
  "inject_with_ino E method ino = and_then self (\<lambda>h.
     case InodeMap_get_path (inode_map h) ino of
       Inr path \<Rightarrow> inject E method path
     | Inl _ \<Rightarrow> return ())"

definition inject_with_fh :: "('w, 'f, 'd) env \<Rightarrow> Method \<Rightarrow> u64 \<Rightarrow> ('w, 'f, 'd, unit) fs_prog" where
  "inject_with_fh E method fh = and_then self (\<lambda>h.
     case FhMap_get (files E) (opened_files h) fh of
       Inr file \<Rightarrow> inject E method (file_original_path file)
     | Inl _ \<Rightarrow> return ())"

definition inject_write_data ::
  "('w, 'f, 'd) env \<Rightarrow> u64 \<Rightarrow> u8 list \<Rightarrow> ('w, 'f, 'd, u8 list) fs_prog" where
  "inject_write_data E fh data = and_then self (\<lambda>h.
     case FhMap_get (files E) (opened_files h) fh of
       Inr file \<Rightarrow>
         and_then (of_result (HookFs_rebuild_path h (file_original_path file))) (\<lambda>p.
           on_world (MultiInjector_inject_write_data (lib E) (hf_injector h) p data))
     | Inl _ \<Rightarrow> return data)"

definition inject_with_dir_fh :: "('w, 'f, 'd) env \<Rightarrow> Method \<Rightarrow> u64 \<Rightarrow> ('w, 'f, 'd, unit) fs_prog" where
  "inject_with_dir_fh E method fh = and_then self (\<lambda>h.
     case FhMap_get (dirs E) (opened_dirs h) fh of
       Inr dir \<Rightarrow> inject E method (dir_original_path dir)
     | Inl _ \<Rightarrow> return ())"

definition inject_with_parent_and_name ::
  "('w, 'f, 'd) env \<Rightarrow> Method \<Rightarrow> u64 \<Rightarrow> string \<Rightarrow> ('w, 'f, 'd, unit) fs_prog" where
  "inject_with_parent_and_name E method parent_ino name = and_then self (\<lambda>h.
     case InodeMap_get_path (inode_map h) parent_ino of
       Inr parent_path \<Rightarrow> inject E method (join parent_path name)
     | Inl _ \<Rightarrow> return ())"

definition inject_attr ::
  "('w, 'f, 'd) env \<Rightarrow> FileAttr \<Rightarrow> path \<Rightarrow> ('w, 'f, 'd, FileAttr) fs_prog" where
  "inject_attr E attr path = and_then self (\<lambda>h.
     if enable_injection h then
       and_then (of_result (HookFs_rebuild_path h path)) (\<lambda>p.
         on_world (MultiInjector_inject_attr (lib E) (hf_injector h) attr p))
     else return attr)"

definition inject_reply ::
  "('w, 'f, 'd) env \<Rightarrow> Method \<Rightarrow> path \<Rightarrow> Reply \<Rightarrow> ('w, 'f, 'd, Reply) fs_prog" where
  "inject_reply E method path reply = and_then self (\<lambda>h.
     if enable_injection h then
       and_then (of_result (HookFs_rebuild_path h path)) (\<lambda>p.
         on_world (MultiInjector_inject_reply (lib E) (hf_injector h) method p reply))
     else return reply)"

definition get_file_attr :: "('w, 'f, 'd) env \<Rightarrow> path \<Rightarrow> ('w, 'f, 'd, FileAttr) fs_prog" where
  "get_file_attr E path =
     and_then (async_stat E path) (\<lambda>stat.
     and_then (of_outcome (convert_libc_stat_to_fuse_stat stat)) (\<lambda>attr.
       inject_attr E attr path))"

section \<open>Names, inodes and attributes\<close>

definition HookFs_init :: "('w, 'f, 'd) env \<Rightarrow> ('w, 'f, 'd, unit) fs_prog" where
  "HookFs_init E = modify (\<lambda>s. s\<lparr>world := os_umask (io E) (Mode_from_bits_truncate (nix E) 0) (world s)\<rparr>)"

definition HookFs_destroy :: "('w, 'f, 'd, unit) fs_prog" where
  "HookFs_destroy = return ()"

definition Entry_new :: "FileAttr \<Rightarrow> u64 \<Rightarrow> Reply" where
  "Entry_new stat generation = Reply_Entry \<lparr>entry_stat = stat, entry_generation = generation\<rparr>"

text \<open>The statements that record a path under the inode of its attributes.\<close>

definition record_path :: "u64 \<Rightarrow> path \<Rightarrow> ('w, 'f, 'd, unit) fs_prog" where
  "record_path ino path =
     update_inode_map (\<lambda>m. InodeMap_increase_ref ino (InodeMap_insert_path ino path m))"

definition HookFs_lookup :: "('w, 'f, 'd) env \<Rightarrow> u64 \<Rightarrow> string \<Rightarrow> ('w, 'f, 'd, Reply) fs_prog" where
  "HookFs_lookup E parent_ino name =
     seq (inject_with_parent_and_name E LOOKUP parent_ino name)
     (and_then (get_path parent_ino) (\<lambda>parent_path.
      let path = join parent_path name in
      and_then (get_file_attr E path) (\<lambda>stat.
      seq (record_path (fa_ino stat) path)
          (inject_reply E LOOKUP path (Entry_new stat 0)))))"

definition HookFs_forget :: "u64 \<Rightarrow> u64 \<Rightarrow> ('w, 'f, 'd, unit) fs_prog" where
  "HookFs_forget ino nlookup = update_inode_map (InodeMap_decrease_ref ino nlookup)"

definition HookFs_getattr :: "('w, 'f, 'd) env \<Rightarrow> u64 \<Rightarrow> ('w, 'f, 'd, Reply) fs_prog" where
  "HookFs_getattr E ino =
     seq (inject_with_ino E GETATTR ino)
     (and_then (get_path ino) (\<lambda>path.
      and_then (get_file_attr E path) (\<lambda>stat.
        inject_reply E GETATTR path (Reply_Attr \<lparr>attr_attr = stat\<rparr>))))"

definition if_some :: "'x option \<Rightarrow> ('x \<Rightarrow> ('s, 'e, unit) prog) \<Rightarrow> ('s, 'e, unit) prog" where
  "if_some x f = (case x of None \<Rightarrow> return () | Some v \<Rightarrow> f v)"

definition unwrapped_time :: "TimeOrNow option \<Rightarrow> ('w, 'f, 'd, timespec) fs_prog" where
  "unwrapped_time t = (case convert_time t of None \<Rightarrow> panic | Some ts \<Rightarrow> return ts)"

definition HookFs_setattr ::
  "('w, 'f, 'd) env \<Rightarrow> u64 \<Rightarrow> u32 option \<Rightarrow> u32 option \<Rightarrow> u32 option \<Rightarrow> u64 option \<Rightarrow>
   TimeOrNow option \<Rightarrow> TimeOrNow option \<Rightarrow> ('w, 'f, 'd, Reply) fs_prog" where
  "HookFs_setattr E ino mode uid gid sz atime mtime =
     seq (inject_with_ino E SETATTR ino)
     (and_then (get_path ino) (\<lambda>path.
      seq (async_lchown E path uid gid)
     (seq (if_some mode (async_fchmodat E path))
     (seq (if_some sz (async_truncate E path))
     (and_then (unwrapped_time atime) (\<lambda>at.
      and_then (unwrapped_time mtime) (\<lambda>mt.
      and_then (cstring path) (\<lambda>cpath.
      seq (async_utimensat E cpath (at, mt))
     (and_then (get_file_attr E path) (\<lambda>stat.
        inject_reply E GETATTR path (Reply_Attr \<lparr>attr_attr = stat\<rparr>)))))))))))"

definition HookFs_readlink :: "('w, 'f, 'd) env \<Rightarrow> u64 \<Rightarrow> ('w, 'f, 'd, Reply) fs_prog" where
  "HookFs_readlink E ino =
     seq (inject_with_ino E READLINK ino)
     (and_then (get_path ino) (\<lambda>link_path.
      and_then (async_readlink E link_path) (\<lambda>path.
      and_then (cstring path) (\<lambda>path.
        inject_reply E READLINK link_path (Reply_Data \<lparr>data_data = bytes_of path\<rparr>)))))"

section \<open>Creating and removing names\<close>

text \<open>The end that \<open>mknod\<close>, \<open>mkdir\<close>, \<open>symlink\<close> and \<open>link\<close> share: look at the new file,
  record it and reply.\<close>

definition reply_new_entry ::
  "('w, 'f, 'd) env \<Rightarrow> path \<Rightarrow> ('w, 'f, 'd, Reply) fs_prog" where
  "reply_new_entry E path =
     and_then (get_file_attr E path) (\<lambda>stat.
     seq (record_path (fa_ino stat) path)
         (inject_reply E LOOKUP path (Entry_new stat 0)))"

definition HookFs_mknod ::
  "('w, 'f, 'd) env \<Rightarrow> u64 \<Rightarrow> string \<Rightarrow> u32 \<Rightarrow> u32 \<Rightarrow> u32 \<Rightarrow> u32 \<Rightarrow> ('w, 'f, 'd, Reply) fs_prog" where
  "HookFs_mknod E parent_ino name mode rdev uid gid =
     seq (inject_with_parent_and_name E MKNOD parent_ino name)
     (and_then (get_path parent_ino) (\<lambda>parent_path.
      let path = join parent_path name in
      seq (inject E MKNOD path)
     (and_then (cstring path) (\<lambda>cpath.
      seq (async_mknod E cpath mode (ucast rdev))
     (seq (async_lchown E path (Some uid) (Some gid))
          (reply_new_entry E path))))))"

definition HookFs_mkdir ::
  "('w, 'f, 'd) env \<Rightarrow> u64 \<Rightarrow> string \<Rightarrow> u32 \<Rightarrow> u32 \<Rightarrow> u32 \<Rightarrow> ('w, 'f, 'd, Reply) fs_prog" where
  "HookFs_mkdir E parent_ino name mode uid gid =
     seq (inject_with_parent_and_name E MKDIR parent_ino name)
     (and_then (get_path parent_ino) (\<lambda>parent_path.
      let path = join parent_path name; mode = Mode_from_bits_truncate (nix E) mode in
      seq (async_mkdir E path mode)
     (seq (async_lchown E path (Some uid) (Some gid))
          (reply_new_entry E path))))"

definition HookFs_unlink :: "('w, 'f, 'd) env \<Rightarrow> u64 \<Rightarrow> string \<Rightarrow> ('w, 'f, 'd, unit) fs_prog" where
  "HookFs_unlink E parent_ino name =
     seq (inject_with_parent_and_name E UNLINK parent_ino name)
     (and_then (get_path parent_ino) (\<lambda>parent_path.
      let path = join parent_path name in
      and_then (get_file_attr E path) (\<lambda>stat.
      seq (async_unlink E path)
          (update_inode_map (InodeMap_remove_path (fa_ino stat) path)))))"

definition HookFs_rmdir :: "('w, 'f, 'd) env \<Rightarrow> u64 \<Rightarrow> string \<Rightarrow> ('w, 'f, 'd, unit) fs_prog" where
  "HookFs_rmdir E parent_ino name =
     seq (inject_with_parent_and_name E RMDIR parent_ino name)
     (and_then (get_path parent_ino) (\<lambda>parent_path.
      let path = join parent_path name in
      and_then (get_file_attr E path) (\<lambda>stat.
      and_then (cstring path) (\<lambda>cpath.
      seq (async_rmdir E cpath)
          (update_inode_map (InodeMap_remove_path (fa_ino stat) path))))))"

definition HookFs_symlink ::
  "('w, 'f, 'd) env \<Rightarrow> u64 \<Rightarrow> string \<Rightarrow> path \<Rightarrow> u32 \<Rightarrow> u32 \<Rightarrow> ('w, 'f, 'd, Reply) fs_prog" where
  "HookFs_symlink E parent_ino name link uid gid =
     seq (inject_with_parent_and_name E SYMLINK parent_ino name)
     (and_then (get_path parent_ino) (\<lambda>parent_path.
      let path = join parent_path name in
      seq (spawn_blocking RUNTIME (nix_call (os_symlinkat (fs E) link path)))
     (seq (async_lchown E path (Some uid) (Some gid))
          (reply_new_entry E path))))"

definition HookFs_rename ::
  "('w, 'f, 'd) env \<Rightarrow> u64 \<Rightarrow> string \<Rightarrow> u64 \<Rightarrow> string \<Rightarrow> ('w, 'f, 'd, unit) fs_prog" where
  "HookFs_rename E parent_ino name newparent newname =
     seq (inject_with_parent_and_name E RENAME parent_ino name)
     (and_then (get_path parent_ino) (\<lambda>parent_path.
      let old_path = join parent_path name in
      and_then (get_path newparent) (\<lambda>new_parent_path.
      let new_path = join new_parent_path newname in
      seq (spawn_blocking RUNTIME (nix_call (os_renameat (fs E) old_path new_path)))
     (and_then (get_file_attr E new_path) (\<lambda>stat.
        update_inode_map (\<lambda>m. InodeMap_insert_path (fa_ino stat) new_path
                                 (InodeMap_remove_path (fa_ino stat) old_path m)))))))"

definition HookFs_link ::
  "('w, 'f, 'd) env \<Rightarrow> u64 \<Rightarrow> u64 \<Rightarrow> string \<Rightarrow> ('w, 'f, 'd, Reply) fs_prog" where
  "HookFs_link E ino newparent newname =
     seq (inject_with_ino E LINK ino)
     (and_then (get_path ino) (\<lambda>original.
      and_then (get_path newparent) (\<lambda>new_parent_path.
      let new_path = join new_parent_path newname in
      seq (spawn_blocking RUNTIME (nix_call (os_linkat (fs E) original new_path)))
          (reply_new_entry E new_path))))"

section \<open>Open files\<close>

definition O_APPEND :: i32 where "O_APPEND = 0x400"
definition O_DIRECT :: i32 where "O_DIRECT = 0x4000"
definition S_IRWXU :: u32 where "S_IRWXU = 0x1C0"

definition Open_new :: "u64 \<Rightarrow> i32 \<Rightarrow> Reply" where
  "Open_new fh flags = Reply_Open \<lparr>open_fh = fh, open_flags = flags\<rparr>"

definition HookFs_open :: "('w, 'f, 'd) env \<Rightarrow> u64 \<Rightarrow> i32 \<Rightarrow> ('w, 'f, 'd, Reply) fs_prog" where
  "HookFs_open E ino flags =
     seq (inject_with_ino E OPEN ino)
     (let filtered_flags = OFlag_from_bits_truncate (nix E) (flags AND NOT O_APPEND AND NOT O_DIRECT) in
      and_then (get_path ino) (\<lambda>path.
      and_then (async_open E path filtered_flags S_IRWXU) (\<lambda>fd.
      and_then (insert_file E \<lparr>file_fd = fd, file_original_path = path\<rparr>) (\<lambda>fh.
        inject_reply E OPEN path (Open_new fh 0)))))"

definition HookFs_read ::
  "('w, 'f, 'd) env \<Rightarrow> u64 \<Rightarrow> i64 \<Rightarrow> u32 \<Rightarrow> ('w, 'f, 'd, Reply) fs_prog" where
  "HookFs_read E fh offset sz =
     seq (inject_with_fh E READ fh)
     (and_then (get_file E fh) (\<lambda>file.
      and_then (async_read E (file_fd file) (unat sz) offset) (\<lambda>buf.
        inject_reply E READ (file_original_path file) (Reply_Data \<lparr>data_data = buf\<rparr>))))"

definition HookFs_write ::
  "('w, 'f, 'd) env \<Rightarrow> u64 \<Rightarrow> i64 \<Rightarrow> u8 list \<Rightarrow> ('w, 'f, 'd, Reply) fs_prog" where
  "HookFs_write E fh offset data =
     seq (inject_with_fh E WRITE fh)
     (and_then (inject_write_data E fh data) (\<lambda>data.
      and_then (get_file E fh) (\<lambda>file.
      and_then (async_write E (file_fd file) data offset) (\<lambda>sz.
        inject_reply E WRITE (file_original_path file) (Reply_Write \<lparr>write_size = ucast sz\<rparr>)))))"

definition HookFs_flush :: "('w, 'f, 'd) env \<Rightarrow> u64 \<Rightarrow> ('w, 'f, 'd, unit) fs_prog" where
  "HookFs_flush E fh =
     seq (inject_with_fh E FLUSH fh)
     (and_then (get_file E fh) (\<lambda>file.
        spawn_blocking RUNTIME (nix_call (os_fsync (io E) (file_fd file)))))"

definition HookFs_release :: "('w, 'f, 'd) env \<Rightarrow> u64 \<Rightarrow> ('w, 'f, 'd, unit) fs_prog" where
  "HookFs_release E fh = and_then self (\<lambda>h.
     seq (case FhMap_get (files E) (opened_files h) fh of
            Inr file \<Rightarrow> async_close E (file_fd file)
          | Inl _ \<Rightarrow> return ())
         (remove_file E fh))"

definition HookFs_fsync :: "('w, 'f, 'd) env \<Rightarrow> u64 \<Rightarrow> ('w, 'f, 'd, unit) fs_prog" where
  "HookFs_fsync E fh =
     seq (inject_with_fh E FSYNC fh)
     (and_then (get_file E fh) (\<lambda>file.
        spawn_blocking RUNTIME (nix_call (os_fsync (io E) (file_fd file)))))"

section \<open>Open directories\<close>

definition HookFs_opendir :: "('w, 'f, 'd) env \<Rightarrow> u64 \<Rightarrow> i32 \<Rightarrow> ('w, 'f, 'd, Reply) fs_prog" where
  "HookFs_opendir E ino flags =
     seq (inject_with_ino E OPENDIR ino)
     (and_then (get_path ino) (\<lambda>path.
      let filtered_flags = OFlag_from_bits_truncate (nix E) (flags AND NOT O_APPEND) in
      and_then (spawn_blocking RUNTIME (nix_call (os_opendir (io E) path filtered_flags S_IRWXU))) (\<lambda>dir.
      and_then (insert_dir E \<lparr>dir_dir = dir, dir_original_path = path\<rparr>) (\<lambda>fh.
        inject_reply E OPENDIR path (Open_new fh flags)))))"

text \<open>
  The reply object of \<open>readdir\<close> collects the entries added to it; \<open>full\<close> says whether \<open>add\<close>
  refuses the next entry because the buffer has no room for it.
\<close>

type_synonym dir_item = "u64 \<times> i64 \<times> FileType \<times> string"

fun readdir_loop ::
  "(dir_item list \<Rightarrow> dir_item \<Rightarrow> bool) \<Rightarrow> nat \<Rightarrow> (nix_error + dirent) list \<Rightarrow> dir_item list \<Rightarrow>
   (HookFsError, dir_item list) outcome" where
  "readdir_loop full index [] reply = Ok reply"
| "readdir_loop full index (Inl e # entries) reply = Err (from_nix_Error e)"
| "readdir_loop full index (Inr entry # entries) reply = (case de_type entry of
       None \<Rightarrow> Err UnknownFileType
     | Some t \<Rightarrow>
         let item = (de_ino entry, word_of_nat (index + 1), convert_filetype t, de_name entry) in
         if \<not> full reply item then readdir_loop full (index + 1) entries (reply @ [item])
         else Ok reply)"

definition HookFs_readdir ::
  "('w, 'f, 'd) env \<Rightarrow> (dir_item list \<Rightarrow> dir_item \<Rightarrow> bool) \<Rightarrow> u64 \<Rightarrow> i64 \<Rightarrow>
   ('w, 'f, 'd, dir_item list) fs_prog" where
  "HookFs_readdir E full fh offset =
     seq (inject_with_dir_fh E READDIR fh)
     (let offset = unat offset in
      and_then (get_dir E fh) (\<lambda>dir.
      and_then (libc_call (os_dir_iter (io E) (dir_dir dir))) (\<lambda>all_entries.
        if length all_entries \<le> offset then return []
        else of_outcome (readdir_loop full offset (drop offset all_entries) []))))"

definition HookFs_releasedir :: "('w, 'f, 'd) env \<Rightarrow> u64 \<Rightarrow> ('w, 'f, 'd, unit) fs_prog" where
  "HookFs_releasedir E fh = remove_dir E fh"

definition HookFs_fsyncdir :: "('w, 'f, 'd) env \<Rightarrow> u64 \<Rightarrow> ('w, 'f, 'd, unit) fs_prog" where
  "HookFs_fsyncdir E ino =
     and_then (get_path ino) (\<lambda>path.
       spawn_blocking RUNTIME
         (and_then (libc_call (os_open_sync_all (io E) path)) (\<lambda>ok.
            if ok then return () else raise from_io_Error)))"

definition HookFs_statfs :: "('w, 'f, 'd) env \<Rightarrow> u64 \<Rightarrow> ('w, 'f, 'd, Reply) fs_prog" where
  "HookFs_statfs E ino =
     seq (inject_with_ino E STATFS ino)
     (and_then (get_path ino) (\<lambda>path.
      and_then self (\<lambda>h.
      and_then (spawn_blocking RUNTIME (nix_call (os_statfs (io E) (original_path h)))) (\<lambda>stat.
        inject_reply E STATFS path (Reply_StatFs
          \<lparr>sf_blocks = sfs_blocks stat, sf_bfree = sfs_blocks_free stat,
           sf_bavail = sfs_blocks_available stat, sf_files = sfs_files stat,
           sf_ffree = sfs_files_free stat, sf_bsize = ucast (sfs_block_size stat),
           sf_namelen = ucast (sfs_maximum_name_length stat),
           sf_frsize = ucast (sfs_block_size stat)\<rparr>)))))"

section \<open>Extended attributes and the rest\<close>

definition HookFs_setxattr ::
  "('w, 'f, 'd) env \<Rightarrow> u64 \<Rightarrow> string \<Rightarrow> u8 list \<Rightarrow> i32 \<Rightarrow> ('w, 'f, 'd, unit) fs_prog" where
  "HookFs_setxattr E ino name val flags =
     seq (inject_with_ino E SETXATTR ino)
     (and_then (get_path ino) (\<lambda>path.
      and_then (cstring path) (\<lambda>path.
      and_then (cstring name) (\<lambda>name.
        async_setxattr E path name val flags))))"

definition HookFs_getxattr ::
  "('w, 'f, 'd) env \<Rightarrow> u64 \<Rightarrow> string \<Rightarrow> u32 \<Rightarrow> ('w, 'f, 'd, Reply) fs_prog" where
  "HookFs_getxattr E ino name sz =
     seq (inject_with_ino E GETXATTR ino)
     (and_then (get_path ino) (\<lambda>path.
      and_then (cstring path) (\<lambda>cpath.
      and_then (cstring name) (\<lambda>name.
      and_then (async_getxattr E cpath name (unat sz)) (\<lambda>data.
        inject_reply E GETXATTR path (Reply_Xattr
          (if sz = 0 then Xattr_Size (word_of_nat (length data)) else Xattr_Data data)))))))"

definition HookFs_listxattr :: "('w, 'f, 'd) env \<Rightarrow> u64 \<Rightarrow> u32 \<Rightarrow> ('w, 'f, 'd, Reply) fs_prog" where
  "HookFs_listxattr E ino sz =
     seq (inject_with_ino E LISTXATTR ino)
     (and_then (get_path ino) (\<lambda>path.
      and_then (cstring path) (\<lambda>cpath.
      and_then (spawn_blocking RUNTIME (libc_call (os_llistxattr (xattr E) cpath (unat sz)))) (\<lambda>(ret, bytes).
        if ret = - 1 then last_error E Worker
        else inject_reply E LISTXATTR path (Reply_Xattr
          (if sz = 0 then Xattr_Size (ucast ret) else Xattr_Data (buffer_after (unat sz) bytes)))))))"

definition HookFs_removexattr ::
  "('w, 'f, 'd) env \<Rightarrow> u64 \<Rightarrow> string \<Rightarrow> ('w, 'f, 'd, unit) fs_prog" where
  "HookFs_removexattr E ino name =
     seq (inject_with_ino E REMOVEXATTR ino)
     (and_then (get_path ino) (\<lambda>path.
      and_then (cstring path) (\<lambda>path.
      and_then (cstring name) (\<lambda>name.
      and_then (spawn_blocking RUNTIME (libc_call (os_lremovexattr (xattr E) path name))) (\<lambda>ret.
        if ret = - 1 then last_error E Worker else return ())))))"

definition HookFs_access :: "('w, 'f, 'd) env \<Rightarrow> u64 \<Rightarrow> i32 \<Rightarrow> ('w, 'f, 'd, unit) fs_prog" where
  "HookFs_access E ino access_mask =
     seq (inject_with_ino E ACCESS ino)
     (and_then (get_path ino) (\<lambda>path.
        spawn_blocking RUNTIME
          (nix_call (os_access (fs E) path (AccessFlags_from_bits_truncate (nix E) access_mask)))))"

definition HookFs_create ::
  "('w, 'f, 'd) env \<Rightarrow> u64 \<Rightarrow> string \<Rightarrow> u32 \<Rightarrow> i32 \<Rightarrow> u32 \<Rightarrow> u32 \<Rightarrow> ('w, 'f, 'd, Reply) fs_prog" where
  "HookFs_create E parent_ino name mode flags uid gid =
     seq (inject_with_parent_and_name E CREATE parent_ino name)
     (and_then (get_path parent_ino) (\<lambda>parent_path.
      let path = join parent_path name;
          filtered_flags = OFlag_from_bits_truncate (nix E) (flags AND NOT O_APPEND);
          mode = Mode_from_bits_truncate (nix E) mode in
      and_then (async_open E path filtered_flags mode) (\<lambda>fd.
      seq (async_lchown E path (Some uid) (Some gid))
     (and_then (get_file_attr E path) (\<lambda>stat.
      and_then (insert_file E \<lparr>file_fd = fd, file_original_path = path\<rparr>) (\<lambda>fh.
      seq (record_path (fa_ino stat) path)
          (inject_reply E CREATE path (Reply_Create
            \<lparr>create_attr = stat, create_generation = 0, create_fh = fh, create_flags = flags\<rparr>))))))))"

definition HookFs_getlk :: "('w, 'f, 'd, Reply) fs_prog" where
  "HookFs_getlk = raise (Sys ENOSYS)"

definition HookFs_setlk :: "('w, 'f, 'd, unit) fs_prog" where
  "HookFs_setlk = raise (Sys ENOSYS)"

text \<open>\<open>bmap\<close> answers itself.\<close>

definition HookFs_bmap :: "('w, 'f, 'd, answer) fs_prog" where
  "HookFs_bmap = return (ans_error ENOSYS)"

end
