(* ===== verification/Async_Fs.thy ===== *)
theory Async_Fs
  imports Hook_Fs
begin

text \<open>
  \<open>src/hookfs/async_fs.rs\<close>: the callbacks of the FUSE session. Each spawns a task that runs the
  operation of the file system and turns its result into the answer to the kernel. A task that
  panics, or a callback that finds no runtime, drops its reply. Only \<open>forget\<close> has no reply and so
  no answer (\<open>None\<close>).
\<close>

type_synonym ('w, 'f, 'd) task = "('w, 'f, 'd) st \<Rightarrow> answer option \<times> ('w, 'f, 'd) st"

text \<open>
  Without a runtime \<open>spawn\<close> panics and drops the future with all it has captured; \<open>dropped\<close> is
  what dropping the reply among it answers.
\<close>

definition spawn :: "answer option \<Rightarrow> ('w, 'f, 'd) task \<Rightarrow> ('w, 'f, 'd) task" where
  "spawn dropped future = (\<lambda>s. if RUNTIME s then future s else (dropped, s))"

definition spawn_reply ::
  "('a \<Rightarrow> answer) \<Rightarrow> ('w, 'f, 'd, 'a) fs_prog \<Rightarrow> ('w, 'f, 'd) task" where
  "spawn_reply ok f = spawn (Some ans_dropped) (\<lambda>s. case f s of (result, s') \<Rightarrow> (FsReply_reply ok result, s'))"

section \<open>Callbacks\<close>

definition AsyncFileSystem_init :: "('w, 'f, 'd) env \<Rightarrow> ('w, 'f, 'd) st \<Rightarrow> (i32, unit) outcome \<times> ('w, 'f, 'd) st" where
  "AsyncFileSystem_init E s = (case HookFs_init E s of
       (Ok u, s') \<Rightarrow> (Ok u, s')
     | (Err err, s') \<Rightarrow> (Err (into_c_int err), s')
     | (Panic, s') \<Rightarrow> (Panic, s'))"

definition AsyncFileSystem_destroy :: "('w, 'f, 'd) st \<Rightarrow> ('w, 'f, 'd) st" where
  "AsyncFileSystem_destroy s = snd (HookFs_destroy s)"

text \<open>\<open>forget\<close> has no answer.\<close>

definition AsyncFileSystem_forget :: "u64 \<Rightarrow> u64 \<Rightarrow> ('w, 'f, 'd) task" where
  "AsyncFileSystem_forget ino nlookup = spawn None (\<lambda>s. (None, snd (HookFs_forget ino nlookup s)))"

definition AsyncFileSystem_lookup ::
  "('w, 'f, 'd) env \<Rightarrow> u64 \<Rightarrow> string \<Rightarrow> ('w, 'f, 'd) task" where
  "AsyncFileSystem_lookup E parent_ino name =
     spawn_reply reply_ok (HookFs_lookup E parent_ino name)"

definition AsyncFileSystem_getattr :: "('w, 'f, 'd) env \<Rightarrow> u64 \<Rightarrow> ('w, 'f, 'd) task" where
  "AsyncFileSystem_getattr E ino = spawn_reply reply_ok (HookFs_getattr E ino)"

definition AsyncFileSystem_setattr ::
  "('w, 'f, 'd) env \<Rightarrow> u64 \<Rightarrow> u32 option \<Rightarrow> u32 option \<Rightarrow> u32 option \<Rightarrow> u64 option \<Rightarrow> TimeOrNow option \<Rightarrow> TimeOrNow option \<Rightarrow> ('w, 'f, 'd) task" where
  "AsyncFileSystem_setattr E ino mode uid gid sz atime mtime =
     spawn_reply reply_ok (HookFs_setattr E ino mode uid gid sz atime mtime)"

definition AsyncFileSystem_readlink :: "('w, 'f, 'd) env \<Rightarrow> u64 \<Rightarrow> ('w, 'f, 'd) task" where
  "AsyncFileSystem_readlink E ino = spawn_reply reply_ok (HookFs_readlink E ino)"

definition AsyncFileSystem_mknod ::
  "('w, 'f, 'd) env \<Rightarrow> u64 \<Rightarrow> string \<Rightarrow> u32 \<Rightarrow> u32 \<Rightarrow> u32 \<Rightarrow> u32 \<Rightarrow> ('w, 'f, 'd) task" where
  "AsyncFileSystem_mknod E parent_ino name mode rdev uid gid =
     spawn_reply reply_ok (HookFs_mknod E parent_ino name mode rdev uid gid)"

definition AsyncFileSystem_mkdir ::
  "('w, 'f, 'd) env \<Rightarrow> u64 \<Rightarrow> string \<Rightarrow> u32 \<Rightarrow> u32 \<Rightarrow> u32 \<Rightarrow> ('w, 'f, 'd) task" where
  "AsyncFileSystem_mkdir E parent_ino name mode uid gid =
     spawn_reply reply_ok (HookFs_mkdir E parent_ino name mode uid gid)"

definition AsyncFileSystem_unlink ::
  "('w, 'f, 'd) env \<Rightarrow> u64 \<Rightarrow> string \<Rightarrow> ('w, 'f, 'd) task" where
  "AsyncFileSystem_unlink E parent_ino name =
     spawn_reply reply_ok_unit (HookFs_unlink E parent_ino name)"

definition AsyncFileSystem_rmdir ::
  "('w, 'f, 'd) env \<Rightarrow> u64 \<Rightarrow> string \<Rightarrow> ('w, 'f, 'd) task" where
  "AsyncFileSystem_rmdir E parent_ino name =
     spawn_reply reply_ok_unit (HookFs_rmdir E parent_ino name)"

definition AsyncFileSystem_symlink ::
  "('w, 'f, 'd) env \<Rightarrow> u64 \<Rightarrow> string \<Rightarrow> path \<Rightarrow> u32 \<Rightarrow> u32 \<Rightarrow> ('w, 'f, 'd) task" where
  "AsyncFileSystem_symlink E parent_ino name link uid gid =
     spawn_reply reply_ok (HookFs_symlink E parent_ino name link uid gid)"

definition AsyncFileSystem_rename ::
  "('w, 'f, 'd) env \<Rightarrow> u64 \<Rightarrow> string \<Rightarrow> u64 \<Rightarrow> string \<Rightarrow> ('w, 'f, 'd) task" where
  "AsyncFileSystem_rename E parent_ino name newparent newname =
     spawn_reply reply_ok_unit (HookFs_rename E parent_ino name newparent newname)"

definition AsyncFileSystem_link ::
  "('w, 'f, 'd) env \<Rightarrow> u64 \<Rightarrow> u64 \<Rightarrow> string \<Rightarrow> ('w, 'f, 'd) task" where
  "AsyncFileSystem_link E ino newparent newname =
     spawn_reply reply_ok (HookFs_link E ino newparent newname)"

definition AsyncFileSystem_open :: "('w, 'f, 'd) env \<Rightarrow> u64 \<Rightarrow> i32 \<Rightarrow> ('w, 'f, 'd) task" where
  "AsyncFileSystem_open E ino flags = spawn_reply reply_ok (HookFs_open E ino flags)"

definition AsyncFileSystem_read ::
  "('w, 'f, 'd) env \<Rightarrow> u64 \<Rightarrow> i64 \<Rightarrow> u32 \<Rightarrow> ('w, 'f, 'd) task" where
  "AsyncFileSystem_read E fh offset sz = spawn_reply reply_ok (HookFs_read E fh offset sz)"

definition AsyncFileSystem_write ::
  "('w, 'f, 'd) env \<Rightarrow> u64 \<Rightarrow> i64 \<Rightarrow> u8 list \<Rightarrow> ('w, 'f, 'd) task" where
  "AsyncFileSystem_write E fh offset data = spawn_reply reply_ok (HookFs_write E fh offset data)"

definition AsyncFileSystem_flush :: "('w, 'f, 'd) env \<Rightarrow> u64 \<Rightarrow> ('w, 'f, 'd) task" where
  "AsyncFileSystem_flush E fh = spawn_reply reply_ok_unit (HookFs_flush E fh)"

definition AsyncFileSystem_release :: "('w, 'f, 'd) env \<Rightarrow> u64 \<Rightarrow> ('w, 'f, 'd) task" where
  "AsyncFileSystem_release E fh = spawn_reply reply_ok_unit (HookFs_release E fh)"

definition AsyncFileSystem_fsync :: "('w, 'f, 'd) env \<Rightarrow> u64 \<Rightarrow> ('w, 'f, 'd) task" where
  "AsyncFileSystem_fsync E fh = spawn_reply reply_ok_unit (HookFs_fsync E fh)"

definition AsyncFileSystem_opendir ::
  "('w, 'f, 'd) env \<Rightarrow> u64 \<Rightarrow> i32 \<Rightarrow> ('w, 'f, 'd) task" where
  "AsyncFileSystem_opendir E ino flags = spawn_reply reply_ok (HookFs_opendir E ino flags)"

definition AsyncFileSystem_readdir ::
  "('w, 'f, 'd) env \<Rightarrow> (dir_item list \<Rightarrow> dir_item \<Rightarrow> bool) \<Rightarrow> u64 \<Rightarrow> i64 \<Rightarrow> ('w, 'f, 'd) task" where
  "AsyncFileSystem_readdir E full fh offset = spawn (Some ans_dropped) (\<lambda>s.
     case HookFs_readdir E full fh offset s of
       (Ok items, s') \<Rightarrow> (Some (ans_dir items), s')
     | (Err err, s') \<Rightarrow> (Some (ans_error (into_c_int err)), s')
     | (Panic, s') \<Rightarrow> (Some ans_dropped, s'))"

definition AsyncFileSystem_releasedir :: "('w, 'f, 'd) env \<Rightarrow> u64 \<Rightarrow> ('w, 'f, 'd) task" where
  "AsyncFileSystem_releasedir E fh = spawn_reply reply_ok_unit (HookFs_releasedir E fh)"

definition AsyncFileSystem_fsyncdir :: "('w, 'f, 'd) env \<Rightarrow> u64 \<Rightarrow> ('w, 'f, 'd) task" where
  "AsyncFileSystem_fsyncdir E ino = spawn_reply reply_ok_unit (HookFs_fsyncdir E ino)"

definition AsyncFileSystem_statfs :: "('w, 'f, 'd) env \<Rightarrow> u64 \<Rightarrow> ('w, 'f, 'd) task" where
  "AsyncFileSystem_statfs E ino = spawn_reply reply_ok (HookFs_statfs E ino)"

definition AsyncFileSystem_setxattr ::
  "('w, 'f, 'd) env \<Rightarrow> u64 \<Rightarrow> string \<Rightarrow> u8 list \<Rightarrow> i32 \<Rightarrow> ('w, 'f, 'd) task" where
  "AsyncFileSystem_setxattr E ino name val flags =
     spawn_reply reply_ok_unit (HookFs_setxattr E ino name val flags)"

definition AsyncFileSystem_getxattr ::
  "('w, 'f, 'd) env \<Rightarrow> u64 \<Rightarrow> string \<Rightarrow> u32 \<Rightarrow> ('w, 'f, 'd) task" where
  "AsyncFileSystem_getxattr E ino name sz = spawn_reply reply_ok (HookFs_getxattr E ino name sz)"

definition AsyncFileSystem_listxattr ::
  "('w, 'f, 'd) env \<Rightarrow> u64 \<Rightarrow> u32 \<Rightarrow> ('w, 'f, 'd) task" where
  "AsyncFileSystem_listxattr E ino sz = spawn_reply reply_ok (HookFs_listxattr E ino sz)"

definition AsyncFileSystem_removexattr ::
  "('w, 'f, 'd) env \<Rightarrow> u64 \<Rightarrow> string \<Rightarrow> ('w, 'f, 'd) task" where
  "AsyncFileSystem_removexattr E ino name =
     spawn_reply reply_ok_unit (HookFs_removexattr E ino name)"

definition AsyncFileSystem_access :: "('w, 'f, 'd) env \<Rightarrow> u64 \<Rightarrow> i32 \<Rightarrow> ('w, 'f, 'd) task" where
  "AsyncFileSystem_access E ino access_mask =
     spawn_reply reply_ok_unit (HookFs_access E ino access_mask)"

definition AsyncFileSystem_create ::
  "('w, 'f, 'd) env \<Rightarrow> u64 \<Rightarrow> string \<Rightarrow> u32 \<Rightarrow> i32 \<Rightarrow> u32 \<Rightarrow> u32 \<Rightarrow> ('w, 'f, 'd) task" where
  "AsyncFileSystem_create E parent_ino name mode flags uid gid =
     spawn_reply reply_ok (HookFs_create E parent_ino name mode flags uid gid)"

definition AsyncFileSystem_getlk :: "('w, 'f, 'd) task" where
  "AsyncFileSystem_getlk = spawn_reply reply_ok HookFs_getlk"

definition AsyncFileSystem_setlk :: "('w, 'f, 'd) task" where
  "AsyncFileSystem_setlk = spawn_reply reply_ok_unit HookFs_setlk"

definition AsyncFileSystem_bmap :: "('w, 'f, 'd) task" where
  "AsyncFileSystem_bmap = spawn_reply id HookFs_bmap"

section \<open>The request loop\<close>

text \<open>
  The FUSE session reads one request after the other and calls the callback of its kind.
\<close>

datatype request =
    Req_forget u64 u64
  | Req_lookup u64 string
  | Req_getattr u64
  | Req_setattr u64 "u32 option" "u32 option" "u32 option" "u64 option" "TimeOrNow option" "TimeOrNow option"
  | Req_readlink u64
  | Req_mknod u64 string u32 u32 u32 u32
  | Req_mkdir u64 string u32 u32 u32
  | Req_unlink u64 string
  | Req_rmdir u64 string
  | Req_symlink u64 string path u32 u32
  | Req_rename u64 string u64 string
  | Req_link u64 u64 string
  | Req_open u64 i32
  | Req_read u64 i64 u32
  | Req_write u64 i64 "u8 list"
  | Req_flush u64
  | Req_release u64
  | Req_fsync u64
  | Req_opendir u64 i32
  | Req_readdir "dir_item list \<Rightarrow> dir_item \<Rightarrow> bool" u64 i64
  | Req_releasedir u64
  | Req_fsyncdir u64
  | Req_statfs u64
  | Req_setxattr u64 string "u8 list" i32
  | Req_getxattr u64 string u32
  | Req_listxattr u64 u32
  | Req_removexattr u64 string
  | Req_access u64 i32
  | Req_create u64 string u32 i32 u32 u32
  | Req_getlk 
  | Req_setlk 
  | Req_bmap

fun serve :: "('w, 'f, 'd) env \<Rightarrow> request \<Rightarrow> ('w, 'f, 'd) task" where
  "serve E (Req_forget ino nlookup) = AsyncFileSystem_forget ino nlookup"
| "serve E (Req_lookup parent_ino name) = AsyncFileSystem_lookup E parent_ino name"
| "serve E (Req_getattr ino) = AsyncFileSystem_getattr E ino"
| "serve E (Req_setattr ino mode uid gid sz atime mtime) =
     AsyncFileSystem_setattr E ino mode uid gid sz atime mtime"
| "serve E (Req_readlink ino) = AsyncFileSystem_readlink E ino"
| "serve E (Req_mknod parent_ino name mode rdev uid gid) =
     AsyncFileSystem_mknod E parent_ino name mode rdev uid gid"
| "serve E (Req_mkdir parent_ino name mode uid gid) =
     AsyncFileSystem_mkdir E parent_ino name mode uid gid"
| "serve E (Req_unlink parent_ino name) = AsyncFileSystem_unlink E parent_ino name"
| "serve E (Req_rmdir parent_ino name) = AsyncFileSystem_rmdir E parent_ino name"
| "serve E (Req_symlink parent_ino name link uid gid) =
     AsyncFileSystem_symlink E parent_ino name link uid gid"
| "serve E (Req_rename parent_ino name newparent newname) =
     AsyncFileSystem_rename E parent_ino name newparent newname"
| "serve E (Req_link ino newparent newname) = AsyncFileSystem_link E ino newparent newname"
| "serve E (Req_open ino flags) = AsyncFileSystem_open E ino flags"
| "serve E (Req_read fh offset sz) = AsyncFileSystem_read E fh offset sz"
| "serve E (Req_write fh offset data) = AsyncFileSystem_write E fh offset data"
| "serve E (Req_flush fh) = AsyncFileSystem_flush E fh"
| "serve E (Req_release fh) = AsyncFileSystem_release E fh"
| "serve E (Req_fsync fh) = AsyncFileSystem_fsync E fh"
| "serve E (Req_opendir ino flags) = AsyncFileSystem_opendir E ino flags"
| "serve E (Req_readdir full fh offset) = AsyncFileSystem_readdir E full fh offset"
| "serve E (Req_releasedir fh) = AsyncFileSystem_releasedir E fh"
| "serve E (Req_fsyncdir ino) = AsyncFileSystem_fsyncdir E ino"
| "serve E (Req_statfs ino) = AsyncFileSystem_statfs E ino"
| "serve E (Req_setxattr ino name val flags) = AsyncFileSystem_setxattr E ino name val flags"
| "serve E (Req_getxattr ino name sz) = AsyncFileSystem_getxattr E ino name sz"
| "serve E (Req_listxattr ino sz) = AsyncFileSystem_listxattr E ino sz"
| "serve E (Req_removexattr ino name) = AsyncFileSystem_removexattr E ino name"
| "serve E (Req_access ino access_mask) = AsyncFileSystem_access E ino access_mask"
| "serve E (Req_create parent_ino name mode flags uid gid) =
     AsyncFileSystem_create E parent_ino name mode flags uid gid"
| "serve E Req_getlk = AsyncFileSystem_getlk"
| "serve E Req_setlk = AsyncFileSystem_setlk"
| "serve E Req_bmap = AsyncFileSystem_bmap"

fun serve_all :: "('w, 'f, 'd) env \<Rightarrow> request list \<Rightarrow> ('w, 'f, 'd) st \<Rightarrow> ('w, 'f, 'd) st" where
  "serve_all E [] s = s"
| "serve_all E (r # rs) s = serve_all E rs (snd (serve E r s))"

lemmas callback_defs = AsyncFileSystem_forget_def AsyncFileSystem_bmap_def
  AsyncFileSystem_lookup_def AsyncFileSystem_getattr_def AsyncFileSystem_setattr_def
  AsyncFileSystem_readlink_def AsyncFileSystem_mknod_def AsyncFileSystem_mkdir_def
  AsyncFileSystem_unlink_def AsyncFileSystem_rmdir_def AsyncFileSystem_symlink_def
  AsyncFileSystem_rename_def AsyncFileSystem_link_def AsyncFileSystem_open_def
  AsyncFileSystem_read_def AsyncFileSystem_write_def AsyncFileSystem_flush_def
  AsyncFileSystem_release_def AsyncFileSystem_fsync_def AsyncFileSystem_opendir_def
  AsyncFileSystem_readdir_def AsyncFileSystem_releasedir_def AsyncFileSystem_fsyncdir_def
  AsyncFileSystem_statfs_def AsyncFileSystem_setxattr_def AsyncFileSystem_getxattr_def
  AsyncFileSystem_listxattr_def AsyncFileSystem_removexattr_def AsyncFileSystem_access_def
  AsyncFileSystem_create_def AsyncFileSystem_getlk_def AsyncFileSystem_setlk_def

lemmas handler_defs = HookFs_forget_def HookFs_bmap_def
  HookFs_lookup_def HookFs_getattr_def HookFs_setattr_def HookFs_readlink_def
  HookFs_mknod_def HookFs_mkdir_def HookFs_unlink_def HookFs_rmdir_def
  HookFs_symlink_def HookFs_rename_def HookFs_link_def HookFs_open_def
  HookFs_read_def HookFs_write_def HookFs_flush_def HookFs_release_def
  HookFs_fsync_def HookFs_opendir_def HookFs_readdir_def HookFs_releasedir_def
  HookFs_fsyncdir_def HookFs_statfs_def HookFs_setxattr_def HookFs_getxattr_def
  HookFs_listxattr_def HookFs_removexattr_def HookFs_access_def HookFs_create_def
  HookFs_getlk_def HookFs_setlk_def

lemma readdir_task:
  "AsyncFileSystem_readdir E full fh offset = spawn_reply ans_dir (HookFs_readdir E full fh offset)"
  by (simp add: AsyncFileSystem_readdir_def spawn_reply_def spawn_def FsReply_reply_def fun_eq_iff
      split: prod.splits outcome.splits)

end
