(* ===== verification/Fs_Invariant.thy ===== *)
theory Fs_Invariant
  imports Async_Fs
begin

text \<open>
  The invariant of the file system: every path it has recorded, for an inode, an open file or
  an open directory, lies in the original directory tree. Every request keeps it, so no request
  touches a file outside that tree and every recorded path has its name below the mount point.
\<close>

section \<open>The invariant\<close>

definition files_rooted :: "('w, 'f, 'd) env \<Rightarrow> path \<Rightarrow> 'f \<Rightarrow> bool" where
  "files_rooted E root m \<longleftrightarrow>
     (\<forall>fh file. slab_get (files E) m fh = Some file \<longrightarrow> below (file_original_path file) root)"

definition dirs_rooted :: "('w, 'f, 'd) env \<Rightarrow> path \<Rightarrow> 'd \<Rightarrow> bool" where
  "dirs_rooted E root m \<longleftrightarrow>
     (\<forall>fh dir. slab_get (dirs E) m fh = Some dir \<longrightarrow> below (dir_original_path dir) root)"

definition HookFs_rooted :: "('w, 'f, 'd) env \<Rightarrow> path \<Rightarrow> path \<Rightarrow> ('f, 'd) HookFs \<Rightarrow> bool" where
  "HookFs_rooted E mount root h \<longleftrightarrow>
     mount_path h = mount \<and> original_path h = root \<and>
     inode_map.rooted root (inode_map h) \<and>
     files_rooted E root (opened_files h) \<and> dirs_rooted E root (opened_dirs h)"

abbreviation rooted_st :: "('w, 'f, 'd) env \<Rightarrow> path \<Rightarrow> path \<Rightarrow> ('w, 'f, 'd) st \<Rightarrow> bool" where
  "rooted_st E mount root s \<equiv> HookFs_rooted E mount root (hookfs s)"

definition env_ok :: "('w, 'f, 'd) env \<Rightarrow> bool" where
  "env_ok E \<longleftrightarrow> slab_ok (files E) \<and> slab_ok (dirs E)"

lemma rooted_empty: "inode_map.rooted root Map.empty"
  by (simp add: inode_map.rooted_def InodeMap_known_def)

lemma new_rooted:
  "env_ok E \<Longrightarrow> HookFs_rooted E mount root (HookFs_new E mount root is)"
  by (simp add: HookFs_rooted_def HookFs_new_def files_rooted_def dirs_rooted_def env_ok_def
      slab_ok_new inode_map.rooted_ins rooted_empty)

text \<open>A fact about the result of the first part that the second part may use.\<close>

lemma keeps_and_then_fact:
  assumes "ensures I m (\<lambda>a s. Q a)" and "\<And>a. Q a \<Longrightarrow> keeps I (f a)"
  shows "keeps I (and_then m f)"
proof (rule keeps_and_then_ensures [OF assms(1)])
  show "keeps (\<lambda>s. I s \<and> Q a) (f a)" for a
    using assms(2) [of a] by (cases "Q a") (simp_all add: keeps_def)
qed

lemma ensures_pure: "(\<And>s. snd (m s) = s) \<Longrightarrow> (\<And>s a. I s \<Longrightarrow> fst (m s) = Ok a \<Longrightarrow> Q a) \<Longrightarrow> ensures I m (\<lambda>a s. Q a)"
  by (simp add: ensures_def)

section \<open>Steps that keep it\<close>

lemma keeps_self [keep_intros]: "keeps I self"
  by (simp add: self_def keep_intros)

lemma keeps_get_path [keep_intros]: "keeps I (get_path ino)"
  unfolding get_path_def by (intro keep_intros)

lemma keeps_get_file [keep_intros]: "keeps I (get_file E fh)"
  unfolding get_file_def by (intro keep_intros)

lemma keeps_get_dir [keep_intros]: "keeps I (get_dir E fh)"
  unfolding get_dir_def by (intro keep_intros)

lemma keeps_case_sum [keep_intros]:
  "(\<And>a. x = Inl a \<Longrightarrow> keeps I (f a)) \<Longrightarrow> (\<And>b. x = Inr b \<Longrightarrow> keeps I (g b)) \<Longrightarrow>
   keeps I (case x of Inl a \<Rightarrow> f a | Inr b \<Rightarrow> g b)"
  by (cases x) auto

lemma keeps_inject [keep_intros]: "keeps (\<lambda>s. P (hookfs s)) (inject E method path)"
  unfolding inject_def by (intro keep_intros)

lemma keeps_inject_macros [keep_intros]:
  "keeps (\<lambda>s. P (hookfs s)) (inject_with_ino E method ino)"
  "keeps (\<lambda>s. P (hookfs s)) (inject_with_fh E method fh)"
  "keeps (\<lambda>s. P (hookfs s)) (inject_write_data E fh data)"
  "keeps (\<lambda>s. P (hookfs s)) (inject_with_dir_fh E method fh)"
  "keeps (\<lambda>s. P (hookfs s)) (inject_with_parent_and_name E method ino name)"
  "keeps (\<lambda>s. P (hookfs s)) (inject_attr E attr path)"
  "keeps (\<lambda>s. P (hookfs s)) (inject_reply E method path reply)"
  unfolding inject_with_ino_def inject_with_fh_def inject_write_data_def inject_with_dir_fh_def
    inject_with_parent_and_name_def inject_attr_def inject_reply_def
  by (intro keep_intros)+

lemma keeps_get_file_attr [keep_intros]: "keeps (\<lambda>s. P (hookfs s)) (get_file_attr E path)"
  unfolding get_file_attr_def by (intro keep_intros)

lemma keeps_if_some [keep_intros]: "(\<And>x. keeps I (f x)) \<Longrightarrow> keeps I (if_some x f)"
  unfolding if_some_def by (intro keep_intros)

lemma keeps_unwrapped_time [keep_intros]: "keeps I (unwrapped_time t)"
  unfolding unwrapped_time_def by (intro keep_intros)

lemma keeps_update_inode_map:
  "(\<And>m. inode_map.rooted root m \<Longrightarrow> inode_map.rooted root (f m)) \<Longrightarrow>
   keeps (rooted_st E mount root) (update_inode_map f)"
  unfolding update_inode_map_def by (rule keeps_modify) (simp add: HookFs_rooted_def)

lemma keeps_record_path [keep_intros]:
  "below path root \<Longrightarrow> keeps (rooted_st E mount root) (record_path ino path)"
  unfolding record_path_def
  by (rule keeps_update_inode_map) (simp add: inode_map.rooted_ins inode_map.rooted_inc)

lemma keeps_insert_file [keep_intros]:
  assumes "env_ok E" and "below (file_original_path file) root"
  shows "keeps (rooted_st E mount root) (insert_file E file)"
  using assms unfolding insert_file_def env_ok_def
  by (auto simp: keeps_def HookFs_rooted_def files_rooted_def split: option.splits if_splits
      dest!: slab_ok_insert)

lemma keeps_insert_dir [keep_intros]:
  assumes "env_ok E" and "below (dir_original_path dir) root"
  shows "keeps (rooted_st E mount root) (insert_dir E dir)"
  using assms unfolding insert_dir_def env_ok_def
  by (auto simp: keeps_def HookFs_rooted_def dirs_rooted_def split: option.splits if_splits
      dest!: slab_ok_insert)

lemma keeps_remove_file [keep_intros]:
  assumes "env_ok E"
  shows "keeps (rooted_st E mount root) (remove_file E fh)"
  using assms unfolding remove_file_def env_ok_def
  by (auto simp: keeps_def HookFs_rooted_def files_rooted_def split: option.splits if_splits
      dest!: slab_ok_remove)

lemma keeps_remove_dir [keep_intros]:
  assumes "env_ok E"
  shows "keeps (rooted_st E mount root) (remove_dir E fh)"
  using assms unfolding remove_dir_def env_ok_def
  by (auto simp: keeps_def HookFs_rooted_def dirs_rooted_def split: option.splits if_splits
      dest!: slab_ok_remove)

text \<open>The path of an inode, and a name below it.\<close>

lemma get_path_rooted:
  "ensures (rooted_st E mount root) (get_path ino) (\<lambda>p s. below p root)"
  by (rule ensures_pure)
     (auto simp: get_path_def self_def of_result_def run_simps HookFs_rooted_def
       dest: inode_map.rooted_get split: sum.splits)

lemma keeps_at_path [keep_intros]:
  "(\<And>p. below p root \<Longrightarrow> keeps (rooted_st E mount root) (f p)) \<Longrightarrow>
   keeps (rooted_st E mount root) (and_then (get_path ino) f)"
  by (rule keeps_and_then_fact [OF get_path_rooted])

lemma keeps_reply_new_entry [keep_intros]:
  "below path root \<Longrightarrow> keeps (rooted_st E mount root) (reply_new_entry E path)"
  unfolding reply_new_entry_def by (intro keep_intros)

section \<open>Every request keeps it\<close>

text \<open>
  The kernel sends the names of directory entries: one component, and never \<open>.\<close> or \<open>..\<close>.
\<close>

fun request_ok :: "request \<Rightarrow> bool" where
  "request_ok (Req_lookup _ name) \<longleftrightarrow> name_ok name"
| "request_ok (Req_mknod _ name _ _ _ _) \<longleftrightarrow> name_ok name"
| "request_ok (Req_mkdir _ name _ _ _) \<longleftrightarrow> name_ok name"
| "request_ok (Req_unlink _ name) \<longleftrightarrow> name_ok name"
| "request_ok (Req_rmdir _ name) \<longleftrightarrow> name_ok name"
| "request_ok (Req_symlink _ name _ _ _) \<longleftrightarrow> name_ok name"
| "request_ok (Req_rename _ name _ newname) \<longleftrightarrow> name_ok name \<and> name_ok newname"
| "request_ok (Req_link _ _ newname) \<longleftrightarrow> name_ok newname"
| "request_ok (Req_create _ name _ _ _ _) \<longleftrightarrow> name_ok name"
| "request_ok _ \<longleftrightarrow> True"

text \<open>What a task does to the state.\<close>

lemma keeps_task:
  "keeps I f \<Longrightarrow> I s \<Longrightarrow> I (snd (spawn_reply ok f s))"
  by (auto simp: keeps_def spawn_reply_def spawn_def split: prod.splits)

lemma rooted_task:
  "keeps (rooted_st E mount root) f \<Longrightarrow> rooted_st E mount root s \<Longrightarrow>
   rooted_st E mount root (snd (spawn_reply ok f s))"
  by (rule keeps_task)

lemma keeps_readdir: "keeps (\<lambda>s. P (hookfs s)) (HookFs_readdir E full fh offset)"
  unfolding HookFs_readdir_def by (intro keep_intros)

lemma keeps_rename:
  assumes "has_root root" "name_ok newname"
  shows "keeps (rooted_st E mount root) (HookFs_rename E p name np newname)"
  unfolding HookFs_rename_def using assms
  by (intro keep_intros keeps_update_inode_map)
     (auto intro!: inode_map.rooted_ins inode_map.rooted_rem below_child)

lemma keeps_handler:
  assumes "env_ok E" and "has_root root"
  shows "name_ok name \<Longrightarrow> keeps (rooted_st E mount root) (HookFs_lookup E p name)"
    and "name_ok name \<Longrightarrow> keeps (rooted_st E mount root) (HookFs_mknod E p name mode rdev uid gid)"
    and "name_ok name \<Longrightarrow> keeps (rooted_st E mount root) (HookFs_mkdir E p name mode uid gid)"
    and "keeps (rooted_st E mount root) (HookFs_unlink E p name)"
    and "keeps (rooted_st E mount root) (HookFs_rmdir E p name)"
    and "name_ok name \<Longrightarrow> keeps (rooted_st E mount root) (HookFs_symlink E p name link uid gid)"
    and "name_ok name \<Longrightarrow> keeps (rooted_st E mount root) (HookFs_link E ino p name)"
    and "name_ok name \<Longrightarrow> keeps (rooted_st E mount root) (HookFs_create E p name mode flags uid gid)"
    and "keeps (rooted_st E mount root) (HookFs_open E ino flags)"
    and "keeps (rooted_st E mount root) (HookFs_opendir E ino flags)"
    and "keeps (rooted_st E mount root) (HookFs_release E fh)"
    and "keeps (rooted_st E mount root) (HookFs_releasedir E fh)"
    and "keeps (rooted_st E mount root) (HookFs_forget ino nlookup)"
  unfolding handler_defs
  by (intro keep_intros keeps_update_inode_map assms inode_map.rooted_rem inode_map.rooted_dec;
      simp add: below_child assms)+

text \<open>The other requests do not write the \<open>HookFs\<close> value at all.\<close>

lemma keeps_reader:
  "keeps (\<lambda>s. P (hookfs s)) (HookFs_getattr E ino)"
  "keeps (\<lambda>s. P (hookfs s)) (HookFs_setattr E ino mode uid' gid' sz atime mtime)"
  "keeps (\<lambda>s. P (hookfs s)) (HookFs_readlink E ino)"
  "keeps (\<lambda>s. P (hookfs s)) (HookFs_read E fh offset sz')"
  "keeps (\<lambda>s. P (hookfs s)) (HookFs_write E fh offset data)"
  "keeps (\<lambda>s. P (hookfs s)) (HookFs_flush E fh)"
  "keeps (\<lambda>s. P (hookfs s)) (HookFs_fsync E fh)"
  "keeps (\<lambda>s. P (hookfs s)) (HookFs_fsyncdir E ino)"
  "keeps (\<lambda>s. P (hookfs s)) (HookFs_statfs E ino)"
  "keeps (\<lambda>s. P (hookfs s)) (HookFs_setxattr E ino name val flags)"
  "keeps (\<lambda>s. P (hookfs s)) (HookFs_getxattr E ino name sz')"
  "keeps (\<lambda>s. P (hookfs s)) (HookFs_listxattr E ino sz')"
  "keeps (\<lambda>s. P (hookfs s)) (HookFs_removexattr E ino name)"
  "keeps (\<lambda>s. P (hookfs s)) (HookFs_access E ino m)"
  "keeps (\<lambda>s. P (hookfs s)) HookFs_getlk"
  "keeps (\<lambda>s. P (hookfs s)) HookFs_setlk"
  "keeps (\<lambda>s. P (hookfs s)) HookFs_bmap"
  unfolding handler_defs by (auto intro!: keep_intros split: prod.splits)

lemma serve_rooted:
  assumes "env_ok E" and "has_root root" and "request_ok r" and "rooted_st E mount root s"
  shows "rooted_st E mount root (snd (serve E r s))"
proof (cases r)
  case (Req_forget ino n)
  with keepsD [OF keeps_handler(13) [OF assms(1,2)] assms(4)] assms(4) show ?thesis
    by (simp add: AsyncFileSystem_forget_def spawn_def)
next
  case (Req_readdir full fh offset)
  show ?thesis
    unfolding Req_readdir serve.simps readdir_task
    by (rule rooted_task, rule keeps_readdir, rule assms)
qed (use assms in \<open>simp_all add: callback_defs rooted_task keeps_handler keeps_rename
    keeps_reader [where P = "HookFs_rooted E mount root"]\<close>)

end
