(* ===== verification/Fs_Simulation.thy ===== *)
theory Fs_Simulation
  imports Fs_Invariant
begin

text \<open>
  Two file systems side by side. The second one has other system calls on paths outside the
  original tree, or other injectors and another library while injection is off; both then
  give the same answers to the same requests. The first reading is confinement, the second
  transparency.
\<close>

named_theorems sim_intros "rules that two computations run in step"

section \<open>Computations that run in step\<close>

definition sim ::
  "('s \<Rightarrow> bool) \<Rightarrow> ('s \<Rightarrow> 's) \<Rightarrow> ('s, 'e, 'a) prog \<Rightarrow> ('s, 'e, 'a) prog \<Rightarrow> bool" where
  "sim I g m m' \<longleftrightarrow> (\<forall>s. I s \<longrightarrow> m' (g s) = (fst (m s), g (snd (m s))) \<and> I (snd (m s)))"

lemma simI:
  "(\<And>s. I s \<Longrightarrow> m' (g s) = (fst (m s), g (snd (m s)))) \<Longrightarrow> keeps I m \<Longrightarrow> sim I g m m'"
  by (simp add: sim_def keeps_def)

lemma simD1: "sim I g m m' \<Longrightarrow> I s \<Longrightarrow> m' (g s) = (fst (m s), g (snd (m s)))"
  by (simp add: sim_def)

lemma simD2: "sim I g m m' \<Longrightarrow> I s \<Longrightarrow> I (snd (m s))"
  by (simp add: sim_def)

lemma sim_return [sim_intros]: "sim I g (return a) (return a)"
  by (simp add: sim_def run_simps)

lemma sim_raise [sim_intros]: "sim I g (raise e) (raise e)"
  by (simp add: sim_def run_simps)

lemma sim_panic [sim_intros]: "sim I g panic panic"
  by (simp add: sim_def run_simps)

lemma sim_of_outcome [sim_intros]: "sim I g (of_outcome r) (of_outcome r)"
  by (simp add: sim_def run_simps)

lemma sim_of_result [sim_intros]: "sim I g (of_result r) (of_result r)"
  by (cases r) (simp_all add: of_result_def sim_intros)

lemma sim_cstring [sim_intros]: "sim I g (cstring p) (cstring p)"
  by (simp add: cstring_def sim_intros split: option.splits)

lemma sim_unwrapped_time [sim_intros]: "sim I g (unwrapped_time t) (unwrapped_time t)"
  by (simp add: unwrapped_time_def sim_intros split: option.splits)

lemma sim_and_then_fact:
  assumes "sim I g m m'" and "\<And>s a. I s \<Longrightarrow> fst (m s) = Ok a \<Longrightarrow> Q a"
    and "\<And>a. Q a \<Longrightarrow> sim I g (f a) (f' a)"
  shows "sim I g (and_then m f) (and_then m' f')"
  unfolding sim_def
proof (intro allI impI)
  fix s assume I: "I s"
  obtain r t where r: "m s = (r, t)" by (cases "m s")
  from simD1 [OF assms(1) I] simD2 [OF assms(1) I] r
  have m': "m' (g s) = (r, g t)" and t: "I t" by simp_all
  show "and_then m' f' (g s) = (fst (and_then m f s), g (snd (and_then m f s))) \<and>
      I (snd (and_then m f s))"
  proof (cases r)
    case (Ok a)
    with assms(2) [OF I] r have "sim I g (f a) (f' a)" by (intro assms(3)) simp
    from simD1 [OF this t] simD2 [OF this t] show ?thesis by (simp add: and_then_def r m' Ok)
  qed (simp_all add: and_then_def r m' t)
qed

lemma sim_and_then [sim_intros]:
  "sim I g m m' \<Longrightarrow> (\<And>a. sim I g (f a) (f' a)) \<Longrightarrow> sim I g (and_then m f) (and_then m' f')"
  by (rule sim_and_then_fact [where Q = "\<lambda>_. True"]) auto

lemma sim_seq [sim_intros]: "sim I g m m' \<Longrightarrow> sim I g n n' \<Longrightarrow> sim I g (seq m n) (seq m' n')"
  unfolding seq_def by (rule sim_and_then)

lemma sim_if [sim_intros]:
  "(b \<Longrightarrow> sim I g m m') \<Longrightarrow> (\<not> b \<Longrightarrow> sim I g n n') \<Longrightarrow>
   sim I g (if b then m else n) (if b then m' else n')"
  by simp

lemma sim_let [sim_intros]:
  "(\<And>x. x = t \<Longrightarrow> sim I g (f x) (f' x)) \<Longrightarrow> sim I g (let x = t in f x) (let x = t in f' x)"
  by simp

lemma sim_case_prod [sim_intros]:
  "(\<And>a b. sim I g (f a b) (f' a b)) \<Longrightarrow>
   sim I g (case x of (a, b) \<Rightarrow> f a b) (case x of (a, b) \<Rightarrow> f' a b)"
  by (cases x) simp

lemma sim_if_some [sim_intros]:
  "(\<And>x. sim I g (f x) (f' x)) \<Longrightarrow> sim I g (if_some x f) (if_some x f')"
  by (cases x) (simp_all add: if_some_def sim_intros)

lemma sim_spawn_blocking [sim_intros]:
  assumes "\<And>s. I s \<Longrightarrow> RUNTIME (g s) = RUNTIME s" and "sim I g m m'"
  shows "sim I g (spawn_blocking RUNTIME m) (spawn_blocking RUNTIME m')"
  using assms unfolding sim_def spawn_blocking_def
  by (auto split: prod.splits outcome.splits)

section \<open>Two file systems side by side\<close>

definition set_injectors :: "MultiInjector \<Rightarrow> ('w, 'f, 'd) st \<Rightarrow> ('w, 'f, 'd) st" where
  "set_injectors is s = s\<lparr>hookfs := (hookfs s)\<lparr>hf_injector := is\<rparr>\<rparr>"

lemma set_injectors_simps [simp]:
  "hookfs (set_injectors is s) = (hookfs s)\<lparr>hf_injector := is\<rparr>"
  "world (set_injectors is s) = world s"
  "RUNTIME (set_injectors is s) = RUNTIME s"
  "set_injectors is (s\<lparr>world := w\<rparr>) = (set_injectors is s)\<lparr>world := w\<rparr>"
  by (simp_all add: set_injectors_def)

lemma set_injectors_same: "hf_injector (hookfs s) = is \<Longrightarrow> set_injectors is s = s"
  by (auto simp: set_injectors_def)

text \<open>The same system calls on everything below \<open>root\<close>; a link may point anywhere.\<close>

definition same_below :: "path \<Rightarrow> ('w, 'f, 'd) env \<Rightarrow> ('w, 'f, 'd) env \<Rightarrow> bool" where
  "same_below root E E' \<longleftrightarrow>
     files E' = files E \<and> dirs E' = dirs E \<and> nix E' = nix E \<and>
     os_pread (io E') = os_pread (io E) \<and> os_pwrite (io E') = os_pwrite (io E) \<and>
     os_fsync (io E') = os_fsync (io E) \<and> os_close (io E') = os_close (io E) \<and>
     os_dir_iter (io E') = os_dir_iter (io E) \<and> os_closedir (io E') = os_closedir (io E) \<and>
     os_errno (io E') = os_errno (io E) \<and>
     (\<forall>p. below p root \<longrightarrow>
        os_lstat (fs E') p = os_lstat (fs E) p \<and> os_fchownat (fs E') p = os_fchownat (fs E) p \<and>
        os_fchmodat (fs E') p = os_fchmodat (fs E) p \<and> os_truncate (fs E') p = os_truncate (fs E) p \<and>
        os_utimensat (fs E') p = os_utimensat (fs E) p \<and> os_readlink (fs E') p = os_readlink (fs E) p \<and>
        os_mknod (fs E') p = os_mknod (fs E) p \<and> os_mkdir (fs E') p = os_mkdir (fs E) p \<and>
        os_unlink (fs E') p = os_unlink (fs E) p \<and> os_rmdir (fs E') p = os_rmdir (fs E) p \<and>
        os_access (fs E') p = os_access (fs E) p \<and>
        (\<forall>link. os_symlinkat (fs E') link p = os_symlinkat (fs E) link p) \<and>
        (\<forall>q. below q root \<longrightarrow>
           os_renameat (fs E') p q = os_renameat (fs E) p q \<and> os_linkat (fs E') p q = os_linkat (fs E) p q) \<and>
        os_open (io E') p = os_open (io E) p \<and> os_opendir (io E') p = os_opendir (io E) p \<and>
        os_open_sync_all (io E') p = os_open_sync_all (io E) p \<and> os_statfs (io E') p = os_statfs (io E) p \<and>
        os_lsetxattr (xattr E') p = os_lsetxattr (xattr E) p \<and>
        os_lgetxattr (xattr E') p = os_lgetxattr (xattr E) p \<and>
        os_llistxattr (xattr E') p = os_llistxattr (xattr E) p \<and>
        os_lremovexattr (xattr E') p = os_lremovexattr (xattr E) p)"

definition no_mistakes :: "MultiInjector \<Rightarrow> bool" where
  "no_mistakes is \<longleftrightarrow> list_all (\<lambda>i. case i of Mistake _ \<Rightarrow> False | _ \<Rightarrow> True) is"

text \<open>\<open>side\<close> relates the two systems: the injectors and the library are the same, or injection
  is off and neither list of injectors damages data.\<close>

definition side ::
  "('w, 'f, 'd) env \<Rightarrow> ('w, 'f, 'd) env \<Rightarrow> path \<Rightarrow> path \<Rightarrow> MultiInjector \<Rightarrow> MultiInjector \<Rightarrow>
   ('f, 'd) HookFs \<Rightarrow> bool" where
  "side E E' mount root is is' h \<longleftrightarrow>
     env_ok E \<and> has_root root \<and> same_below root E E' \<and> HookFs_rooted E mount root h \<and>
     hf_injector h = is \<and>
     (lib E' = lib E \<and> is' = is \<or> \<not> enable_injection h \<and> no_mistakes is \<and> no_mistakes is')"

abbreviation in_step ::
  "('w, 'f, 'd) env \<Rightarrow> ('w, 'f, 'd) env \<Rightarrow> path \<Rightarrow> path \<Rightarrow> MultiInjector \<Rightarrow> MultiInjector \<Rightarrow>
   ('w, 'f, 'd, 'a) fs_prog \<Rightarrow> ('w, 'f, 'd, 'a) fs_prog \<Rightarrow> bool" where
  "in_step E E' mount root is is' \<equiv> sim (\<lambda>s. side E E' mount root is is' (hookfs s)) (set_injectors is')"

lemma no_mistakes_write:
  "no_mistakes is \<Longrightarrow> MultiInjector_inject_write_data L is p data = return data"
  unfolding no_mistakes_def by (induction "is") (auto split: injector.splits)

section \<open>Steps that do not depend on the side\<close>

lemma side_slabs: "side E E' mount root is is' h \<Longrightarrow> files E' = files E \<and> dirs E' = dirs E"
  by (simp add: side_def same_below_def)

lemma step_nix_call:
  "(\<And>h. side E E' mount root is is' h \<Longrightarrow> f' = f) \<Longrightarrow>
   in_step E E' mount root is is' (nix_call f) (nix_call f')"
  by (rule simI [OF _ keeps_nix_call [where P = "side E E' mount root is is'"]])
     (auto simp: nix_call_def split: prod.splits)

lemma step_libc_call:
  "(\<And>h. side E E' mount root is is' h \<Longrightarrow> f' = f) \<Longrightarrow>
   in_step E E' mount root is is' (libc_call f) (libc_call f')"
  by (rule simI [OF _ keeps_libc_call [where P = "side E E' mount root is is'"]])
     (auto simp: libc_call_def split: prod.splits)

lemma step_last_error [sim_intros]:
  "in_step E E' mount root is is' (last_error E t) (last_error E' t)"
  by (rule simI [OF _ keeps_last_error]) (auto simp: last_error_def side_def same_below_def)

lemma step_self:
  fixes E :: "('w, 'f, 'd) env"
  assumes "\<And>h. side E E' mount root is is' h \<Longrightarrow>
    in_step E E' mount root is is' (f h) (f' (h\<lparr>hf_injector := is'\<rparr>))"
  shows "in_step E E' mount root is is' (and_then self f) (and_then self f')"
  unfolding sim_def
proof (intro allI impI)
  fix s :: "('w, 'f, 'd) st" assume s: "side E E' mount root is is' (hookfs s)"
  from simD1 [OF assms [OF s], of s] simD2 [OF assms [OF s], of s] s
  show "and_then self f' (set_injectors is' s) =
      (fst (and_then self f s), set_injectors is' (snd (and_then self f s))) \<and>
      side E E' mount root is is' (hookfs (snd (and_then self f s)))"
    by (simp add: self_def run_simps)
qed

lemma step_get_path [sim_intros]: "in_step E E' mount root is is' (get_path ino) (get_path ino)"
  unfolding get_path_def by (rule step_self) (simp add: sim_intros)

lemma step_at_path [sim_intros]:
  fixes E :: "('w, 'f, 'd) env"
  assumes "\<And>p. below p root \<Longrightarrow> in_step E E' mount root is is' (f p) (f' p)"
  shows "in_step E E' mount root is is' (and_then (get_path ino) f) (and_then (get_path ino) f')"
proof (rule sim_and_then_fact [OF step_get_path])
  show "below p root" if "side E E' mount root is is' (hookfs s)" "fst (get_path ino s) = Ok p"
    for s :: "('w, 'f, 'd) st" and p
    using ensuresD2 [OF get_path_rooted, of E mount root s ino p] that by (simp add: side_def)
qed (rule assms)

lemma step_at_cstring [sim_intros]:
  assumes "in_step E E' mount root is is' (f p) (f' p)"
  shows "in_step E E' mount root is is' (and_then (cstring p) f) (and_then (cstring p) f')"
  by (rule sim_and_then_fact [where Q = "\<lambda>c. c = p", OF sim_cstring])
     (use assms in \<open>auto simp: cstring_def cstring_new_def run_simps split: option.splits if_splits\<close>)

lemma step_get_file [sim_intros]: "in_step E E' mount root is is' (get_file E fh) (get_file E' fh)"
  unfolding get_file_def by (rule step_self) (simp add: side_def same_below_def sim_intros)

lemma step_get_dir [sim_intros]: "in_step E E' mount root is is' (get_dir E fh) (get_dir E' fh)"
  unfolding get_dir_def by (rule step_self) (simp add: side_def same_below_def sim_intros)

lemma step_async [sim_intros]:
  "below p root \<Longrightarrow> in_step E E' mount root is is' (async_setxattr E p n d fl) (async_setxattr E' p n d fl)"
  "below p root \<Longrightarrow> in_step E E' mount root is is' (async_getxattr E p n sz) (async_getxattr E' p n sz)"
  "in_step E E' mount root is is' (async_read E fd cnt off) (async_read E' fd cnt off)"
  "in_step E E' mount root is is' (async_write E fd d off) (async_write E' fd d off)"
  "below p root \<Longrightarrow> in_step E E' mount root is is' (async_stat E p) (async_stat E' p)"
  "below p root \<Longrightarrow> in_step E E' mount root is is' (async_lchown E p uid gid) (async_lchown E' p uid gid)"
  "below p root \<Longrightarrow> in_step E E' mount root is is' (async_fchmodat E p mode) (async_fchmodat E' p mode)"
  "below p root \<Longrightarrow> in_step E E' mount root is is' (async_truncate E p len) (async_truncate E' p len)"
  "below p root \<Longrightarrow> in_step E E' mount root is is' (async_utimensat E p ts) (async_utimensat E' p ts)"
  "below p root \<Longrightarrow> in_step E E' mount root is is' (async_readlink E p) (async_readlink E' p)"
  "below p root \<Longrightarrow> in_step E E' mount root is is' (async_mknod E p mode rdev) (async_mknod E' p mode rdev)"
  "below p root \<Longrightarrow> in_step E E' mount root is is' (async_mkdir E p mode) (async_mkdir E' p mode)"
  "below p root \<Longrightarrow> in_step E E' mount root is is' (async_unlink E p) (async_unlink E' p)"
  "below p root \<Longrightarrow> in_step E E' mount root is is' (async_rmdir E p) (async_rmdir E' p)"
  "below p root \<Longrightarrow> in_step E E' mount root is is' (async_open E p fl mode) (async_open E' p fl mode)"
  "in_step E E' mount root is is' (async_close E fd) (async_close E' fd)"
  unfolding async_defs
  by (intro sim_intros step_nix_call step_libc_call; simp add: side_def same_below_def)+

section \<open>Injection steps\<close>

lemma inject_off: "\<not> enable_injection (hookfs s) \<Longrightarrow> inject E method path s = (Ok (), s)"
  by (simp add: inject_def self_def run_simps)

lemma inject_attr_off: "\<not> enable_injection (hookfs s) \<Longrightarrow> inject_attr E attr path s = (Ok attr, s)"
  by (simp add: inject_attr_def self_def run_simps)

lemma inject_reply_off:
  "\<not> enable_injection (hookfs s) \<Longrightarrow> inject_reply E method path reply s = (Ok reply, s)"
  by (simp add: inject_reply_def self_def run_simps)

lemma step_switched:
  fixes E :: "('w, 'f, 'd) env"
  assumes off: "\<And>s. \<not> enable_injection (hookfs s) \<Longrightarrow> m s = (Ok a, s)"
      "\<And>s. \<not> enable_injection (hookfs s) \<Longrightarrow> m' s = (Ok a, s)"
    and lib: "lib E' = lib E \<Longrightarrow> m' = m"
    and keeps: "\<And>P. keeps (\<lambda>s. P (hookfs s)) m"
  shows "in_step E E' mount root is is' m m'"
proof (rule simI [OF _ keeps])
  fix s :: "('w, 'f, 'd) st" assume s: "side E E' mount root is is' (hookfs s)"
  show "m' (set_injectors is' s) = (fst (m s), set_injectors is' (snd (m s)))"
  proof (cases "enable_injection (hookfs s)")
    case True
    with s have "lib E' = lib E" "is' = is" "hf_injector (hookfs s) = is" by (auto simp: side_def)
    then show ?thesis
      using keepsD [OF keeps [where P = "\<lambda>h. hf_injector h = is"], of s] lib
      by (simp add: set_injectors_same)
  qed (simp add: off)
qed

lemma step_inject [sim_intros]: "in_step E E' mount root is is' (inject E method p) (inject E' method p)"
  by (rule step_switched [OF inject_off inject_off _ keeps_inject]) (simp_all add: inject_def cong: if_cong)

lemma step_inject_attr [sim_intros]:
  "in_step E E' mount root is is' (inject_attr E attr p) (inject_attr E' attr p)"
  by (rule step_switched [OF inject_attr_off inject_attr_off _ keeps_inject_macros(6)])
     (simp_all add: inject_attr_def cong: if_cong)

lemma step_inject_reply [sim_intros]:
  "in_step E E' mount root is is' (inject_reply E method p r) (inject_reply E' method p r)"
  by (rule step_switched [OF inject_reply_off inject_reply_off _ keeps_inject_macros(7)])
     (simp_all add: inject_reply_def cong: if_cong)

lemma sim_case_sum [sim_intros]:
  "(\<And>a. x = Inl a \<Longrightarrow> sim I g (f a) (f' a)) \<Longrightarrow> (\<And>b. x = Inr b \<Longrightarrow> sim I g (k b) (k' b)) \<Longrightarrow>
   sim I g (case x of Inl a \<Rightarrow> f a | Inr b \<Rightarrow> k b) (case x of Inl a \<Rightarrow> f' a | Inr b \<Rightarrow> k' b)"
  by (cases x) auto

lemma step_inject_macros [sim_intros]:
  "in_step E E' mount root is is' (inject_with_ino E method ino) (inject_with_ino E' method ino)"
  "in_step E E' mount root is is' (inject_with_fh E method fh) (inject_with_fh E' method fh)"
  "in_step E E' mount root is is' (inject_with_dir_fh E method fh) (inject_with_dir_fh E' method fh)"
  "in_step E E' mount root is is' (inject_with_parent_and_name E method ino name)
     (inject_with_parent_and_name E' method ino name)"
  unfolding inject_with_ino_def inject_with_fh_def inject_with_dir_fh_def inject_with_parent_and_name_def
  by (rule step_self, drule side_slabs, simp, intro sim_intros)+

lemma step_world:
  "(\<And>h. side E E' mount root is is' h \<Longrightarrow> m' = m) \<Longrightarrow>
   in_step E E' mount root is is' (on_world m) (on_world m')"
  by (rule simI [OF _ keeps_on_world [where P = "side E E' mount root is is'"]])
     (auto simp: on_world_def run_simps)

lemma step_inject_write_data [sim_intros]:
  "in_step E E' mount root is is' (inject_write_data E fh data) (inject_write_data E' fh data)"
  unfolding inject_write_data_def
proof (rule step_self)
  fix h assume h: "side E E' mount root is is' h"
  then have inj: "MultiInjector_inject_write_data (lib E') is' p data =
      MultiInjector_inject_write_data (lib E) (hf_injector h) p data" for p
    by (auto simp: side_def no_mistakes_write)
  have rp: "HookFs_rebuild_path (h\<lparr>hf_injector := is'\<rparr>) = HookFs_rebuild_path h"
    by (simp add: HookFs_rebuild_path_def fun_eq_iff split: option.split)
  show "in_step E E' mount root is is'
      (case FhMap_get (files E) (opened_files h) fh of
         Inl _ \<Rightarrow> return data
       | Inr file \<Rightarrow> and_then (of_result (HookFs_rebuild_path h (file_original_path file)))
           (\<lambda>p. on_world (MultiInjector_inject_write_data (lib E) (hf_injector h) p data)))
      (case FhMap_get (files E') (opened_files (h\<lparr>hf_injector := is'\<rparr>)) fh of
         Inl _ \<Rightarrow> return data
       | Inr file \<Rightarrow> and_then (of_result (HookFs_rebuild_path (h\<lparr>hf_injector := is'\<rparr>) (file_original_path file)))
           (\<lambda>p. on_world (MultiInjector_inject_write_data (lib E') (hf_injector (h\<lparr>hf_injector := is'\<rparr>)) p data)))"
    using side_slabs [OF h] by simp (intro sim_intros step_world; simp add: rp inj sim_of_result)
qed

lemma step_get_file_attr [sim_intros]:
  "below p root \<Longrightarrow> in_step E E' mount root is is' (get_file_attr E p) (get_file_attr E' p)"
  unfolding get_file_attr_def by (intro sim_intros)

section \<open>Steps that write the tables\<close>

lemma side_inode_map:
  "side E E' mount root is is' h \<Longrightarrow> inode_map.rooted root (f (inode_map h)) \<Longrightarrow>
   side E E' mount root is is' (h\<lparr>inode_map := f (inode_map h)\<rparr>)"
  by (simp add: side_def HookFs_rooted_def)

lemma step_update_inode_map:
  assumes "\<And>m. inode_map.rooted root m \<Longrightarrow> inode_map.rooted root (f m)"
  shows "in_step E E' mount root is is' (update_inode_map f) (update_inode_map f)"
  using assms unfolding sim_def update_inode_map_def
  by (auto simp: run_simps set_injectors_def side_def HookFs_rooted_def)

lemma step_record_path [sim_intros]:
  "below p root \<Longrightarrow> in_step E E' mount root is is' (record_path ino p) (record_path ino p)"
  unfolding record_path_def
  by (rule step_update_inode_map) (simp add: inode_map.rooted_ins inode_map.rooted_inc)

text \<open>A step that keeps the invariant and the fields next to the tables.\<close>

lemma step_tables:
  fixes E :: "('w, 'f, 'd) env"
  assumes "\<And>s. files E' = files E \<Longrightarrow> dirs E' = dirs E \<Longrightarrow> os_closedir (io E') = os_closedir (io E) \<Longrightarrow>
      m' (set_injectors is' s) = (fst (m s), set_injectors is' (snd (m s)))"
    and "env_ok E \<Longrightarrow> keeps (rooted_st E mount root) m"
    and "\<And>inj on. keeps (\<lambda>s. hf_injector (hookfs s) = inj \<and> enable_injection (hookfs s) = on) m"
  shows "in_step E E' mount root is is' m m'"
proof (rule simI)
  show "m' (set_injectors is' s) = (fst (m s), set_injectors is' (snd (m s)))"
    if "side E E' mount root is is' (hookfs s)" for s
    using that assms(1) by (simp add: side_def same_below_def)
  show "keeps (\<lambda>s. side E E' mount root is is' (hookfs s)) m"
    using assms(2) assms(3) unfolding side_def keeps_def by blast
qed

lemma step_insert_file [sim_intros]:
  "below (file_original_path file) root \<Longrightarrow>
   in_step E E' mount root is is' (insert_file E file) (insert_file E' file)"
  by (rule step_tables [OF _ keeps_insert_file])
     (auto simp: insert_file_def set_injectors_def keeps_def split: option.splits)

lemma step_insert_dir [sim_intros]:
  "below (dir_original_path dir) root \<Longrightarrow>
   in_step E E' mount root is is' (insert_dir E dir) (insert_dir E' dir)"
  by (rule step_tables [OF _ keeps_insert_dir])
     (auto simp: insert_dir_def set_injectors_def keeps_def split: option.splits)

lemma step_remove_file [sim_intros]:
  "in_step E E' mount root is is' (remove_file E fh) (remove_file E' fh)"
  by (rule step_tables [OF _ keeps_remove_file])
     (auto simp: remove_file_def set_injectors_def keeps_def split: option.splits)

lemma step_remove_dir [sim_intros]:
  "in_step E E' mount root is is' (remove_dir E fh) (remove_dir E' fh)"
  by (rule step_tables [OF _ keeps_remove_dir])
     (auto simp: remove_dir_def set_injectors_def keeps_def split: option.splits)

lemma step_reply_new_entry [sim_intros]:
  "below p root \<Longrightarrow> in_step E E' mount root is is' (reply_new_entry E p) (reply_new_entry E' p)"
  unfolding reply_new_entry_def by (intro sim_intros)

section \<open>Requests\<close>

text \<open>The system calls made outside the \<open>async_*\<close> helpers, and the flag types.\<close>

lemma step_calls [sim_intros]:
  "below p root \<Longrightarrow>
   in_step E E' mount root is is' (nix_call (os_symlinkat (fs E) link p)) (nix_call (os_symlinkat (fs E') link p))"
  "below p root \<Longrightarrow> below q root \<Longrightarrow>
   in_step E E' mount root is is' (nix_call (os_renameat (fs E) p q)) (nix_call (os_renameat (fs E') p q))"
  "below p root \<Longrightarrow> below q root \<Longrightarrow>
   in_step E E' mount root is is' (nix_call (os_linkat (fs E) p q)) (nix_call (os_linkat (fs E') p q))"
  "in_step E E' mount root is is' (nix_call (os_fsync (io E) fd)) (nix_call (os_fsync (io E') fd))"
  "below p root \<Longrightarrow>
   in_step E E' mount root is is' (nix_call (os_opendir (io E) p fl md)) (nix_call (os_opendir (io E') p fl md))"
  "in_step E E' mount root is is' (libc_call (os_dir_iter (io E) d)) (libc_call (os_dir_iter (io E') d))"
  "below p root \<Longrightarrow>
   in_step E E' mount root is is' (libc_call (os_open_sync_all (io E) p)) (libc_call (os_open_sync_all (io E') p))"
  "below p root \<Longrightarrow>
   in_step E E' mount root is is' (nix_call (os_statfs (io E) p)) (nix_call (os_statfs (io E') p))"
  "below p root \<Longrightarrow>
   in_step E E' mount root is is' (libc_call (os_llistxattr (xattr E) p n)) (libc_call (os_llistxattr (xattr E') p n))"
  "below p root \<Longrightarrow>
   in_step E E' mount root is is' (libc_call (os_lremovexattr (xattr E) p x)) (libc_call (os_lremovexattr (xattr E') p x))"
  "below p root \<Longrightarrow>
   in_step E E' mount root is is' (nix_call (os_access (fs E) p am)) (nix_call (os_access (fs E') p am))"
  by (rule step_nix_call step_libc_call; simp add: side_def same_below_def)+

lemma step_names:
  assumes "has_root root" and "nix E' = nix E"
  shows "name_ok name \<Longrightarrow> in_step E E' mount root is is' (HookFs_lookup E p name) (HookFs_lookup E' p name)"
    and "name_ok name \<Longrightarrow> in_step E E' mount root is is'
      (HookFs_mknod E p name mode rdev uid gid) (HookFs_mknod E' p name mode rdev uid gid)"
    and "name_ok name \<Longrightarrow> in_step E E' mount root is is'
      (HookFs_mkdir E p name mode uid gid) (HookFs_mkdir E' p name mode uid gid)"
    and "name_ok name \<Longrightarrow> in_step E E' mount root is is' (HookFs_unlink E p name) (HookFs_unlink E' p name)"
    and "name_ok name \<Longrightarrow> in_step E E' mount root is is' (HookFs_rmdir E p name) (HookFs_rmdir E' p name)"
    and "name_ok name \<Longrightarrow> in_step E E' mount root is is'
      (HookFs_symlink E p name link uid gid) (HookFs_symlink E' p name link uid gid)"
    and "name_ok name \<Longrightarrow> in_step E E' mount root is is' (HookFs_link E ino p name) (HookFs_link E' ino p name)"
    and "name_ok name \<Longrightarrow> in_step E E' mount root is is'
      (HookFs_create E p name mode flags uid gid) (HookFs_create E' p name mode flags uid gid)"
    and "name_ok name \<Longrightarrow> name_ok newname \<Longrightarrow> in_step E E' mount root is is'
      (HookFs_rename E p name np newname) (HookFs_rename E' p name np newname)"
  unfolding handler_defs assms(2)
  by (intro sim_intros step_update_inode_map inode_map.rooted_ins inode_map.rooted_rem;
      simp add: below_child assms)+

lemma step_release: "in_step E E' mount root is is' (HookFs_release E fh) (HookFs_release E' fh)"
  unfolding HookFs_release_def by (rule step_self, drule side_slabs, simp, intro sim_intros)

lemma step_statfs: "in_step E E' mount root is is' (HookFs_statfs E ino) (HookFs_statfs E' ino)"
proof -
  have "below (original_path h) root" if "side E E' mount root is is' h" for h
    using that by (simp add: side_def HookFs_rooted_def)
  then show ?thesis
    unfolding HookFs_statfs_def by (intro sim_intros step_self; simp; intro sim_intros; simp)
qed

lemma step_others:
  assumes "nix E' = nix E"
  shows "in_step E E' mount root is is' (HookFs_getattr E ino) (HookFs_getattr E' ino)"
    and "in_step E E' mount root is is' (HookFs_setattr E ino mode uid' gid' sz atime mtime)
      (HookFs_setattr E' ino mode uid' gid' sz atime mtime)"
    and "in_step E E' mount root is is' (HookFs_readlink E ino) (HookFs_readlink E' ino)"
    and "in_step E E' mount root is is' (HookFs_open E ino flags) (HookFs_open E' ino flags)"
    and "in_step E E' mount root is is' (HookFs_read E fh offset sz') (HookFs_read E' fh offset sz')"
    and "in_step E E' mount root is is' (HookFs_write E fh offset data) (HookFs_write E' fh offset data)"
    and "in_step E E' mount root is is' (HookFs_flush E fh) (HookFs_flush E' fh)"
    and "in_step E E' mount root is is' (HookFs_fsync E fh) (HookFs_fsync E' fh)"
    and "in_step E E' mount root is is' (HookFs_opendir E ino flags) (HookFs_opendir E' ino flags)"
    and "in_step E E' mount root is is' (HookFs_readdir E full fh offset) (HookFs_readdir E' full fh offset)"
    and "in_step E E' mount root is is' (HookFs_releasedir E fh) (HookFs_releasedir E' fh)"
    and "in_step E E' mount root is is' (HookFs_fsyncdir E ino) (HookFs_fsyncdir E' ino)"
    and "in_step E E' mount root is is' (HookFs_setxattr E ino name val flags) (HookFs_setxattr E' ino name val flags)"
    and "in_step E E' mount root is is' (HookFs_getxattr E ino name sz') (HookFs_getxattr E' ino name sz')"
    and "in_step E E' mount root is is' (HookFs_listxattr E ino sz') (HookFs_listxattr E' ino sz')"
    and "in_step E E' mount root is is' (HookFs_removexattr E ino name) (HookFs_removexattr E' ino name)"
    and "in_step E E' mount root is is' (HookFs_access E ino am) (HookFs_access E' ino am)"
    and "in_step E E' mount root is is' HookFs_getlk HookFs_getlk"
    and "in_step E E' mount root is is' HookFs_setlk HookFs_setlk"
    and "in_step E E' mount root is is' HookFs_bmap HookFs_bmap"
    and "in_step E E' mount root is is' (HookFs_forget ino nlookup) (HookFs_forget ino nlookup)"
  unfolding handler_defs assms
  by (intro sim_intros step_update_inode_map inode_map.rooted_dec; simp)+

lemma task_in_step:
  fixes E :: "('w, 'f, 'd) env" and s :: "('w, 'f, 'd) st"
  assumes "in_step E E' mount root is is' m m'" and "side E E' mount root is is' (hookfs s)"
  shows "spawn_reply ok m' (set_injectors is' s) =
      (fst (spawn_reply ok m s), set_injectors is' (snd (spawn_reply ok m s))) \<and>
    side E E' mount root is is' (hookfs (snd (spawn_reply ok m s)))"
  using simD1 [OF assms(1), of s] simD2 [OF assms(1), of s] assms(2)
  by (auto simp: spawn_reply_def spawn_def split: prod.splits)

lemma serve_in_step:
  fixes E :: "('w, 'f, 'd) env" and s :: "('w, 'f, 'd) st"
  assumes "side E E' mount root is is' (hookfs s)" and "request_ok r"
  shows "serve E' r (set_injectors is' s) = (fst (serve E r s), set_injectors is' (snd (serve E r s))) \<and>
    side E E' mount root is is' (hookfs (snd (serve E r s)))"
proof -
  from assms(1) have root: "has_root root" and nix: "nix E' = nix E"
    by (simp_all add: side_def same_below_def)
  note steps = step_names [OF root nix] step_others [OF nix] step_release step_statfs
  show ?thesis
  proof (cases r)
    case (Req_forget ino n)
    have "in_step E E' mount root is is' (HookFs_forget ino n) (HookFs_forget ino n)" by (rule steps)
    from simD1 [OF this, of s] simD2 [OF this, of s] assms(1) show ?thesis
      by (simp add: Req_forget AsyncFileSystem_forget_def spawn_def)
  next
    case (Req_readdir full fh offset)
    show ?thesis
      unfolding Req_readdir serve.simps readdir_task by (rule task_in_step [OF _ assms(1)]) (rule steps)
  qed (use assms(2) in \<open>simp_all add: callback_defs steps [THEN task_in_step [OF _ assms(1)]]\<close>)
qed

end
