(* ===== verification/Fs_Rules.thy ===== *)
theory Fs_Rules
  imports Fs_Simulation
begin

text \<open>
  Equations that run the steps of a request on a state: the blocking calls while the runtime is
  there, the tables, and the injection macros while injection is off.
\<close>

lemma self_run [run_simps]: "self s = (Ok (hookfs s), s)"
  by (simp add: self_def run_simps)

lemma of_result_run [run_simps]: "of_result r s = (case r of Inl e \<Rightarrow> (Err e, s) | Inr a \<Rightarrow> (Ok a, s))"
  by (simp add: of_result_def run_simps split: sum.splits)

lemma get_path_run [run_simps]:
  "get_path ino s = (case InodeMap_get_path (inode_map (hookfs s)) ino of
     Inl e \<Rightarrow> (Err e, s) | Inr p \<Rightarrow> (Ok p, s))"
  by (simp add: get_path_def run_simps)

lemma get_file_run [run_simps]:
  "get_file E fh s = (case FhMap_get (files E) (opened_files (hookfs s)) fh of
     Inl e \<Rightarrow> (Err e, s) | Inr file \<Rightarrow> (Ok file, s))"
  by (simp add: get_file_def run_simps)

lemma get_dir_run [run_simps]:
  "get_dir E fh s = (case FhMap_get (dirs E) (opened_dirs (hookfs s)) fh of
     Inl e \<Rightarrow> (Err e, s) | Inr dir \<Rightarrow> (Ok dir, s))"
  by (simp add: get_dir_def run_simps FhMap_get_def FhMap_get_mut_def)

lemma nix_call_run [run_simps]:
  "nix_call f s = (of_nix (fst (f (world s))), s\<lparr>world := snd (f (world s))\<rparr>)"
  by (simp add: nix_call_def split: prod.splits)

lemma libc_call_run [run_simps]:
  "libc_call f s = (Ok (fst (f (world s))), s\<lparr>world := snd (f (world s))\<rparr>)"
  by (simp add: libc_call_def split: prod.splits)

lemma last_error_run [run_simps]:
  "last_error E t s = (Err (HookFsError_last (os_errno (io E) t (world s))), s)"
  by (simp add: last_error_def)

lemma cstring_run [run_simps]:
  "cstring p s = (if CHR 0x00 \<in> set p then (Err from_NulError, s) else (Ok p, s))"
  by (simp add: cstring_def cstring_new_def run_simps)

lemma update_inode_map_run [run_simps]:
  "update_inode_map f s = (Ok (), s\<lparr>hookfs := (hookfs s)\<lparr>inode_map := f (inode_map (hookfs s))\<rparr>\<rparr>)"
  by (simp add: update_inode_map_def run_simps)

lemma on_world_run [run_simps]:
  "on_world m s = (fst (m (world s)), s\<lparr>world := snd (m (world s))\<rparr>)"
  by (simp add: on_world_def run_simps)

text \<open>With a runtime, a blocking call that does not panic is the call itself.\<close>

lemma spawn_nix_run [run_simps]:
  "RUNTIME s \<Longrightarrow> spawn_blocking RUNTIME (nix_call f) s =
     (of_nix (fst (f (world s))), s\<lparr>world := snd (f (world s))\<rparr>)"
  by (cases "fst (f (world s))") (simp_all add: spawn_blocking_def nix_call_run)

lemma spawn_libc_run [run_simps]:
  "RUNTIME s \<Longrightarrow> spawn_blocking RUNTIME (libc_call f) s =
     (Ok (fst (f (world s))), s\<lparr>world := snd (f (world s))\<rparr>)"
  by (simp add: spawn_blocking_def libc_call_run)

lemma async_nix_run [run_simps]:
  assumes "RUNTIME s"
  shows "async_stat E p s = (of_nix (fst (os_lstat (fs E) p (world s))), s\<lparr>world := snd (os_lstat (fs E) p (world s))\<rparr>)"
    and "async_unlink E p s = (of_nix (fst (os_unlink (fs E) p (world s))), s\<lparr>world := snd (os_unlink (fs E) p (world s))\<rparr>)"
    and "async_open E p fl mode s =
      (of_nix (fst (os_open (io E) p fl mode (world s))), s\<lparr>world := snd (os_open (io E) p fl mode (world s))\<rparr>)"
    and "async_close E fd s =
      (of_nix (fst (os_close (io E) fd (world s))), s\<lparr>world := snd (os_close (io E) fd (world s))\<rparr>)"
  using assms by (simp_all add: async_defs run_simps)

lemma async_read_run [run_simps]:
  assumes "RUNTIME s" and "os_pread (io E) fd n off (world s) = ((ret, bytes), w)"
  shows "async_read E fd n off s =
    (if ret = - 1 then Err (HookFsError_last (os_errno (io E) Blocking w))
     else Ok (resize (buffer_after n bytes) (unat ret) 0), s\<lparr>world := w\<rparr>)"
  using assms by (simp add: async_defs spawn_blocking_def run_simps)

lemma async_write_run [run_simps]:
  assumes "RUNTIME s" and "os_pwrite (io E) fd d off (world s) = (ret, w)"
  shows "async_write E fd d off s =
    (if ret = - 1 then Err (HookFsError_last (os_errno (io E) Blocking w)) else Ok ret, s\<lparr>world := w\<rparr>)"
  using assms by (simp add: async_defs spawn_blocking_def run_simps)

lemma inject_macros_off [run_simps]:
  assumes "\<not> enable_injection (hookfs s)"
  shows "inject_with_ino E method ino s = (Ok (), s)"
    and "inject_with_fh E method fh s = (Ok (), s)"
    and "inject_with_dir_fh E method fh s = (Ok (), s)"
    and "inject_with_parent_and_name E method ino name s = (Ok (), s)"
  using assms
  by (simp_all add: inject_with_ino_def inject_with_fh_def inject_with_dir_fh_def
      inject_with_parent_and_name_def run_simps inject_off split: sum.splits)

lemmas inject_off_run [run_simps] = inject_off inject_attr_off inject_reply_off

lemma get_file_attr_off [run_simps]:
  "RUNTIME s \<Longrightarrow> \<not> enable_injection (hookfs s) \<Longrightarrow>
   get_file_attr E p s = (case fst (os_lstat (fs E) p (world s)) of
       Inl e \<Rightarrow> Err (from_nix_Error e)
     | Inr st \<Rightarrow> convert_libc_stat_to_fuse_stat st, s\<lparr>world := snd (os_lstat (fs E) p (world s))\<rparr>)"
  by (auto simp: get_file_attr_def run_simps split: sum.splits outcome.splits)

lemma spawn_reply_run [run_simps]:
  "RUNTIME s \<Longrightarrow> spawn_reply ok f s = (FsReply_reply ok (fst (f s)), snd (f s))"
  by (simp add: spawn_reply_def spawn_def split: prod.splits)

end
