(* ===== verification/Sample.thy ===== *)
theory Sample
  imports Fs_Rules
begin

text \<open>
  A small concrete environment on which the assumptions about the libraries and the kernel
  hold: the directory \<open>/data\<close> with one file \<open>a\<close> (inode 7) and a list for every slab. The
  world counts the system calls. The general theorems are applied to it.
\<close>

definition sample_lib :: "nat lib" where
  "sample_lib =
     \<lparr>rng_gen_f64 = (\<lambda>w. (0, w)),
      rng_gen_range = (\<lambda>lo hi w. (lo, w)),
      rng_fill = (\<lambda>n w. (replicate n 42, w)),
      delay_for = (\<lambda>d w. w),
      Pattern_new = (\<lambda>s. Some (Pattern s)),
      matches_path_with = (\<lambda>pat p opts. pat = Pattern p),
      Errno_from_i32 = (\<lambda>n. n)\<rparr>"

lemma sample_rand_ok: "rand_ok sample_lib"
  by (simp add: rand_ok_def sample_lib_def)

definition sample_stat :: "u32 \<Rightarrow> u64 \<Rightarrow> libc_stat" where
  "sample_stat mode ino =
     \<lparr>st_mode = mode, st_ino = ino, st_size = 5, st_blocks = 1, st_atime = 10, st_atime_nsec = 0,
      st_mtime = 20, st_mtime_nsec = 0, st_ctime = 30, st_ctime_nsec = 0, st_nlink = 1, st_uid = 0,
      st_gid = 0, st_rdev = 0, st_blksize = 512\<rparr>"

definition sample_fs :: "nat fs_calls" where
  "sample_fs =
     \<lparr>os_lstat = (\<lambda>p w. (if p = ''/data/a'' then Inr (sample_stat 0x81A4 7)
                        else if p = ''/data'' then Inr (sample_stat 0x41ED 2)
                        else Inl (nix_Sys 2), Suc w)),
      os_fchownat = (\<lambda>p uid gid w. (Inr (), Suc w)),
      os_fchmodat = (\<lambda>p mode w. (Inr (), Suc w)),
      os_truncate = (\<lambda>p len w. (Inr (), Suc w)),
      os_utimensat = (\<lambda>p ts w. (0, Suc w)),
      os_readlink = (\<lambda>p w. (Inl (nix_Sys 22), Suc w)),
      os_mknod = (\<lambda>p mode rdev w. (0, Suc w)),
      os_mkdir = (\<lambda>p mode w. (Inr (), Suc w)),
      os_unlink = (\<lambda>p w. (Inr (), Suc w)),
      os_rmdir = (\<lambda>p w. (0, Suc w)),
      os_symlinkat = (\<lambda>link p w. (Inr (), Suc w)),
      os_renameat = (\<lambda>p q w. (Inr (), Suc w)),
      os_linkat = (\<lambda>p q w. (Inr (), Suc w)),
      os_access = (\<lambda>p m w. (Inr (), Suc w))\<rparr>"

definition sample_io :: "nat io_calls" where
  "sample_io =
     \<lparr>os_open = (\<lambda>p flags mode w. (Inr 3, Suc w)),
      os_pread = (\<lambda>fd n off w. ((word_of_nat (min n 2), [1, 2]), Suc w)),
      os_pwrite = (\<lambda>fd data off w. (word_of_nat (length data), Suc w)),
      os_fsync = (\<lambda>fd w. (Inr (), Suc w)),
      os_close = (\<lambda>fd w. (Inr (), Suc w)),
      os_opendir = (\<lambda>p flags mode w. (Inr 0, Suc w)),
      os_dir_iter = (\<lambda>d w. ([Inr \<lparr>de_ino = 2, de_name = ''.'', de_type = Some DT_Directory\<rparr>,
                             Inr \<lparr>de_ino = 7, de_name = ''a'', de_type = Some DT_File\<rparr>], Suc w)),
      os_closedir = (\<lambda>d w. Suc w),
      os_open_sync_all = (\<lambda>p w. (True, Suc w)),
      os_statfs = (\<lambda>p w. (Inl (nix_Sys 38), Suc w)),
      os_umask = (\<lambda>m w. Suc w),
      os_errno = (\<lambda>t w. case t of Blocking \<Rightarrow> 61 | Worker \<Rightarrow> 0)\<rparr>"

text \<open>No file has extended attributes: the calls fail and set \<open>errno\<close> on the thread that made
  them.\<close>

definition sample_xattr :: "nat xattr_calls" where
  "sample_xattr =
     \<lparr>os_lsetxattr = (\<lambda>p n d flags w. (0, Suc w)),
      os_lgetxattr = (\<lambda>p n sz w. ((- 1, []), Suc w)),
      os_llistxattr = (\<lambda>p sz w. ((if p = ''/data/a'' then 2 else - 1, [65, 0]), Suc w)),
      os_lremovexattr = (\<lambda>p n w. (- 1, Suc w))\<rparr>"

definition sample_env :: "(nat, File option list, Dir option list) env" where
  "sample_env =
     \<lparr>lib = sample_lib, fs = sample_fs, io = sample_io, xattr = sample_xattr,
      nix = \<lparr>OFlag_from_bits_truncate = (\<lambda>x. x), Mode_from_bits_truncate = (\<lambda>x. x),
             AccessFlags_from_bits_truncate = (\<lambda>x. x)\<rparr>,
      files = list_slab, dirs = list_slab\<rparr>"

lemma sample_env_ok: "env_ok sample_env"
  by (simp add: env_ok_def sample_env_def list_slab_ok)

text \<open>The file system over \<open>/data\<close>, mounted on \<open>/mnt\<close>, before the first request.\<close>

definition sample_st :: "MultiInjector \<Rightarrow> (nat, File option list, Dir option list) st" where
  "sample_st injectors =
     \<lparr>hookfs = HookFs_new sample_env ''/mnt'' ''/data'' injectors, world = 0, RUNTIME = True\<rparr>"

lemmas sample_defs = sample_st_def sample_env_def sample_lib_def sample_fs_def sample_io_def
  sample_xattr_def sample_stat_def list_slab_def

section \<open>The first lookup\<close>

definition sample_attr :: FileAttr where
  "sample_attr =
     \<lparr>fa_ino = 7, fa_size = 5, fa_blocks = 1, fa_atime = SystemTime 10 0, fa_mtime = SystemTime 20 0,
      fa_ctime = SystemTime 30 0, fa_crtime = SystemTime 0 0, fa_kind = RegularFile, fa_perm = 0x1A4,
      fa_nlink = 1, fa_uid = 0, fa_gid = 0, fa_rdev = 0, fa_blksize = 512, fa_padding = 0, fa_flags = 0\<rparr>"

lemma sample_join [simp]: "join ''/data'' ''a'' = ''/data/a''"
  by (simp add: push_def is_sep_def has_root_def)

lemma sample_convert [simp]: "convert_libc_stat_to_fuse_stat (sample_stat 0x81A4 7) = Ok sample_attr"
  by (simp add: convert_libc_stat_to_fuse_stat_def sample_stat_def stat_kind_def S_IF_defs system_time_def
      UNIX_EPOCH_def sample_attr_def add_duration_def duration_from_secs_def duration_from_nanos_def)

definition sample_found :: "MultiInjector \<Rightarrow> (nat, File option list, Dir option list) st" where
  "sample_found injectors = (sample_st injectors)\<lparr>
     hookfs := (hookfs (sample_st injectors))\<lparr>inode_map :=
       [1 \<mapsto> \<lparr>ref_count = 0, paths = [''/data'']\<rparr>, 7 \<mapsto> \<lparr>ref_count = 1, paths = [''/data/a'']\<rparr>]\<rparr>,
     world := 1\<rparr>"

lemma sample_lookup:
  "serve sample_env (Req_lookup 1 ''a'') (sample_st is) =
     (Some (ans_entry TTL sample_attr 0), sample_found is)"
proof -
  have s: "RUNTIME (sample_st is)" "\<not> enable_injection (hookfs (sample_st is))"
    "InodeMap_get_path (inode_map (hookfs (sample_st is))) 1 = Inr ''/data''" "world (sample_st is) = 0"
    by (simp_all add: sample_st_def HookFs_new_def InodeMap_get_path_def InodeMap_insert_path_def
        Node_insert_def Node_default_def Node_get_path_def)
  have stat: "get_file_attr sample_env ''/data/a'' (sample_st is) = (Ok sample_attr, (sample_st is)\<lparr>world := 1\<rparr>)"
    using s by (simp add: get_file_attr_off sample_env_def sample_fs_def)
  have m: "InodeMap_increase_ref 7 (InodeMap_insert_path 7 ''/data/a'' (inode_map (hookfs (sample_st is)))) =
      [1 \<mapsto> \<lparr>ref_count = 0, paths = [''/data'']\<rparr>, 7 \<mapsto> \<lparr>ref_count = 1, paths = [''/data/a'']\<rparr>]"
    by (simp add: sample_st_def HookFs_new_def InodeMap_insert_path_def InodeMap_increase_ref_def
        Node_insert_def Node_default_def)
  have i: "fa_ino sample_attr = 7" by (simp add: sample_attr_def)
  show ?thesis
    using s by (simp add: AsyncFileSystem_lookup_def HookFs_lookup_def run_simps record_path_def Let_def
        sample_found_def stat m i Entry_new_def FsReply_reply_def)
qed

end
