(* ===== verification/Fs_Runs.thy ===== *)
theory Fs_Runs
  imports Sample
begin

text \<open>
  Runs of the file system: requests, the switch of \<open>enable_injection\<close> and \<open>disable_injection\<close>,
  new injectors from the control socket, the end of the runtime, and changes other processes
  make to the world, in any order.
\<close>

section \<open>Steps and reachable states\<close>

inductive fs_step :: "('w, 'f, 'd) env \<Rightarrow> ('w, 'f, 'd) st \<Rightarrow> ('w, 'f, 'd) st \<Rightarrow> bool" for E where
  request: "request_ok r \<Longrightarrow> fs_step E s (snd (serve E r s))"
| enable: "fs_step E s (s\<lparr>hookfs := HookFs_enable_injection (hookfs s)\<rparr>)"
| disable: "fs_step E s (s\<lparr>hookfs := HookFs_disable_injection (hookfs s)\<rparr>)"
| update: "fs_step E s (set_injectors is s)"
| others: "fs_step E s (s\<lparr>world := w\<rparr>)"
| shutdown: "fs_step E s (s\<lparr>RUNTIME := False\<rparr>)"

inductive reachable :: "('w, 'f, 'd) env \<Rightarrow> path \<Rightarrow> path \<Rightarrow> ('w, 'f, 'd) st \<Rightarrow> bool"
  for E mount root where
  start: "hookfs s = HookFs_new E mount root is \<Longrightarrow> reachable E mount root s"
| step: "reachable E mount root s \<Longrightarrow> fs_step E s t \<Longrightarrow> reachable E mount root t"

lemma rooted_step:
  "fs_step E s t \<Longrightarrow> env_ok E \<Longrightarrow> has_root root \<Longrightarrow> rooted_st E mount root s \<Longrightarrow> rooted_st E mount root t"
proof (induction rule: fs_step.induct)
  case (request r s)
  then show ?case by (intro serve_rooted)
qed (simp_all add: HookFs_rooted_def HookFs_enable_injection_def HookFs_disable_injection_def)

lemma reachable_rooted:
  "reachable E mount root s \<Longrightarrow> env_ok E \<Longrightarrow> has_root root \<Longrightarrow> rooted_st E mount root s"
  by (induction rule: reachable.induct) (auto simp: new_rooted intro: rooted_step)

lemma sample_root: "has_root ''/data''" "has_root ''/mnt''"
  by (simp_all add: has_root_def is_sep_def)

lemma sample_request: "request_ok (Req_lookup 1 ''a'')"
  by (simp add: name_ok_def is_sep_def)

lemma sample_reachable: "reachable sample_env ''/mnt'' ''/data'' (sample_st is)"
  by (rule start) (simp add: sample_st_def)

section \<open>Confinement\<close>

text \<open>Every path the tables hold.\<close>

definition recorded :: "('w, 'f, 'd) env \<Rightarrow> ('f, 'd) HookFs \<Rightarrow> path \<Rightarrow> bool" where
  "recorded E h p \<longleftrightarrow>
     (\<exists>ino. InodeMap_get_path (inode_map h) ino = Inr p) \<or>
     (\<exists>fh file. FhMap_get (files E) (opened_files h) fh = Inr file \<and> file_original_path file = p) \<or>
     (\<exists>fh dir. FhMap_get (dirs E) (opened_dirs h) fh = Inr dir \<and> dir_original_path dir = p)"

lemma recorded_below: "HookFs_rooted E mount root h \<Longrightarrow> recorded E h p \<Longrightarrow> below p root"
  by (auto simp: recorded_def HookFs_rooted_def files_rooted_def dirs_rooted_def FhMap_get_def
      inode_map.rooted_get split: option.splits)

lemma rebuild_below:
  assumes "below p (original_path h)" and "has_root (original_path h)" and "has_root (mount_path h)"
  shows "\<exists>q tail. HookFs_rebuild_path h p = Inr q \<and>
    components p = components (original_path h) @ tail \<and> components q = components (mount_path h) @ tail"
proof -
  obtain t where t: "strip_prefix p (original_path h) = Some t"
    using strip_prefix_exists [OF below_starts_with [OF assms(1)]] by blast
  from strip_prefix_Some [OF this assms(2)] assms(3) show ?thesis
    by (auto simp: HookFs_rebuild_path_def t components_push)
qed

text \<open>
  C1. Confinement: in every reachable state, a request is answered the same way, and leaves the
  same state, when the system calls on paths outside the original directory are exchanged for
  arbitrary other ones: no request depends on, or has an effect through, a path outside it.
\<close>

theorem serve_confined:
  assumes "env_ok E" and "has_root root" and "reachable E mount root s" and "request_ok r"
    and "same_below root E E'" and "lib E' = lib E"
  shows "serve E' r s = serve E r s"
proof -
  let ?is = "hf_injector (hookfs s)"
  have "side E E' mount root ?is ?is (hookfs s)"
    using assms reachable_rooted [OF assms(3,1,2)] by (simp add: side_def)
  from serve_in_step [OF this assms(4)] show ?thesis
    by (simp add: set_injectors_same side_def)
qed

lemma serve_confined_witness:
  "let E' = sample_env\<lparr>fs := sample_fs\<lparr>os_lstat := \<lambda>p w.
              if below p ''/data'' then os_lstat sample_fs p w else (Inl (nix_Sys 5), 0)\<rparr>\<rparr>
   in same_below ''/data'' sample_env E' \<and> sample_env \<noteq> E' \<and>
      serve E' (Req_lookup 1 ''a'') (sample_st []) = serve sample_env (Req_lookup 1 ''a'') (sample_st [])"
proof -
  let ?E = "sample_env\<lparr>fs := sample_fs\<lparr>os_lstat := \<lambda>p w.
              if below p ''/data'' then os_lstat sample_fs p w else (Inl (nix_Sys 5), 0)\<rparr>\<rparr>"
  have below: "same_below ''/data'' sample_env ?E"
    by (simp add: same_below_def sample_env_def fun_eq_iff)
  have "os_lstat (fs sample_env) ''/etc'' 0 \<noteq> os_lstat (fs ?E) ''/etc'' 0"
    by (simp add: sample_env_def sample_fs_def below_def starts_with_prefix) code_simp
  then have "sample_env \<noteq> ?E" by metis
  moreover have "serve ?E (Req_lookup 1 ''a'') (sample_st []) = serve sample_env (Req_lookup 1 ''a'') (sample_st [])"
    by (rule serve_confined [OF sample_env_ok sample_root(1) sample_reachable sample_request below]) simp
  ultimately show ?thesis unfolding Let_def using below by (intro conjI)
qed

text \<open>
  C2. In every reachable state each path held for an inode, an open file or an open directory
  has its counterpart below the mount point: \<open>rebuild_path\<close> succeeds, and exchanges the
  components of the original directory for those of the mount point.
\<close>

theorem rebuild_path_total:
  assumes "env_ok E" and "has_root root" and "has_root mount" and "reachable E mount root s"
    and "recorded E (hookfs s) p"
  shows "\<exists>q tail. HookFs_rebuild_path (hookfs s) p = Inr q \<and>
    components p = components root @ tail \<and> components q = components mount @ tail"
proof -
  have r: "rooted_st E mount root s" by (rule reachable_rooted [OF assms(4,1,2)])
  then have "mount_path (hookfs s) = mount" "original_path (hookfs s) = root"
    by (simp_all add: HookFs_rooted_def)
  with rebuild_below [of p "hookfs s"] recorded_below [OF r assms(5)] assms(2,3) show ?thesis by simp
qed

lemma rebuild_path_total_witness:
  "let s = snd (serve sample_env (Req_lookup 1 ''a'') (sample_st [])) in
   recorded sample_env (hookfs s) ''/data/a'' \<and>
   (\<exists>q tail. HookFs_rebuild_path (hookfs s) ''/data/a'' = Inr q \<and>
     components ''/data/a'' = components ''/data'' @ tail \<and> components q = components ''/mnt'' @ tail)"
proof -
  let ?s = "snd (serve sample_env (Req_lookup 1 ''a'') (sample_st []))"
  have r: "reachable sample_env ''/mnt'' ''/data'' ?s"
    by (rule step [OF sample_reachable request [OF sample_request]])
  have "InodeMap_get_path (inode_map (hookfs ?s)) 7 = Inr ''/data/a''"
    unfolding sample_lookup by (simp add: sample_found_def InodeMap_get_path_def Node_get_path_def)
  then have "recorded sample_env (hookfs ?s) ''/data/a''" by (auto simp: recorded_def)
  with rebuild_path_total [OF sample_env_ok sample_root r this] show ?thesis
    unfolding Let_def by (intro conjI)
qed

text \<open>
  C3. Transparency: while injection is off and no injector damages data, the injectors, the
  random generator, the clock and the pattern library play no part in any request: with any
  other injectors and any other library the answer and the next state are the same.
\<close>

theorem serve_transparent:
  assumes "env_ok E" and "has_root root" and "reachable E mount root s" and "request_ok r"
    and "\<not> enable_injection (hookfs s)" and "no_mistakes (hf_injector (hookfs s))" and "no_mistakes is"
  shows "serve (E\<lparr>lib := L\<rparr>) r (set_injectors is s) =
    (fst (serve E r s), set_injectors is (snd (serve E r s)))"
proof -
  have "side E (E\<lparr>lib := L\<rparr>) mount root (hf_injector (hookfs s)) is (hookfs s)"
    using assms reachable_rooted [OF assms(3,1,2)] by (simp add: side_def same_below_def)
  from serve_in_step [OF this assms(4)] show ?thesis by simp
qed

lemma serve_transparent_witness:
  "let is = [Latency \<lparr>li_latency = Duration 5 0, li_filter = \<lparr>path_filter = None, methods = Method_all, probability = 2 ^ 59\<rparr>\<rparr>];
       L = sample_lib\<lparr>delay_for := \<lambda>d w. w + 1000\<rparr>
   in serve (sample_env\<lparr>lib := L\<rparr>) (Req_lookup 1 ''a'') (set_injectors is (sample_st [])) =
      (Some (ans_entry TTL sample_attr 0), set_injectors is (sample_found []))"
proof -
  let ?is = "[Latency \<lparr>li_latency = Duration 5 0, li_filter = \<lparr>path_filter = None, methods = Method_all, probability = 2 ^ 59\<rparr>\<rparr>]"
  have "\<not> enable_injection (hookfs (sample_st []))" "hf_injector (hookfs (sample_st [])) = []"
    by (simp_all add: sample_st_def HookFs_new_def)
  moreover have "no_mistakes []" "no_mistakes ?is" by (simp_all add: no_mistakes_def)
  ultimately show ?thesis
    using serve_transparent [OF sample_env_ok sample_root(1) sample_reachable sample_request, of "[]" ?is]
    unfolding Let_def sample_lookup by simp
qed

end
