(* ===== verification/Fs_Faults.thy ===== *)
theory Fs_Faults
  imports Fs_Runs
begin

text \<open>
  What an injected error does to a request: it is the answer, and the request does nothing
  else. The injection point of a request is the method and the path its first injection macro
  is called with.
\<close>

section \<open>Injection points\<close>

















end
