(* ===== verification/Fs_Handles.thy ===== *)
theory Fs_Handles
  imports Fs_Faults
begin

text \<open>
  Inodes and file handles as the kernel sees them: an unknown one is refused, and the table of
  open files is an allocator that \<open>open\<close> and \<open>create\<close> extend by a fresh handle and \<open>release\<close>
  shrinks.
\<close>

section \<open>Unknown inodes and handles\<close>

text \<open>The inode a request looks up first.\<close>

fun needs_inode :: "request \<Rightarrow> u64 option" where
  "needs_inode (Req_lookup ino _) = Some ino"
| "needs_inode (Req_getattr ino) = Some ino"
| "needs_inode (Req_setattr ino _ _ _ _ _ _) = Some ino"
| "needs_inode (Req_readlink ino) = Some ino"
| "needs_inode (Req_mknod ino _ _ _ _ _) = Some ino"
| "needs_inode (Req_mkdir ino _ _ _ _) = Some ino"
| "needs_inode (Req_unlink ino _) = Some ino"
| "needs_inode (Req_rmdir ino _) = Some ino"
| "needs_inode (Req_symlink ino _ _ _ _) = Some ino"
| "needs_inode (Req_rename ino _ _ _) = Some ino"
| "needs_inode (Req_link ino _ _) = Some ino"
| "needs_inode (Req_open ino _) = Some ino"
| "needs_inode (Req_opendir ino _) = Some ino"
| "needs_inode (Req_fsyncdir ino) = Some ino"
| "needs_inode (Req_statfs ino) = Some ino"
| "needs_inode (Req_setxattr ino _ _ _) = Some ino"
| "needs_inode (Req_getxattr ino _ _) = Some ino"
| "needs_inode (Req_listxattr ino _) = Some ino"
| "needs_inode (Req_removexattr ino _) = Some ino"
| "needs_inode (Req_access ino _) = Some ino"
| "needs_inode (Req_create ino _ _ _ _ _) = Some ino"
| "needs_inode _ = None"

lemma unknown_inode:
  assumes "RUNTIME s" and "needs_inode r = Some ino"
    and "InodeMap_get_path (inode_map (hookfs s)) ino = Inl e"
  shows "serve E r s = (Some (ans_error EFAULT), s)"
proof -
  from assms(3) have "e = InodeNotFound ino" using inode_map.get_unknown by blast
  with assms show ?thesis
    by (cases r)
       (auto simp: callback_defs handler_defs inject_with_ino_def inject_with_parent_and_name_def
         run_simps FsReply_reply_def Let_def)
qed

fun needs_handle :: "request \<Rightarrow> u64 option" where
  "needs_handle (Req_read fh _ _) = Some fh"
| "needs_handle (Req_write fh _ _) = Some fh"
| "needs_handle (Req_flush fh) = Some fh"
| "needs_handle (Req_fsync fh) = Some fh"
| "needs_handle _ = None"

lemma unknown_handle:
  assumes "RUNTIME s" and "needs_handle r = Some fh"
    and "slab_get (files E) (opened_files (hookfs s)) fh = None"
  shows "serve E r s = (Some (ans_error EFAULT), s)"
  using assms
  by (cases r)
     (auto simp: callback_defs handler_defs inject_with_fh_def inject_write_data_def run_simps
       FhMap_get_def FsReply_reply_def)

lemma sample_no_handle:
  "slab_get (files sample_env) (opened_files (hookfs (sample_st is))) fh = None"
  "slab_get (dirs sample_env) (opened_dirs (hookfs (sample_st is))) fh = None"
  "RUNTIME (sample_st is)"
  by (simp_all add: sample_env_def sample_st_def HookFs_new_def list_slab_def)

text \<open>The inode of the new parent directory, which is looked up after the injection macro.\<close>

fun needs_newparent :: "request \<Rightarrow> u64 option" where
  "needs_newparent (Req_rename _ _ newparent _) = Some newparent"
| "needs_newparent (Req_link _ newparent _) = Some newparent"
| "needs_newparent _ = None"

lemma unknown_newparent:
  assumes "RUNTIME s" and "\<not> enable_injection (hookfs s)" and "needs_newparent r = Some ino"
    and "InodeMap_get_path (inode_map (hookfs s)) ino = Inl e"
  shows "serve E r s = (Some (ans_error EFAULT), s)"
proof -
  from assms(4) have e: "e = InodeNotFound ino" using inode_map.get_unknown by blast
  obtain first where f: "needs_inode r = Some first" using assms(3) by (cases r) auto
  show ?thesis
  proof (cases "InodeMap_get_path (inode_map (hookfs s)) first")
    case (Inl e')
    with assms(1) f show ?thesis by (rule unknown_inode)
  next
    case (Inr p)
    with assms f e show ?thesis
      by (cases r) (auto simp: callback_defs handler_defs run_simps FsReply_reply_def Let_def)
  qed
qed

text \<open>A request on an inode, a file handle or a directory handle that the tables do not have.\<close>

definition unknown :: "('w, 'f, 'd) env \<Rightarrow> ('w, 'f, 'd) st \<Rightarrow> request \<Rightarrow> bool" where
  "unknown E s r \<longleftrightarrow>
     (\<exists>ino e. needs_inode r = Some ino \<and> InodeMap_get_path (inode_map (hookfs s)) ino = Inl e) \<or>
     (\<exists>ino e. needs_newparent r = Some ino \<and> \<not> enable_injection (hookfs s) \<and>
        InodeMap_get_path (inode_map (hookfs s)) ino = Inl e) \<or>
     (\<exists>fh. needs_handle r = Some fh \<and> slab_get (files E) (opened_files (hookfs s)) fh = None) \<or>
     (\<exists>full fh offset. r = Req_readdir full fh offset \<and> slab_get (dirs E) (opened_dirs (hookfs s)) fh = None)"

lemma unknown_directory:
  assumes "RUNTIME s" and "slab_get (dirs E) (opened_dirs (hookfs s)) fh = None"
  shows "serve E (Req_readdir full fh offset) s = (Some (ans_error EFAULT), s)"
  using assms
  by (simp add: callback_defs handler_defs inject_with_dir_fh_def run_simps FhMap_get_def spawn_def Let_def)

text \<open>
  C16. A request whose inode (the directory, where it names an entry of one) is not in the inode
  map (never looked up, forgotten, or without a path left), and reading, writing, flushing,
  synchronising or listing through a handle that is not open, is answered with \<open>EFAULT\<close>, whatever
  the injectors are, and changes nothing: no system call is made and no injector is asked. The same
  holds for the new parent directory of \<open>rename\<close> and \<open>link\<close> while injection is off; while it is on,
  the injectors are asked before that inode is looked up. \<open>release\<close> and \<open>releasedir\<close> do not refuse
  an unknown handle in this way and are not covered.
\<close>

theorem unknown_refused:
  assumes "RUNTIME s" and "unknown E s r"
  shows "serve E r s = (Some (ans_error EFAULT), s)"
  using assms(2) unknown_inode [OF assms(1)] unknown_newparent [OF assms(1)] unknown_handle [OF assms(1)] unknown_directory [OF assms(1)]
  unfolding unknown_def by blast

lemma unknown_refused_witness:
  "serve sample_env (Req_unlink 9 ''a'') (sample_st []) = (Some (ans_error EFAULT), sample_st []) \<and>
   serve sample_env (Req_read 3 0 10) (sample_st []) = (Some (ans_error EFAULT), sample_st [])"
proof -
  have "InodeMap_get_path (inode_map (hookfs (sample_st []))) 9 = Inl (InodeNotFound 9)"
    by (simp add: sample_st_def HookFs_new_def InodeMap_get_path_def InodeMap_insert_path_def)
  then have "unknown sample_env (sample_st []) (Req_unlink 9 ''a'')" "unknown sample_env (sample_st []) (Req_read 3 0 10)"
    by (simp_all add: unknown_def sample_no_handle)
  then show ?thesis using unknown_refused sample_no_handle(3) by blast
qed

text \<open>
  C18. Releasing a file handle or a directory handle that is not open panics inside the table: the
  handler never answers \<open>EFAULT\<close> as the other handlers do, its reply is dropped (for which \<open>fuser\<close>
  answers \<open>EIO\<close>), and the state stays as it was.
\<close>

theorem release_unknown:
  assumes "RUNTIME s" and "env_ok E"
    and "slab_get (files E) (opened_files (hookfs s)) fh = None"
    and "slab_get (dirs E) (opened_dirs (hookfs s)) dh = None"
  shows "serve E (Req_release fh) s = (Some ans_dropped, s) \<and> serve E (Req_releasedir dh) s = (Some ans_dropped, s)"
proof -
  have "slab_remove (files E) fh (opened_files (hookfs s)) = None"
    using assms by (simp add: env_ok_def slab_ok_remove_iff)
  then show ?thesis
    using assms
    by (simp add: AsyncFileSystem_release_def AsyncFileSystem_releasedir_def HookFs_release_def
        HookFs_releasedir_def spawn_reply_run and_then_run seq_run self_run return_run
        remove_file_def remove_dir_def FhMap_get_def FsReply_reply_def)
qed

lemma release_unknown_witness:
  "serve sample_env (Req_release 3) (sample_st []) = (Some ans_dropped, sample_st []) \<and>
   serve sample_env (Req_releasedir 0) (sample_st []) = (Some ans_dropped, sample_st [])"
  by (rule release_unknown) (simp_all add: sample_no_handle sample_env_ok)

section \<open>The table of open files\<close>

definition file_table :: "('w, 'f, 'd) env \<Rightarrow> ('w, 'f, 'd) st \<Rightarrow> u64 \<rightharpoonup> File" where
  "file_table E s = slab_get (files E) (opened_files (hookfs s))"

text \<open>
  An abstract allocator of handles, by the request and its answer. A handle that is handed out was
  free, and a handle that is released was open. An \<open>open\<close> or \<open>create\<close> that fails after the file was
  entered leaves a handle behind that nobody knows.
\<close>

definition failed :: "answer option \<Rightarrow> bool" where
  "failed a \<longleftrightarrow> a = Some ans_dropped \<or> (\<exists>e. a = Some (ans_error e))"

lemma failed_simps [simp, intro]: "failed (Some ans_dropped)" "failed (Some (ans_error e))"
  by (simp_all add: failed_def)

fun allocates :: "request \<Rightarrow> bool" where
  "allocates (Req_open ino flags) = True"
| "allocates (Req_create ino name mode flags uid gid) = True"
| "allocates _ = False"

fun given_handle :: "answer \<Rightarrow> u64 option" where
  "given_handle (ans_opened fh flags) = Some fh"
| "given_handle (ans_created ttl attr generation fh flags) = Some fh"
| "given_handle _ = None"

inductive handle_step :: "request \<Rightarrow> answer option \<Rightarrow> (u64 \<rightharpoonup> File) \<Rightarrow> (u64 \<rightharpoonup> File) \<Rightarrow> bool" where
  given: "allocates r \<Longrightarrow> given_handle a = Some fh \<Longrightarrow> T fh = None \<Longrightarrow> handle_step r (Some a) T (T(fh \<mapsto> file))"
| leaked: "allocates r \<Longrightarrow> failed a \<Longrightarrow> T fh = None \<Longrightarrow> handle_step r a T (T(fh \<mapsto> file))"
| released: "T fh \<noteq> None \<Longrightarrow> handle_step (Req_release fh) (Some ans_ok) T (T(fh := None))"
| refused: "failed a \<Longrightarrow> handle_step r a T T"
| other: "\<not> allocates r \<Longrightarrow> (\<forall>fh. r \<noteq> Req_release fh) \<Longrightarrow> handle_step r a T T"

inductive_cases handle_stepE: "handle_step r a T T'"

text \<open>Most requests leave the table alone.\<close>

abbreviation table_is :: "('w, 'f, 'd) env \<Rightarrow> (u64 \<rightharpoonup> File) \<Rightarrow> ('w, 'f, 'd) st \<Rightarrow> bool" where
  "table_is E T \<equiv> \<lambda>s. file_table E s = T"

lemma keeps_table:
  "(\<And>P :: ('f, 'd) HookFs \<Rightarrow> bool. keeps (\<lambda>s :: ('w, 'f, 'd) st. P (hookfs s)) m) \<Longrightarrow> keeps (table_is E T) m"
  unfolding file_table_def by assumption

lemma keeps_table_inode_map [keep_intros]: "keeps (table_is E T) (update_inode_map f)"
  unfolding update_inode_map_def by (rule keeps_modify) (simp add: file_table_def)

lemma keeps_table_record_path [keep_intros]: "keeps (table_is E T) (record_path ino p)"
  unfolding record_path_def by (rule keep_intros)

lemma keeps_table_dirs [keep_intros]:
  "keeps (table_is E T) (insert_dir E dir)" "keeps (table_is E T) (remove_dir E fh)"
  unfolding insert_dir_def remove_dir_def
  by (auto simp: keeps_def file_table_def split: option.splits)

lemma keeps_table_steps [keep_intros]:
  "keeps (table_is E T) (inject_with_ino E' method ino)"
  "keeps (table_is E T) (inject_with_parent_and_name E' method ino name)"
  "keeps (table_is E T) (inject E' method p)"
  "keeps (table_is E T) (inject_reply E' method p reply)"
  "keeps (table_is E T) (get_file_attr E' p)"
  "keeps (table_is E T) (async_lchown E' p uid gid)"
  "keeps (table_is E T) (async_mknod E' p mode rdev)"
  "keeps (table_is E T) (async_mkdir E' p mode)"
  "keeps (table_is E T) (async_unlink E' p)"
  "keeps (table_is E T) (async_rmdir E' p)"
  "keeps (table_is E T) (async_open E' p fl mode)"
  "keeps (table_is E T) (async_close E' fd)"
  "keeps (table_is E T) (nix_call f)"
  by (rule keeps_table, intro keep_intros)+

lemma keeps_table_new_entry [keep_intros]: "keeps (table_is E T) (reply_new_entry E' p)"
  unfolding reply_new_entry_def by (intro keep_intros)

lemma keeps_table_handler:
  "keeps (table_is E T) (HookFs_lookup E p name)"
  "keeps (table_is E T) (HookFs_mknod E p name mode rdev uid gid)"
  "keeps (table_is E T) (HookFs_mkdir E p name mode uid gid)"
  "keeps (table_is E T) (HookFs_unlink E p name)"
  "keeps (table_is E T) (HookFs_rmdir E p name)"
  "keeps (table_is E T) (HookFs_symlink E p name link uid gid)"
  "keeps (table_is E T) (HookFs_rename E p name np newname)"
  "keeps (table_is E T) (HookFs_link E ino p name)"
  "keeps (table_is E T) (HookFs_opendir E ino flags)"
  "keeps (table_is E T) (HookFs_releasedir E fh)"
  "keeps (table_is E T) (HookFs_forget ino nlookup)"
  unfolding handler_defs by (intro keep_intros)+

section \<open>The requests that change it\<close>

definition table_ends ::
  "('w, 'f, 'd) env \<Rightarrow> (u64 \<rightharpoonup> File) \<Rightarrow> ((HookFsError, 'a) outcome \<Rightarrow> (u64 \<rightharpoonup> File) \<Rightarrow> bool) \<Rightarrow> ('w, 'f, 'd, 'a) fs_prog \<Rightarrow> bool" where
  "table_ends E T R m \<longleftrightarrow> (\<forall>s. file_table E s = T \<longrightarrow> R (fst (m s)) (file_table E (snd (m s))))"

text \<open>An operation that stops early leaves the table as it is.\<close>

definition early :: "(u64 \<rightharpoonup> File) \<Rightarrow> ((HookFsError, 'a) outcome \<Rightarrow> (u64 \<rightharpoonup> File) \<Rightarrow> bool) \<Rightarrow> bool" where
  "early T R \<longleftrightarrow> (\<forall>e. R (Err e) T) \<and> R Panic T"

lemma table_ends_and_then:
  assumes "keeps (table_is E T) m" and "early T R" and "\<And>a. table_ends E T R (f a)"
  shows "table_ends E T R (and_then m f)"
  using assms unfolding table_ends_def keeps_def and_then_def early_def
  by (auto split: prod.splits outcome.splits)

lemma table_ends_seq:
  "keeps (table_is E T) m \<Longrightarrow> early T R \<Longrightarrow> table_ends E T R n \<Longrightarrow> table_ends E T R (seq m n)"
  unfolding seq_def by (rule table_ends_and_then)

definition fresh_handle :: "(u64 \<rightharpoonup> File) \<Rightarrow> (HookFsError, Reply) outcome \<Rightarrow> (u64 \<rightharpoonup> File) \<Rightarrow> bool" where
  "fresh_handle T r T' \<longleftrightarrow> (case r of
       Ok reply \<Rightarrow> \<exists>fh file. given_handle (reply_ok reply) = Some fh \<and> T fh = None \<and> T' = T(fh \<mapsto> file)
     | _ \<Rightarrow> T' = T \<or> (\<exists>fh file. T fh = None \<and> T' = T(fh \<mapsto> file)))"

lemma fresh_handle_early: "early T (fresh_handle T)"
  by (simp add: early_def fresh_handle_def)

lemma inject_reply_shape:
  assumes "rand_ok (lib E)" and "fst (inject_reply E method p r s) = Ok r'"
  shows "same_shape r r'"
  using assms onlyD1 [OF multi.reply_shape [OF assms(1)]]
  by (auto simp: inject_reply_def run_simps split: if_splits sum.splits)

lemma given_reply:
  assumes "rand_ok (lib E)" and "given_handle (reply_ok reply) = Some fh"
  shows "only (inject_reply E method p reply) (\<lambda>r. given_handle (reply_ok r) = Some fh) (\<lambda>_. True)"
  by (rule onlyI, drule inject_reply_shape [OF assms(1)]) (use assms(2) in \<open>cases reply; auto simp: same_shape_def\<close>)

lemma insert_file_fresh:
  fixes E :: "('w, 'f, 'd) env"
  assumes "env_ok E" and "\<And>fh T. keeps (table_is E T) (g fh)"
    and "\<And>fh. only (g fh) (\<lambda>r. given_handle (reply_ok r) = Some fh) (\<lambda>_. True)"
  shows "table_ends E T (fresh_handle T) (and_then (insert_file E file) g)"
  unfolding table_ends_def
proof (intro allI impI)
  fix s :: "('w, 'f, 'd) st" assume T: "file_table E s = T"
  let ?m = "and_then (insert_file E file) g"
  show "fresh_handle T (fst (?m s)) (file_table E (snd (?m s)))"
  proof (cases "slab_insert (files E) file (opened_files (hookfs s))")
    case None
    with T show ?thesis by (simp add: insert_file_def run_simps fresh_handle_def)
  next
    case (Some r)
    obtain fh m where r: "r = (fh, m)" by (cases r)
    let ?t = "s\<lparr>hookfs := (hookfs s)\<lparr>opened_files := m\<rparr>\<rparr>"
    have "T fh = None \<and> file_table E ?t = T(fh \<mapsto> file)"
      using slab_ok_insert [of "files E" "file" "opened_files (hookfs s)" fh m] assms(1) Some r T
      by (simp add: env_ok_def file_table_def)
    moreover have "file_table E (snd (g fh ?t)) = file_table E ?t"
      by (rule keepsD [OF assms(2)]) simp
    moreover have "?m s = g fh ?t" using Some r by (simp add: insert_file_def run_simps)
    ultimately show ?thesis
      using onlyD1 [OF assms(3), of fh ?t] by (auto simp: fresh_handle_def split: outcome.split)
  qed
qed

lemma open_fresh:
  assumes "env_ok E" and "rand_ok (lib E)"
  shows "table_ends E T (fresh_handle T) (HookFs_open E ino flags)"
  unfolding HookFs_open_def Let_def
  by (intro table_ends_seq table_ends_and_then insert_file_fresh keep_intros fresh_handle_early given_reply assms)
     (simp add: Open_new_def)

lemma create_fresh:
  assumes "env_ok E" and "rand_ok (lib E)"
  shows "table_ends E T (fresh_handle T) (HookFs_create E p name mode flags uid gid)"
  unfolding HookFs_create_def Let_def
  by (intro table_ends_seq table_ends_and_then insert_file_fresh keep_intros fresh_handle_early given_reply
      only_seq [OF only_any] assms) simp

lemma release_removes:
  assumes "env_ok E"
  shows "table_ends E T (\<lambda>r T'. case r of Ok _ \<Rightarrow> T fh \<noteq> None \<and> T' = T(fh := None) | _ \<Rightarrow> T' = T) (HookFs_release E fh)"
proof -
  let ?R = "\<lambda>r T'. case r of Ok _ \<Rightarrow> T fh \<noteq> None \<and> T' = T(fh := None) | _ \<Rightarrow> T' = T"
  have "table_ends E T ?R (remove_file E fh)"
    unfolding table_ends_def remove_file_def
    using assms by (auto simp: file_table_def env_ok_def split: option.splits dest!: slab_ok_remove)
  moreover have "early T ?R" by (simp add: early_def)
  ultimately show ?thesis
    unfolding HookFs_release_def
    by (intro table_ends_and_then table_ends_seq keep_intros) auto
qed

lemma task_table:
  assumes "table_ends E (file_table E s) R m"
  shows "(\<exists>r. fst (spawn_reply ok m s) = FsReply_reply ok r \<and> R r (file_table E (snd (spawn_reply ok m s)))) \<or>
    fst (spawn_reply ok m s) = Some ans_dropped \<and> file_table E (snd (spawn_reply ok m s)) = file_table E s"
  using assms by (cases "m s") (auto simp: table_ends_def spawn_reply_def spawn_def)

lemma same_task:
  assumes "\<And>T. keeps (table_is E T) m"
  shows "file_table E (snd (spawn_reply ok m s)) = file_table E s"
proof -
  have "file_table E (snd (m s)) = file_table E s" by (rule keepsD [OF assms]) simp
  then show ?thesis by (auto simp: spawn_reply_def spawn_def split: prod.splits)
qed

lemma fresh_step:
  assumes "allocates r" and "table_ends E (file_table E s) (fresh_handle (file_table E s)) m"
  shows "handle_step r (fst (spawn_reply reply_ok m s)) (file_table E s) (file_table E (snd (spawn_reply reply_ok m s)))"
  using task_table [OF assms(2), of reply_ok] assms(1)
  by (auto simp: fresh_handle_def FsReply_reply_def refused leaked given split: outcome.splits)

text \<open>
  C9. Refinement: on the table of open files every request, together with its answer, is a step of
  the abstract allocator. A handle that \<open>open\<close> or \<open>create\<close> answers was free and is open now; a
  \<open>release\<close> that is answered with success has removed exactly the handle it names, which was open;
  a request that fails changes nothing, except that a failed \<open>open\<close> or \<open>create\<close> may have entered a
  file under a free handle; no other request touches the table, whatever the injectors and the
  system calls do.
\<close>

theorem serve_handles:
  assumes "env_ok E" and "rand_ok (lib E)"
  shows "handle_step r (fst (serve E r s)) (file_table E s) (file_table E (snd (serve E r s)))"
proof (cases r)
  case (Req_open ino flags)
  then show ?thesis
    using fresh_step [OF _ open_fresh [OF assms]] by (simp add: AsyncFileSystem_open_def)
next
  case (Req_create ino name mode flags uid gid)
  then show ?thesis
    using fresh_step [OF _ create_fresh [OF assms]] by (simp add: AsyncFileSystem_create_def)
next
  case (Req_release fh)
  then show ?thesis
    using task_table [OF release_removes [OF assms(1), of "file_table E s" fh], of reply_ok_unit] released [of "file_table E s" fh]
    by (auto simp: AsyncFileSystem_release_def FsReply_reply_def reply_ok_unit_def
        simp: refused split: outcome.splits)
next
  case (Req_forget ino n)
  have "file_table E (snd (HookFs_forget ino n s)) = file_table E s"
    by (rule keepsD [OF keeps_table_handler(11)]) simp
  then show ?thesis by (auto simp: Req_forget AsyncFileSystem_forget_def spawn_def intro: other)
next
  case (Req_readdir full fh offset)
  have "file_table E (snd (serve E r s)) = file_table E s"
    unfolding Req_readdir serve.simps readdir_task
    by (rule same_task, rule keeps_table, rule keeps_readdir)
  then show ?thesis by (simp add: Req_readdir other)
qed (simp_all add: callback_defs other file_table_def same_task [unfolded file_table_def]
    keeps_table_handler [unfolded file_table_def]
    keeps_reader [where P = "\<lambda>h. slab_get (files E) (opened_files h) = T" for T])

lemma serve_handles_witness:
  "handle_step (Req_open 1 0) (fst (serve sample_env (Req_open 1 0) (sample_st []))) (file_table sample_env (sample_st []))
     (file_table sample_env (snd (serve sample_env (Req_open 1 0) (sample_st []))))"
  by (rule serve_handles [OF sample_env_ok]) (use sample_rand_ok in \<open>simp add: sample_env_def\<close>)

end
