(* ===== verification/Fs_Dirs.thy ===== *)
theory Fs_Dirs
  imports Fs_Handles
begin

text \<open>
  Reading a directory in pieces: the kernel asks again from the offset of the last entry it got
  until the answer is empty. Together the pieces are the whole directory, each entry once.
\<close>

section \<open>The entries of a directory\<close>

text \<open>The entry at position \<open>index\<close> as it is added to the reply: its offset is the position of
  the next entry.\<close>

definition dir_item :: "nat \<Rightarrow> dirent \<Rightarrow> dir_item" where
  "dir_item index entry =
     (de_ino entry, word_of_nat (index + 1), convert_filetype (the (de_type entry)), de_name entry)"

definition dir_items :: "nat \<Rightarrow> dirent list \<Rightarrow> dir_item list" where
  "dir_items index entries = map (\<lambda>(i, e). dir_item i e) (enumerate index entries)"

lemma dir_items_simps [simp]:
  "dir_items index [] = []"
  "dir_items index (e # es) = dir_item index e # dir_items (Suc index) es"
  by (simp_all add: dir_items_def)

lemma length_dir_items [simp]: "length (dir_items index es) = length es"
  by (simp add: dir_items_def)

lemma dir_items_append: "dir_items index (xs @ ys) = dir_items index xs @ dir_items (index + length xs) ys"
  by (induction xs arbitrary: index) simp_all

text \<open>The loop adds the items of a front of the entries it is given, and a non-empty one when
  the buffer has room for a single entry.\<close>

lemma readdir_loop_front:
  assumes "\<forall>e \<in> set es. de_type e \<noteq> None"
  shows "\<exists>n \<le> length es. readdir_loop full index (map Inr es) reply = Ok (reply @ dir_items index (take n es)) \<and>
    (es \<noteq> [] \<longrightarrow> \<not> full reply (dir_item index (hd es)) \<longrightarrow> 0 < n)"
  using assms
proof (induction es arbitrary: index reply)
  case (Cons e es)
  obtain t where t: "de_type e = Some t" using Cons.prems by auto
  show ?case
  proof (cases "full reply (dir_item index e)")
    case True
    with t show ?thesis by (intro exI [of _ 0]) (simp add: dir_item_def Let_def)
  next
    case False
    have "\<forall>e \<in> set es. de_type e \<noteq> None" using Cons.prems by simp
    from Cons.IH [OF this, of "Suc index" "reply @ [dir_item index e]"]
    obtain n where "n \<le> length es"
      "readdir_loop full (Suc index) (map Inr es) (reply @ [dir_item index e]) =
         Ok ((reply @ [dir_item index e]) @ dir_items (Suc index) (take n es))"
      by blast
    with False t show ?thesis by (intro exI [of _ "Suc n"]) (simp add: dir_item_def Let_def)
  qed
qed simp

section \<open>Asking until the answer is empty\<close>

text \<open>What the kernel does, with \<open>n\<close> requests at most; the offset of an item is its second
  component.\<close>

fun list_dir ::
  "('w, 'f, 'd) env \<Rightarrow> (dir_item list \<Rightarrow> dir_item \<Rightarrow> bool) \<Rightarrow> u64 \<Rightarrow> nat \<Rightarrow> i64 \<Rightarrow> ('w, 'f, 'd) st \<Rightarrow>
   dir_item list option" where
  "list_dir E full fh 0 offset s = None"
| "list_dir E full fh (Suc n) offset s =
     (case serve E (Req_readdir full fh offset) s of
        (Some (ans_dir items), s') \<Rightarrow>
          if items = [] then Some []
          else map_option ((@) items) (list_dir E full fh n (fst (snd (last items))) s')
      | _ \<Rightarrow> None)"

declare list_dir.simps [simp del]

text \<open>A directory that nobody changes: every listing of the handle is the same.\<close>

definition stable_dir :: "('w, 'f, 'd) env \<Rightarrow> dir_handle \<Rightarrow> dirent list \<Rightarrow> bool" where
  "stable_dir E d es \<longleftrightarrow> (\<forall>w. fst (os_dir_iter (io E) d w) = map Inr es)"

lemma readdir_answer:
  assumes "RUNTIME s" and "\<not> enable_injection (hookfs s)"
    and "slab_get (dirs E) (opened_dirs (hookfs s)) fh = Some dir" and "stable_dir E (dir_dir dir) es"
    and "k \<le> length es" and "length es < 2 ^ 63"
    and "\<forall>e \<in> set es. de_type e \<noteq> None"
  shows "\<exists>n w. serve E (Req_readdir full fh (word_of_nat k)) s =
      (Some (ans_dir (dir_items k (take n (drop k es)))), s\<lparr>world := w\<rparr>) \<and> n \<le> length es - k \<and>
    (k < length es \<longrightarrow> \<not> full [] (dir_item k (es ! k)) \<longrightarrow> 0 < n)"
proof -
  let ?w = "snd (os_dir_iter (io E) (dir_dir dir) (world s))"
  have it: "fst (os_dir_iter (io E) (dir_dir dir) (world s)) = map Inr es"
    and ty: "\<forall>e \<in> set (drop k es). de_type e \<noteq> None"
    using assms(4,7) by (auto simp: stable_dir_def dest: in_set_dropD)
  have u: "unat (word_of_nat k :: i64) = k" using assms(5,6) by (simp add: unat_of_nat)
  have run: "serve E (Req_readdir full fh (word_of_nat k)) s =
      (FsReply_reply ans_dir (if length es \<le> k then Ok [] else readdir_loop full k (map Inr (drop k es)) []),
       s\<lparr>world := ?w\<rparr>)"
    using assms(1-3)
    by (simp add: readdir_task HookFs_readdir_def run_simps FhMap_get_def it u drop_map Let_def)
  obtain n where "n \<le> length (drop k es)"
    "readdir_loop full k (map Inr (drop k es)) [] = Ok (dir_items k (take n (drop k es)))"
    "drop k es \<noteq> [] \<Longrightarrow> \<not> full [] (dir_item k (hd (drop k es))) \<Longrightarrow> 0 < n"
    using readdir_loop_front [OF ty, of full k "[]"] by auto
  then show ?thesis
    unfolding run by (intro exI [of _ n] exI [of _ ?w]) (auto simp: FsReply_reply_def hd_drop_conv_nth)
qed

lemma last_offset: "xs \<noteq> [] \<Longrightarrow> fst (snd (last (dir_items k xs))) = word_of_nat (k + length xs)"
  by (cases xs rule: rev_cases) (simp_all add: dir_items_append dir_item_def)

lemma list_dir_from:
  assumes "length es - k < m" and "k \<le> length es" and "RUNTIME s" and "\<not> enable_injection (hookfs s)"
    and "slab_get (dirs E) (opened_dirs (hookfs s)) fh = Some dir" and "stable_dir E (dir_dir dir) es"
    and "length es < 2 ^ 63" and "\<forall>e \<in> set es. de_type e \<noteq> None" and "\<forall>item. \<not> full [] item"
  shows "list_dir E full fh m (word_of_nat k) s = Some (dir_items k (drop k es))"
  using assms(1-5)
proof (induction m arbitrary: k s)
  case (Suc m)
  obtain n w where n: "n \<le> length es - k" "k < length es \<Longrightarrow> 0 < n"
    and a: "serve E (Req_readdir full fh (word_of_nat k)) s =
      (Some (ans_dir (dir_items k (take n (drop k es)))), s\<lparr>world := w\<rparr>)"
    using readdir_answer [OF Suc.prems(3-5) assms(6) Suc.prems(2) assms(7,8), of full] assms(9) by blast
  show ?case
  proof (cases "k = length es")
    case True
    with a show ?thesis by (simp add: list_dir.simps del: serve.simps)
  next
    case False
    let ?xs = "take n (drop k es)"
    have k: "k < length es" using False Suc.prems(2) by simp
    with n have ne: "?xs \<noteq> []" and len: "length ?xs = n" by auto
    have "list_dir E full fh m (word_of_nat (k + n)) (s\<lparr>world := w\<rparr>) = Some (dir_items (k + n) (drop (k + n) es))"
      using Suc.prems n(1) n(2) [OF k] k by (intro Suc.IH) auto
    moreover have "dir_items k (drop k es) = dir_items k ?xs @ dir_items (k + n) (drop (k + n) es)"
      using dir_items_append [of k ?xs "drop (k + n) es"] len append_take_drop_id [of n "drop k es"]
      by (simp add: add.commute)
    moreover have "dir_items k ?xs \<noteq> []" using ne by (cases ?xs) simp_all
    moreover have "fst (snd (last (dir_items k ?xs))) = word_of_nat (k + n)"
      using last_offset [OF ne, of k] len by simp
    ultimately show ?thesis using a by (simp add: list_dir.simps del: serve.simps of_nat_add)
  qed
qed simp

text \<open>
  C11. With injection off, an open directory whose listing is stable and whose entries all have a
  known type is read completely, in order and without repetition: when the reply buffer has room
  for at least one entry, asking again from the offset of the last
  entry until the answer is empty takes at most one request more than there are entries, and the
  answers together are the whole listing with the offsets 1, 2, and so on.
\<close>

theorem list_dir_complete:
  assumes "RUNTIME s" and "\<not> enable_injection (hookfs s)"
    and "slab_get (dirs E) (opened_dirs (hookfs s)) fh = Some dir" and "stable_dir E (dir_dir dir) es"
    and "\<forall>e \<in> set es. de_type e \<noteq> None" and "length es < 2 ^ 63" and "\<forall>item. \<not> full [] item"
  shows "list_dir E full fh (length es + 1) 0 s = Some (dir_items 0 es)"
  using list_dir_from [of es 0 "length es + 1" s E fh dir full] assms by simp

text \<open>A buffer for one entry at a time.\<close>

lemma list_dir_complete_witness:
  "let s = (sample_st [])\<lparr>hookfs := (hookfs (sample_st []))\<lparr>opened_dirs := [Some \<lparr>dir_dir = 0, dir_original_path = ''/data''\<rparr>]\<rparr>\<rparr>
   in list_dir sample_env (\<lambda>items item. items \<noteq> []) 0 3 0 s =
        Some [(2, 1, Directory, ''.''), (7, 2, RegularFile, ''a'')]"
proof -
  let ?s = "(sample_st [])\<lparr>hookfs := (hookfs (sample_st []))\<lparr>opened_dirs := [Some \<lparr>dir_dir = 0, dir_original_path = ''/data''\<rparr>]\<rparr>\<rparr>"
  let ?es = "[\<lparr>de_ino = 2, de_name = ''.'', de_type = Some DT_Directory\<rparr>,
              \<lparr>de_ino = 7, de_name = ''a'', de_type = Some DT_File\<rparr>]"
  have "RUNTIME ?s" "\<not> enable_injection (hookfs ?s)"
    "slab_get (dirs sample_env) (opened_dirs (hookfs ?s)) 0 = Some \<lparr>dir_dir = 0, dir_original_path = ''/data''\<rparr>"
    "stable_dir sample_env 0 ?es"
    by (simp_all add: sample_st_def HookFs_new_def sample_env_def list_slab_def stable_dir_def sample_io_def)
  with list_dir_complete [of ?s sample_env 0 "\<lparr>dir_dir = 0, dir_original_path = ''/data''\<rparr>" ?es "\<lambda>items item. items \<noteq> []"]
  have "list_dir sample_env (\<lambda>items item. items \<noteq> []) 0 (length ?es + 1) 0 ?s = Some (dir_items 0 ?es)"
    by simp
  then show ?thesis
    unfolding Let_def by (simp add: dir_item_def numeral_3_eq_3)
qed

end
