(* ===== verification/Fs_Data.thy ===== *)
theory Fs_Data
  imports Fs_Handles
begin

text \<open>
  The data path: a handle that \<open>open\<close> gave out reads and writes the descriptor it was opened
  with, injected mistakes never change how much is read or written, and the switch of the
  injection does not guard the data that is written.
\<close>

section \<open>A handle and its descriptor\<close>

text \<open>The sample file, opened as handle 0 on descriptor 3.\<close>

definition sample_opened :: "MultiInjector \<Rightarrow> (nat, File option list, Dir option list) st" where
  "sample_opened injectors = (sample_found injectors)\<lparr>
     hookfs := (hookfs (sample_found injectors))\<lparr>
       opened_files := [Some \<lparr>file_fd = 3, file_original_path = ''/data/a''\<rparr>]\<rparr>, world := 2\<rparr>"

lemma sample_opened_simps:
  "RUNTIME (sample_opened is)" "\<not> enable_injection (hookfs (sample_opened is))"
  "hf_injector (hookfs (sample_opened is)) = is" "world (sample_opened is) = 2"
  "FhMap_get (files sample_env) (opened_files (hookfs (sample_opened is))) 0 =
     Inr \<lparr>file_fd = 3, file_original_path = ''/data/a''\<rparr>"
  "original_path (hookfs (sample_opened is)) = ''/data''" "mount_path (hookfs (sample_opened is)) = ''/mnt''"
  by (simp_all add: sample_opened_def sample_found_def sample_st_def HookFs_new_def sample_env_def
      list_slab_def FhMap_get_def)

text \<open>
  C10. Open, read, release: with injection off, a successful \<open>open\<close> answers with a fresh handle.
  In any later state where the handle still leads to that file and injection is off, a read
  through it reads the descriptor of that \<open>open\<close> and returns the bytes read, cut at the returned
  count; and a release closes that descriptor and frees exactly that handle.
\<close>

theorem open_read_release:
  assumes "env_ok E" and "RUNTIME s" and "\<not> enable_injection (hookfs s)"
    and "InodeMap_get_path (inode_map (hookfs s)) ino = Inr p"
    and "os_open (io E) p (OFlag_from_bits_truncate (nix E) (flags AND NOT O_APPEND AND NOT O_DIRECT))
           S_IRWXU (world s) = (Inr fd, w)"
    and "slab_insert (files E) \<lparr>file_fd = fd, file_original_path = p\<rparr> (opened_files (hookfs s)) = Some (fh, m)"
    and "t = s\<lparr>hookfs := (hookfs s)\<lparr>opened_files := m\<rparr>, world := w\<rparr>"
    and "RUNTIME u" and "\<not> enable_injection (hookfs u)" and "file_table E u fh = file_table E t fh"
    and "os_pread (io E) fd (unat n) off (world u) = ((ret, bytes), w1)" and "ret \<noteq> - 1"
    and "os_close (io E) fd (world u) = (Inr (), w2)"
  shows "serve E (Req_open ino flags) s = (Some (ans_opened fh 0), t) \<and>
    file_table E s fh = None \<and>
    serve E (Req_read fh off n) u =
      (Some (ans_data (resize (buffer_after (unat n) bytes) (unat ret) 0)), u\<lparr>world := w1\<rparr>) \<and>
    (\<exists>v. serve E (Req_release fh) u = (Some ans_ok, v) \<and> world v = w2 \<and> file_table E v = (file_table E u)(fh := None))"
proof -
  have slab: "slab_ok (files E)" using assms(1) by (simp add: env_ok_def)
  note ins = slab_ok_insert [OF slab assms(6)]
  have "serve E (Req_open ino flags) s = (Some (ans_opened fh 0), t)"
    using assms(2-7)
    by (simp add: AsyncFileSystem_open_def HookFs_open_def run_simps insert_file_def Let_def
        FsReply_reply_def Open_new_def)
  moreover have u: "slab_get (files E) (opened_files (hookfs u)) fh = Some \<lparr>file_fd = fd, file_original_path = p\<rparr>"
    using assms(7,10) ins by (simp add: file_table_def)
  have "serve E (Req_read fh off n) u =
      (Some (ans_data (resize (buffer_after (unat n) bytes) (unat ret) 0)), u\<lparr>world := w1\<rparr>)"
    using assms(8,9,11,12) u
    by (simp add: AsyncFileSystem_read_def HookFs_read_def run_simps FhMap_get_def FsReply_reply_def)
  moreover obtain m' where m': "slab_remove (files E) fh (opened_files (hookfs u)) = Some m'"
    using slab_ok_remove_iff [OF slab, of fh "opened_files (hookfs u)"] u
    by (cases "slab_remove (files E) fh (opened_files (hookfs u))") auto
  moreover have "\<exists>v. serve E (Req_release fh) u = (Some ans_ok, v) \<and> world v = w2 \<and>
      file_table E v = (file_table E u)(fh := None)"
    using assms(8,9,13) u m' slab_ok_remove [OF slab m']
    by (simp add: AsyncFileSystem_release_def HookFs_release_def run_simps FhMap_get_def FsReply_reply_def
        remove_file_def file_table_def reply_ok_unit_def)
  ultimately show ?thesis using ins by (simp add: file_table_def)
qed

lemma open_read_release_witness:
  "\<exists>t v. serve sample_env (Req_open 7 0) (sample_found []) = (Some (ans_opened 0 0), t) \<and>
     serve sample_env (Req_read 0 0 10) t = (Some (ans_data [1, 2]), t\<lparr>world := 3\<rparr>) \<and>
     serve sample_env (Req_release 0) t = (Some ans_ok, v) \<and> world v = 3"
proof -
  let ?s = "sample_found []"
  let ?f = "\<lparr>file_fd = 3, file_original_path = ''/data/a''\<rparr>"
  let ?t = "?s\<lparr>hookfs := (hookfs ?s)\<lparr>opened_files := [Some ?f]\<rparr>, world := 2\<rparr>"
  have s: "RUNTIME ?s" "\<not> enable_injection (hookfs ?s)"
    "InodeMap_get_path (inode_map (hookfs ?s)) 7 = Inr ''/data/a''"
    "os_open (io sample_env) ''/data/a'' (OFlag_from_bits_truncate (nix sample_env)
       (0 AND NOT O_APPEND AND NOT O_DIRECT)) S_IRWXU (world ?s) = (Inr 3, 2)"
    "slab_insert (files sample_env) ?f (opened_files (hookfs ?s)) = Some (0, [Some ?f])"
    by (simp_all add: sample_found_def sample_st_def HookFs_new_def InodeMap_get_path_def Node_get_path_def
        sample_env_def sample_io_def list_slab_def)
  have t: "RUNTIME ?t" "\<not> enable_injection (hookfs ?t)" using s by simp_all
  have r: "os_pread (io sample_env) 3 (unat (10 :: u32)) 0 (world ?t) = ((2, [1, 2]), 3)"
    "os_close (io sample_env) 3 (world ?t) = (Inr (), 3)" "(2 :: i64) \<noteq> - 1"
    by (simp_all add: sample_env_def sample_io_def)
  have b: "resize (buffer_after (unat (10 :: u32)) [1, 2]) (unat (2 :: i64)) 0 = [1, 2 :: u8]"
    by (simp add: resize_def buffer_after_def)
  from open_read_release [OF sample_env_ok s refl t refl r(1,3,2)] show ?thesis
    unfolding b by blast
qed

lemma sample_rebuild: "\<exists>q. HookFs_rebuild_path (hookfs (sample_opened is)) ''/data/a'' = Inr q"
proof -
  have "below ''/data/a'' ''/data''"
    using below_child [OF sample_root(1), of "''a''" "''/data''"] by (simp add: name_ok_def is_sep_def)
  then show ?thesis
    using rebuild_below [of "''/data/a''" "hookfs (sample_opened is)"] sample_root
    by (auto simp: sample_opened_simps)
qed

section \<open>How much is read and written\<close>

text \<open>Successful runs, step by step.\<close>

lemma ok_and_then: "and_then m f s = (Ok b, t) \<longleftrightarrow> (\<exists>a s1. m s = (Ok a, s1) \<and> f a s1 = (Ok b, t))"
  by (auto simp: and_then_def split: prod.splits outcome.splits)

lemma ok_seq: "seq m n s = (Ok b, t) \<longleftrightarrow> (\<exists>a s1. m s = (Ok a, s1) \<and> n s1 = (Ok b, t))"
  by (simp add: seq_def ok_and_then)

lemma get_path_Ok: "get_path ino s = (Ok p, t) \<longleftrightarrow> t = s \<and> InodeMap_get_path (inode_map (hookfs s)) ino = Inr p"
  by (auto simp: get_path_def run_simps split: sum.splits)

lemmas run_Ok = ok_seq ok_and_then get_path_Ok

text \<open>An answer that is not an error is the translation of a result.\<close>

lemma task_answer:
  assumes "fst (spawn_reply ok m s) = Some a" and "\<And>e. a \<noteq> ans_error e" and "a \<noteq> ans_dropped"
  obtains r where "fst (m s) = Ok r" and "ok r = a"
  using assms
  by (auto simp: spawn_reply_def spawn_def FsReply_reply_def split: prod.splits outcome.splits if_splits)

text \<open>What the manual page of \<open>pread\<close> says: \<open>-1\<close>, or at most as many bytes as asked for.\<close>

definition pread_ok :: "('w, 'f, 'd) env \<Rightarrow> bool" where
  "pread_ok E \<longleftrightarrow> (\<forall>fd n off w. let ret = fst (fst (os_pread (io E) fd n off w)) in ret = - 1 \<or> unat ret \<le> n)"

lemma async_read_length:
  assumes "pread_ok E" and "fst (async_read E fd n off s) = Ok buf"
  shows "length buf \<le> n"
proof -
  obtain ret bytes w where c: "os_pread (io E) fd n off (world s) = ((ret, bytes), w)"
    by (metis prod.collapse)
  with assms have "ret \<noteq> - 1" "buf = resize (buffer_after n bytes) (unat ret) 0"
    by (auto simp: async_defs spawn_blocking_def run_simps split: if_splits)
  moreover from assms(1) c have "ret = - 1 \<or> unat ret \<le> n"
    unfolding pread_ok_def Let_def by (metis fst_conv)
  ultimately show ?thesis by (simp add: length_resize)
qed

text \<open>
  C14. A read never returns more than was asked for, injected mistakes included: if the bytes a
  \<open>pread\<close> reports fit the request, so do the bytes in the answer to the kernel.
\<close>

theorem read_bounded:
  assumes "rand_ok (lib E)" and "pread_ok E" and "fst (serve E (Req_read fh off n) s) = Some (ans_data d)"
  shows "length d \<le> unat n"
proof -
  let ?Q = "\<lambda>r. \<exists>x. r = Reply_Data x \<and> length (data_data x) \<le> unat n"
  have "only (HookFs_read E fh off n) ?Q (\<lambda>_. True)"
    unfolding HookFs_read_def
  proof (rule only_seq [OF only_any], rule only_and_then [OF only_any])
    fix x :: File
    show "only (and_then (async_read E (file_fd x) (unat n) off) (\<lambda>buf.
        inject_reply E READ (file_original_path x) (Reply_Data \<lparr>data_data = buf\<rparr>))) ?Q (\<lambda>_. True)"
      by (rule only_and_then [where Q = "\<lambda>buf. length buf \<le> unat n"])
         (auto intro!: onlyI async_read_length [OF assms(2)] dest!: inject_reply_shape [OF assms(1)]
           simp: same_shape_def)
  qed
  note Q = onlyD1 [OF this]
  show ?thesis
    by (rule task_answer [OF assms(3) [unfolded serve.simps AsyncFileSystem_read_def]]) (auto dest: Q)
qed

lemma sample_read:
  "serve sample_env (Req_read 0 0 10) (sample_opened is) = (Some (ans_data [1, 2]), (sample_opened is)\<lparr>world := 3\<rparr>)"
proof -
  have "os_pread (io sample_env) 3 (unat (10 :: u32)) 0 (world (sample_opened is)) = ((2, [1, 2]), 3)"
    by (simp add: sample_env_def sample_io_def sample_opened_simps)
  then show ?thesis
    by (simp add: AsyncFileSystem_read_def HookFs_read_def run_simps sample_opened_simps FsReply_reply_def
        resize_def buffer_after_def)
qed

lemma sample_pread_ok: "pread_ok sample_env"
  by (auto simp: pread_ok_def sample_env_def sample_io_def Let_def unat_of_nat
      intro: order_trans [OF mod_less_eq_dividend])

lemma read_bounded_witness:
  "pread_ok sample_env \<and>
   fst (serve sample_env (Req_read 0 0 10) (sample_opened [])) = Some (ans_data [1, 2]) \<and>
   length [1, 2 :: u8] \<le> unat (10 :: u32)"
proof -
  have r: "fst (serve sample_env (Req_read 0 0 10) (sample_opened [])) = Some (ans_data [1, 2])"
    by (simp only: sample_read fst_conv)
  have "rand_ok (lib sample_env)" by (simp add: sample_env_def sample_rand_ok)
  from read_bounded [OF this sample_pread_ok r] r sample_pread_ok show ?thesis by blast
qed

text \<open>What the manual page of \<open>pwrite\<close> says: \<open>-1\<close>, or at most as many bytes as given.\<close>

definition pwrite_ok :: "('w, 'f, 'd) env \<Rightarrow> bool" where
  "pwrite_ok E \<longleftrightarrow> (\<forall>fd d off w. let ret = fst (os_pwrite (io E) fd d off w) in ret = - 1 \<or> unat ret \<le> length d)"

lemma inject_write_data_length:
  assumes "rand_ok (lib E)" and "fst (inject_write_data E fh data s) = Ok data'"
  shows "length data' = length data"
  using assms(2) onlyD1 [OF multi.write_length [OF assms(1)]]
  by (auto simp: inject_write_data_def run_simps split: sum.splits)

lemma same_shape_write: "same_shape (Reply_Write x) r \<Longrightarrow> r = Reply_Write x"
  by (simp add: same_shape_def)

text \<open>
  The call of \<open>pwrite\<close> in a write that is answered: after the injection macros, on the descriptor
  of the handle, with what the injectors made of the data.
\<close>

lemma write_run:
  assumes "rand_ok (lib E)" and "HookFs_write E fh off data s = (Ok r, t)"
  shows "\<exists>u file d ret. inject_write_data E fh data (snd (inject_with_fh E WRITE fh s)) = (Ok d, u) \<and>
    length d = length data \<and> FhMap_get (files E) (opened_files (hookfs s)) fh = Inr file \<and>
    fst (os_pwrite (io E) (file_fd file) d off (world u)) = ret \<and> ret \<noteq> - 1 \<and>
    r = Reply_Write \<lparr>write_size = ucast ret\<rparr>"
proof -
  from assms(2) obtain x u d v fl w sz y where
    i: "inject_with_fh E WRITE fh s = (Ok x, u)" and d: "inject_write_data E fh data u = (Ok d, v)"
    and f: "get_file E fh v = (Ok fl, w)" and p: "async_write E (file_fd fl) d off w = (Ok sz, y)"
    and r: "inject_reply E WRITE (file_original_path fl) (Reply_Write \<lparr>write_size = ucast sz\<rparr>) y = (Ok r, t)"
    by (auto simp: HookFs_write_def run_Ok)
  have "hookfs u = hookfs s" "hookfs v = hookfs u"
    using keepsD [OF keeps_inject_macros(2) [of "\<lambda>h. h = hookfs s" E WRITE fh], of s]
      keepsD [OF keeps_inject_macros(3) [of "\<lambda>h. h = hookfs u" E fh data], of u] i d by simp_all
  moreover from f have "w = v" "FhMap_get (files E) (opened_files (hookfs v)) fh = Inr fl"
    by (auto simp: get_file_def run_simps split: sum.splits)
  moreover have "sz \<noteq> - 1 \<and> fst (os_pwrite (io E) (file_fd fl) d off (world w)) = sz"
    using p by (auto simp: async_defs spawn_blocking_def run_simps split: if_splits)
  moreover have "r = Reply_Write \<lparr>write_size = ucast sz\<rparr>"
    using inject_reply_shape [OF assms(1)] r by (metis fst_conv same_shape_write)
  moreover have "length d = length data" using inject_write_data_length [OF assms(1)] d by (metis fst_conv)
  ultimately show ?thesis using i d by auto
qed

text \<open>
  C15. A write hands \<open>pwrite\<close> exactly as many bytes as the kernel sent, injected mistakes included,
  and answers with the count that \<open>pwrite\<close> reports (a \<open>u32\<close>), which may be a short one: if \<open>pwrite\<close>
  never reports more than it was given, the answer is never more than the length of the data.
\<close>

theorem write_counted:
  assumes "rand_ok (lib E)" and "pwrite_ok E" and "fst (serve E (Req_write fh off data) s) = Some (ans_written k)"
  shows "\<exists>u file d. inject_write_data E fh data (snd (inject_with_fh E WRITE fh s)) = (Ok d, u) \<and>
    length d = length data \<and> FhMap_get (files E) (opened_files (hookfs s)) fh = Inr file \<and>
    k = ucast (fst (os_pwrite (io E) (file_fd file) d off (world u))) \<and> unat k \<le> length data"
proof -
  obtain r where r: "fst (HookFs_write E fh off data s) = Ok r" "reply_ok r = ans_written k"
    by (rule task_answer [OF assms(3) [unfolded serve.simps AsyncFileSystem_write_def]]) auto
  then obtain t where "HookFs_write E fh off data s = (Ok r, t)" by (metis prod.collapse)
  from write_run [OF assms(1) this] obtain u fl d ret where
    w: "inject_write_data E fh data (snd (inject_with_fh E WRITE fh s)) = (Ok d, u)" "length d = length data"
      "FhMap_get (files E) (opened_files (hookfs s)) fh = Inr fl"
    and ret: "fst (os_pwrite (io E) (file_fd fl) d off (world u)) = ret" "ret \<noteq> - 1"
    and rep: "r = Reply_Write \<lparr>write_size = ucast ret\<rparr>" by (elim exE conjE)
  have k: "k = ucast ret" using r(2) unfolding rep by simp
  have "fst (os_pwrite (io E) (file_fd fl) d off (world u)) = - 1 \<or>
      unat (fst (os_pwrite (io E) (file_fd fl) d off (world u))) \<le> length d"
    using assms(2) by (simp add: pwrite_ok_def Let_def)
  then have "unat ret \<le> length d" using ret by simp
  moreover have "unat k \<le> unat ret" unfolding k by (simp add: unsigned_ucast_eq take_bit_nat_less_eq_self)
  ultimately show ?thesis using w ret(1) k by (intro exI [of _ u] exI [of _ fl] exI [of _ d]) simp
qed

lemma write_counted_witness:
  "pwrite_ok sample_env \<and> fst (serve sample_env (Req_write 0 0 [7, 8, 9]) (sample_opened [])) = Some (ans_written 3) \<and>
   unat (3 :: u32) \<le> length [7, 8, 9 :: u8]"
proof -
  obtain q where q: "HookFs_rebuild_path (hookfs (sample_opened [])) ''/data/a'' = Inr q"
    using sample_rebuild by blast
  have "os_pwrite (io sample_env) 3 [7, 8, 9] 0 (world (sample_opened [])) = (3, 3)"
    by (simp add: sample_env_def sample_io_def sample_opened_simps)
  then have a: "fst (serve sample_env (Req_write 0 0 [7, 8, 9]) (sample_opened [])) = Some (ans_written 3)"
    by (simp add: AsyncFileSystem_write_def HookFs_write_def run_simps sample_opened_simps FsReply_reply_def
        inject_write_data_def q)
  have L: "rand_ok (lib sample_env)" by (simp add: sample_env_def sample_rand_ok)
  have W: "pwrite_ok sample_env"
    by (auto simp: pwrite_ok_def sample_env_def sample_io_def Let_def unat_of_nat
        intro: order_trans [OF mod_less_eq_dividend])
  from write_counted [OF L W a] have "unat (3 :: u32) \<le> length [7, 8, 9 :: u8]" by (elim exE conjE)
  with a W show ?thesis by (intro conjI)
qed

section \<open>The switch and written data\<close>

text \<open>
  C17. The switch does not guard written data: while injection is off, what a write puts into the
  file is still what the injectors make of the data, so a mistake injector keeps damaging writes
  after \<open>disable_injection\<close>.
\<close>

theorem write_while_off:
  assumes "RUNTIME s" and "\<not> enable_injection (hookfs s)"
    and "FhMap_get (files E) (opened_files (hookfs s)) fh = Inr file"
    and "HookFs_rebuild_path (hookfs s) (file_original_path file) = Inr q"
    and "MultiInjector_inject_write_data (lib E) (hf_injector (hookfs s)) q data (world s) = (Ok data', w)"
    and "os_pwrite (io E) (file_fd file) data' off w = (ret, w')" and "ret \<noteq> - 1"
  shows "serve E (Req_write fh off data) s = (Some (ans_written (ucast ret)), s\<lparr>world := w'\<rparr>)"
  using assms
  by (simp add: AsyncFileSystem_write_def HookFs_write_def run_simps FsReply_reply_def inject_write_data_def)

definition sample_filter :: Filter where
  "sample_filter = \<lparr>path_filter = None, methods = Method_all, probability = 2 ^ 59\<rparr>"

definition sample_mistake :: MistakeInjector where
  "sample_mistake =
     \<lparr>mi_mistake = \<lparr>filling = Zero, max_length = 1, max_occurrences = 1\<rparr>, mi_filter = sample_filter\<rparr>"

lemma sample_filter_run: "Filter_filter sample_lib sample_filter WRITE q w = (Ok True, w)"
proof -
  have "match_method sample_filter WRITE"
    by (simp add: sample_filter_def match_method_def Method_all_eq Method_defs) code_simp
  then show ?thesis
    by (simp add: Filter_filter_def match_path_def f64_of_sample_def run_simps sample_lib_def sample_filter_def)
qed

lemma sample_damage:
  "MultiInjector_inject_write_data sample_lib [Mistake sample_mistake] q [7, 8, 9] w = (Ok [0, 8, 9], w)"
proof -
  have "mistake_round sample_lib (mi_mistake sample_mistake) [7, 8, 9] w = (Ok [0, 8, 9], w)"
    by (simp add: sample_mistake_def mistake_round_def gen_range_def zero_range_def run_simps Let_def sample_lib_def)
  moreover have "gen_range sample_lib 1 (unat (max_occurrences (mi_mistake sample_mistake) + 1)) w =
      (Ok 1 :: (HookFsError, nat) outcome, w)"
    by (simp add: gen_range_def sample_mistake_def run_simps sample_lib_def)
  moreover have "max_occurrences (mi_mistake sample_mistake) \<noteq> 0" "mi_filter sample_mistake = sample_filter"
    by (simp_all add: sample_mistake_def)
  ultimately show ?thesis
    by (simp add: MistakeInjector_inject_write_data_def sample_filter_run run_simps MistakeInjector_handle_def Let_def)
qed

lemma write_while_off_witness:
  "let s = sample_opened [Mistake sample_mistake] in
   \<not> enable_injection (hookfs s) \<and>
   MultiInjector_inject_write_data sample_lib (hf_injector (hookfs s)) ''/mnt/a'' [7, 8, 9] 2 = (Ok [0, 8, 9], 2) \<and>
   serve sample_env (Req_write 0 0 [7, 8, 9]) s = (Some (ans_written 3), s\<lparr>world := 3\<rparr>)"
proof -
  let ?s = "sample_opened [Mistake sample_mistake]"
  obtain q where q: "HookFs_rebuild_path (hookfs ?s) ''/data/a'' = Inr q" using sample_rebuild by blast
  have w: "os_pwrite (io sample_env) 3 [0, 8, 9] 0 2 = (3, 3)" and L: "lib sample_env = sample_lib"
    by (simp_all add: sample_env_def sample_io_def)
  have d: "MultiInjector_inject_write_data (lib sample_env) (hf_injector (hookfs ?s)) q [7, 8, 9] (world ?s) =
      (Ok [0, 8, 9], 2)"
    using sample_damage [of q 2] by (simp only: sample_opened_simps L)
  have "serve sample_env (Req_write 0 0 [7, 8, 9]) ?s = (Some (ans_written (ucast (3 :: i64))), ?s\<lparr>world := 3\<rparr>)"
    by (rule write_while_off [OF sample_opened_simps(1,2,5) _ d]) (simp_all add: q w)
  then show ?thesis unfolding Let_def using sample_damage by (simp add: sample_opened_simps del: MultiInjector_inject_write_data.simps serve.simps)
qed

end
