(* ===== verification/Fs_Names.thy ===== *)
theory Fs_Names
  imports Fs_Data
begin

text \<open>
  Names and lookup counts: every answer that carries an entry records its path and counts one
  lookup, and \<open>unlink\<close>, \<open>rename\<close> and \<open>forget\<close> take paths and inodes away again.
\<close>

section \<open>Answers that carry an entry\<close>

text \<open>The attributes in a reply that makes the kernel count a lookup.\<close>

fun entry_attr :: "Reply \<Rightarrow> FileAttr option" where
  "entry_attr (Reply_Entry e) = Some (entry_stat e)"
| "entry_attr (Reply_Create c) = Some (create_attr c)"
| "entry_attr _ = None"

fun answer_attr :: "answer \<Rightarrow> FileAttr option" where
  "answer_attr (ans_entry ttl attr generation) = Some attr"
| "answer_attr (ans_created ttl attr generation fh flags) = Some attr"
| "answer_attr _ = None"

lemma answer_entry: "answer_attr (reply_ok r) = entry_attr r"
  by (cases r) (simp_all split: Xattr.splits)

definition count_path :: "u64 \<Rightarrow> path \<Rightarrow> InodeMap \<Rightarrow> InodeMap" where
  "count_path ino p m = InodeMap_increase_ref ino (InodeMap_insert_path ino p m)"

text \<open>\<open>counts m\<close>: a result with an entry has counted its inode once and recorded a path for it.\<close>

definition counts :: "('w, 'f, 'd, Reply) fs_prog \<Rightarrow> bool" where
  "counts m \<longleftrightarrow> (\<forall>s r. fst (m s) = Ok r \<longrightarrow> (\<exists>a p. entry_attr r = Some a \<and>
     inode_map (hookfs (snd (m s))) = count_path (fa_ino a) p (inode_map (hookfs s))))"

abbreviation map_is :: "InodeMap \<Rightarrow> ('w, 'f, 'd) st \<Rightarrow> bool" where
  "map_is m \<equiv> \<lambda>s. inode_map (hookfs s) = m"

lemma counts_and_then:
  assumes "\<And>m. keeps (map_is m) n" and "\<And>a. counts (f a)"
  shows "counts (and_then n f)"
  unfolding counts_def
proof (intro allI impI)
  fix s r assume r: "fst (and_then n f s) = Ok r"
  obtain x t where x: "n s = (x, t)" by (cases "n s")
  have t: "inode_map (hookfs t) = inode_map (hookfs s)" using keepsD [OF assms(1) refl, of s] x by simp
  from r x obtain a where a: "x = Ok a" by (cases x) (simp_all add: and_then_def)
  from r x a have "fst (f a t) = Ok r" by (simp add: and_then_def)
  with assms(2) [of a] have "\<exists>b p. entry_attr r = Some b \<and>
      inode_map (hookfs (snd (f a t))) = count_path (fa_ino b) p (inode_map (hookfs t))"
    unfolding counts_def by blast
  then show "\<exists>b p. entry_attr r = Some b \<and>
      inode_map (hookfs (snd (and_then n f s))) = count_path (fa_ino b) p (inode_map (hookfs s))"
    by (simp add: and_then_def x a t)
qed

lemma counts_seq: "(\<And>m. keeps (map_is m) n) \<Longrightarrow> counts f \<Longrightarrow> counts (seq n f)"
  unfolding seq_def by (rule counts_and_then)

lemma counts_record:
  assumes "rand_ok (lib E)" and "entry_attr reply = Some a"
  shows "counts (seq (record_path (fa_ino a) p) (inject_reply E method q reply))"
  unfolding counts_def
proof (intro allI impI)
  fix s r assume r: "fst (seq (record_path (fa_ino a) p) (inject_reply E method q reply) s) = Ok r"
  let ?t = "snd (record_path (fa_ino a) p s)"
  have t: "inode_map (hookfs ?t) = count_path (fa_ino a) p (inode_map (hookfs s))"
    by (simp add: record_path_def run_simps count_path_def)
  from r have ok: "fst (inject_reply E method q reply ?t) = Ok r"
    by (simp add: record_path_def run_simps)
  from inject_reply_shape [OF assms(1) ok] assms(2) have "r = reply"
    by (cases reply) (simp_all add: same_shape_def)
  moreover have "inode_map (hookfs (snd (inject_reply E method q reply ?t))) = inode_map (hookfs ?t)"
    by (rule keepsD [OF keeps_inject_macros(7)]) simp
  ultimately show "\<exists>b q'. entry_attr r = Some b \<and>
      inode_map (hookfs (snd (seq (record_path (fa_ino a) p) (inject_reply E method q reply) s))) =
        count_path (fa_ino b) q' (inode_map (hookfs s))"
    using assms(2) t by (auto simp: record_path_def run_simps)
qed

lemma keeps_map_file [keep_intros]: "keeps (map_is m) (insert_file E file)"
  by (auto simp: keeps_def insert_file_def split: option.splits)

lemma counts_new_entry:
  assumes "rand_ok (lib E)"
  shows "counts (reply_new_entry E p)"
  unfolding reply_new_entry_def
  by (intro counts_and_then counts_record [OF assms] keep_intros) (simp add: Entry_new_def)

lemma HookFs_lookup_alt:
  "HookFs_lookup E ino name =
     seq (inject_with_parent_and_name E LOOKUP ino name)
       (and_then (get_path ino) (\<lambda>pp. reply_new_entry E (join pp name)))"
  by (simp add: HookFs_lookup_def reply_new_entry_def Let_def)

lemma counts_handler:
  assumes "rand_ok (lib E)"
  shows "counts (HookFs_lookup E p name)"
    and "counts (HookFs_mknod E p name mode rdev uid gid)"
    and "counts (HookFs_mkdir E p name mode uid gid)"
    and "counts (HookFs_symlink E p name link uid gid)"
    and "counts (HookFs_link E ino p name)"
    and "counts (HookFs_create E p name mode flags uid gid)"
  unfolding HookFs_lookup_alt HookFs_mknod_def HookFs_mkdir_def HookFs_symlink_def HookFs_link_def
    HookFs_create_def Let_def
  by (intro counts_seq counts_and_then counts_new_entry [OF assms] counts_record [OF assms] keep_intros; simp)+

text \<open>The other requests never answer with an entry.\<close>

lemma no_entry_reply:
  assumes "rand_ok (lib E)" and "entry_attr reply = None"
  shows "only (inject_reply E method p reply) (\<lambda>r. entry_attr r = None) (\<lambda>_. True)"
  by (rule onlyI, drule inject_reply_shape [OF assms(1)])
     (use assms(2) in \<open>cases reply; auto simp: same_shape_def\<close>)

lemma only_failing: "only (raise e) Q (\<lambda>_. True)" "only (last_error E t) Q (\<lambda>_. True)"
  by (simp_all add: only_def run_simps)

lemma no_entry_handler:
  assumes "rand_ok (lib E)"
  shows "only (HookFs_getattr E ino) (\<lambda>r. entry_attr r = None) (\<lambda>_. True)"
    and "only (HookFs_setattr E ino mode uid gid sz atime mtime) (\<lambda>r. entry_attr r = None) (\<lambda>_. True)"
    and "only (HookFs_readlink E ino) (\<lambda>r. entry_attr r = None) (\<lambda>_. True)"
    and "only (HookFs_open E ino flags) (\<lambda>r. entry_attr r = None) (\<lambda>_. True)"
    and "only (HookFs_read E fh off sz') (\<lambda>r. entry_attr r = None) (\<lambda>_. True)"
    and "only (HookFs_write E fh off data) (\<lambda>r. entry_attr r = None) (\<lambda>_. True)"
    and "only (HookFs_opendir E ino flags) (\<lambda>r. entry_attr r = None) (\<lambda>_. True)"
    and "only (HookFs_statfs E ino) (\<lambda>r. entry_attr r = None) (\<lambda>_. True)"
    and "only (HookFs_getxattr E ino name sz') (\<lambda>r. entry_attr r = None) (\<lambda>_. True)"
    and "only (HookFs_listxattr E ino sz') (\<lambda>r. entry_attr r = None) (\<lambda>_. True)"
    and "only HookFs_getlk (\<lambda>r. entry_attr r = None) (\<lambda>_. True)"
  unfolding handler_defs Let_def split_def
  by (intro only_seq [OF only_any] only_and_then [OF only_any] only_if only_failing no_entry_reply [OF assms];
      simp add: Open_new_def)+

lemma counted_task:
  assumes "counts m" and "spawn_reply reply_ok m s = (Some ans, t)" and "answer_attr ans = Some a"
  shows "\<exists>p. inode_map (hookfs t) = count_path (fa_ino a) p (inode_map (hookfs s))"
proof -
  from assms(3) have "\<And>e. ans \<noteq> ans_error e" "ans \<noteq> ans_dropped" by auto
  with assms(2) obtain r where r: "fst (m s) = Ok r" "reply_ok r = ans" and "t = snd (m s)"
    by (elim task_answer [where a = ans and m = m and s = s and ok = reply_ok, rotated])
       (auto simp: spawn_reply_def spawn_def split: prod.splits if_splits)
  with assms(3) answer_entry [of r] have "entry_attr r = Some a" by simp
  with assms(1) r(1) \<open>t = snd (m s)\<close> show ?thesis unfolding counts_def by fastforce
qed

lemma no_entry_task:
  assumes "only m (\<lambda>r. answer_attr (ok r) = None) (\<lambda>_. True)"
  shows "spawn_reply ok m s = (Some ans, t) \<Longrightarrow> answer_attr ans = None"
  using onlyD1 [OF assms]
  by (auto simp: spawn_reply_def spawn_def FsReply_reply_def split: prod.splits outcome.splits if_splits)
     (metis fst_conv)

lemma entry_request:
  assumes "rand_ok (lib E)" and "serve E r s = (Some ans, t)" and "answer_attr ans = Some a"
  shows "\<exists>p. inode_map (hookfs t) = count_path (fa_ino a) p (inode_map (hookfs s))"
proof -
  note c = counts_handler [OF assms(1), THEN counted_task [OF _ _ assms(3)]]
  note n = no_entry_handler [OF assms(1), folded answer_entry, THEN no_entry_task]
  have u: "only m (\<lambda>r. answer_attr (reply_ok_unit r) = None) (\<lambda>_. True)" for m :: "('a, 'b, 'c, unit) fs_prog"
    by (rule onlyI) (simp add: reply_ok_unit_def)
  from assms(2,3) show ?thesis
    by (cases r)
       (auto simp: callback_defs readdir_task spawn_def HookFs_bmap_def spawn_reply_def [of id] FsReply_reply_def
         return_def split: if_splits prod.splits outcome.splits dest: c n no_entry_task [OF u])
qed

text \<open>
  C12. Lookup counts: every answer that carries an entry (to \<open>lookup\<close>, \<open>mknod\<close>, \<open>mkdir\<close>,
  \<open>symlink\<close>, \<open>link\<close> and \<open>create\<close>) has raised the count of the inode it names by exactly one and
  left a path for that inode in the map, so the next request on the inode finds it; no other
  inode is touched.
\<close>

theorem entry_counted:
  assumes "rand_ok (lib E)" and "serve E r s = (Some ans, t)" and "answer_attr ans = Some a"
  shows "\<exists>n q. inode_map (hookfs t) (fa_ino a) = Some n \<and>
    ref_count n = (case inode_map (hookfs s) (fa_ino a) of None \<Rightarrow> 0 | Some n0 \<Rightarrow> ref_count n0) + 1 \<and>
    InodeMap_get_path (inode_map (hookfs t)) (fa_ino a) = Inr q \<and>
    (\<forall>i. i \<noteq> fa_ino a \<longrightarrow> inode_map (hookfs t) i = inode_map (hookfs s) i)"
proof -
  obtain p where p: "inode_map (hookfs t) = count_path (fa_ino a) p (inode_map (hookfs s))"
    using entry_request [OF assms] by blast
  obtain q where "InodeMap_get_path (inode_map (hookfs t)) (fa_ino a) = Inr q"
    unfolding p count_path_def get_path_increase_ref using inode_map.get_after_ins by blast
  then show ?thesis
    by (auto simp: p count_path_def InodeMap_increase_ref_def InodeMap_insert_path_def Node_insert_def
        Node_default_def split: option.splits)
qed

lemma entry_counted_witness:
  "let t = sample_found [] in
   inode_map (hookfs (sample_st [])) 7 = None \<and>
   (\<exists>n q. inode_map (hookfs t) 7 = Some n \<and> ref_count n = 1 \<and>
      InodeMap_get_path (inode_map (hookfs t)) 7 = Inr q)"
proof -
  have none: "inode_map (hookfs (sample_st [])) 7 = None"
    by (simp add: sample_st_def HookFs_new_def InodeMap_insert_path_def)
  have "rand_ok (lib sample_env)" by (simp add: sample_env_def sample_rand_ok)
  from entry_counted [OF this sample_lookup [of "[]"], of sample_attr] none show ?thesis
    by (auto simp: sample_attr_def Let_def)
qed

section \<open>Removing and renaming\<close>

text \<open>
  The inode map from \<open>M\<close> to \<open>M'\<close> loses exactly the path \<open>old\<close> of inode \<open>i\<close>; or it loses that and
  gains exactly the path \<open>new\<close> of the same inode.
\<close>

definition path_lost :: "u64 \<Rightarrow> path \<Rightarrow> InodeMap \<Rightarrow> InodeMap \<Rightarrow> bool" where
  "path_lost i old M M' \<longleftrightarrow>
     (\<forall>j q. InodeMap_known M' j q \<longleftrightarrow> InodeMap_known M j q \<and> \<not> (j = i \<and> path_eq q old))"

definition path_moved :: "u64 \<Rightarrow> path \<Rightarrow> path \<Rightarrow> InodeMap \<Rightarrow> InodeMap \<Rightarrow> bool" where
  "path_moved i old new M M' \<longleftrightarrow>
     (\<forall>j q. InodeMap_known M' j q \<longleftrightarrow>
        InodeMap_known M j q \<and> \<not> (j = i \<and> path_eq q old) \<or> j = i \<and> path_eq q new)"

text \<open>
  What \<open>unlink\<close> and \<open>rmdir\<close> take away: the path of the entry, under the inode that the attributes of
  the file show after the injection macro and before the removal. What \<open>rename\<close> moves: the path,
  under the inode that the attributes at the new path show right after \<open>renameat\<close>.
\<close>

definition drops ::
  "('w, 'f, 'd) env \<Rightarrow> Method \<Rightarrow> u64 \<Rightarrow> string \<Rightarrow> ('w, 'f, 'd) st \<Rightarrow> ('w, 'f, 'd) st \<Rightarrow> bool" where
  "drops E meth parent_ino name s t \<longleftrightarrow> (\<exists>pp stat.
     InodeMap_get_path (inode_map (hookfs s)) parent_ino = Inr pp \<and>
     fst (get_file_attr E (join pp name) (snd (inject_with_parent_and_name E meth parent_ino name s))) = Ok stat \<and>
     path_lost (fa_ino stat) (join pp name) (inode_map (hookfs s)) (inode_map (hookfs t)))"

definition moves ::
  "('w, 'f, 'd) env \<Rightarrow> u64 \<Rightarrow> string \<Rightarrow> u64 \<Rightarrow> string \<Rightarrow> ('w, 'f, 'd) st \<Rightarrow> ('w, 'f, 'd) st \<Rightarrow> bool" where
  "moves E parent_ino name newparent newname s t \<longleftrightarrow> (\<exists>pp np stat s1.
     InodeMap_get_path (inode_map (hookfs s)) parent_ino = Inr pp \<and>
     InodeMap_get_path (inode_map (hookfs s)) newparent = Inr np \<and>
     s1 = snd (inject_with_parent_and_name E RENAME parent_ino name s) \<and>
     fst (get_file_attr E (join np newname)
       (s1\<lparr>world := snd (os_renameat (fs E) (join pp name) (join np newname) (world s1))\<rparr>)) = Ok stat \<and>
     path_moved (fa_ino stat) (join pp name) (join np newname) (inode_map (hookfs s)) (inode_map (hookfs t)))"

lemma blocking_Ok:
  "spawn_blocking RUNTIME (nix_call f) s = (Ok a, t) \<Longrightarrow> t = s\<lparr>world := snd (f (world s))\<rparr>"
  by (auto simp: spawn_blocking_def nix_call_def split: if_splits prod.splits outcome.splits)

lemma update_map_Ok:
  "update_inode_map f s = (Ok u, t) \<Longrightarrow> inode_map (hookfs t) = f (inode_map (hookfs s))"
  by (auto simp: update_inode_map_def run_simps)

lemma same_map:
  "(\<And>M. keeps (map_is M) m) \<Longrightarrow> m s = (r, t) \<Longrightarrow> inode_map (hookfs t) = inode_map (hookfs s)"
  using keepsD [of "map_is (inode_map (hookfs s))" m s] by simp

lemma same_maps:
  "inject_with_parent_and_name E meth ino name s = (r, t) \<Longrightarrow> inode_map (hookfs t) = inode_map (hookfs s)"
  "get_file_attr E p s = (r', t) \<Longrightarrow> inode_map (hookfs t) = inode_map (hookfs s)"
  "async_unlink E p s = (r'', t) \<Longrightarrow> inode_map (hookfs t) = inode_map (hookfs s)"
  "async_rmdir E p s = (r'', t) \<Longrightarrow> inode_map (hookfs t) = inode_map (hookfs s)"
  "cstring p s = (r1, t) \<Longrightarrow> inode_map (hookfs t) = inode_map (hookfs s)"
  by (rule same_map [rotated], assumption, rule keep_intros)+

text \<open>The last step of \<open>unlink\<close> and \<open>rmdir\<close>, from what the attributes showed.\<close>

lemma drops_stat:
  assumes "inject_with_parent_and_name E meth p name s = (Ok u, s1)"
    and "InodeMap_get_path (inode_map (hookfs s1)) p = Inr pp"
    and "get_file_attr E (join pp name) s1 = (Ok stat, s2)" and "inode_map (hookfs s3) = inode_map (hookfs s2)"
    and "update_inode_map (InodeMap_remove_path (fa_ino stat) (join pp name)) s3 = (Ok (), t)"
  shows "drops E meth p name s t"
  using assms same_maps(1) [OF assms(1)] same_maps(2) [OF assms(3)] update_map_Ok [OF assms(5)]
  unfolding drops_def path_lost_def by (intro exI [of _ pp] exI [of _ stat]) (simp add: inode_map.known_rem)

lemma unlink_drops: "HookFs_unlink E p name s = (Ok (), t) \<Longrightarrow> drops E UNLINK p name s t"
  unfolding HookFs_unlink_def Let_def run_Ok by (blast intro: drops_stat same_maps(3))

lemma rmdir_drops: "HookFs_rmdir E p name s = (Ok (), t) \<Longrightarrow> drops E RMDIR p name s t"
  unfolding HookFs_rmdir_def Let_def run_Ok
  by (blast intro: drops_stat trans [OF same_maps(4) same_maps(5)])

lemma rename_moves:
  assumes "HookFs_rename E p name np newname s = (Ok (), t)"
  shows "moves E p name np newname s t"
proof -
  from assms obtain u s1 pp q v s2 stat s3 where i: "inject_with_parent_and_name E RENAME p name s = (Ok u, s1)"
    and pp: "InodeMap_get_path (inode_map (hookfs s1)) p = Inr pp" "InodeMap_get_path (inode_map (hookfs s1)) np = Inr q"
    and r: "spawn_blocking RUNTIME (nix_call (os_renameat (fs E) (join pp name) (join q newname))) s1 = (Ok v, s2)"
    and g: "get_file_attr E (join q newname) s2 = (Ok stat, s3)"
    and m: "update_inode_map (\<lambda>m. InodeMap_insert_path (fa_ino stat) (join q newname)
        (InodeMap_remove_path (fa_ino stat) (join pp name) m)) s3 = (Ok (), t)"
    by (auto simp: HookFs_rename_def Let_def run_Ok)
  note s2 = blocking_Ok [OF r]
  have "inode_map (hookfs s2) = inode_map (hookfs s1)" unfolding s2 by simp
  then show ?thesis
    using i pp g s2 same_maps(1) [OF i] same_maps(2) [OF g] update_map_Ok [OF m]
    unfolding moves_def path_moved_def
    by (intro exI [of _ pp] exI [of _ q] exI [of _ stat] exI [of _ s1])
       (simp add: inode_map.known_rem inode_map.known_ins)
qed

lemma task_ok:
  "spawn_reply reply_ok_unit m s = (Some ans_ok, t) \<Longrightarrow> m s = (Ok (), t)"
  by (auto simp: spawn_reply_def spawn_def FsReply_reply_def split: if_splits prod.splits outcome.splits)

text \<open>
  C13. Names follow the directory: after a successful \<open>unlink\<close> or \<open>rmdir\<close> the inode map has lost
  exactly the removed path, under the inode of the removed file as its attributes showed it, and
  after a successful \<open>rename\<close> exactly the old path is gone and the new one is recorded, both for
  the inode of the renamed file; every other recorded pair of an inode and a path is as before.
\<close>

theorem names_follow:
  "(serve E (Req_unlink p name) s = (Some ans_ok, t) \<longrightarrow> drops E UNLINK p name s t) \<and>
   (serve E (Req_rmdir p name) s = (Some ans_ok, t) \<longrightarrow> drops E RMDIR p name s t) \<and>
   (serve E (Req_rename p name np newname) s = (Some ans_ok, t) \<longrightarrow> moves E p name np newname s t)"
  by (auto simp: AsyncFileSystem_unlink_def AsyncFileSystem_rmdir_def AsyncFileSystem_rename_def
      intro: unlink_drops rmdir_drops rename_moves dest!: task_ok)

lemma sample_found_simps:
  "RUNTIME (sample_found is)" "\<not> enable_injection (hookfs (sample_found is))"
  "InodeMap_get_path (inode_map (hookfs (sample_found is))) 1 = Inr ''/data''"
  by (simp_all add: sample_found_def sample_st_def HookFs_new_def InodeMap_get_path_def Node_get_path_def)

lemma sample_found_stat:
  "get_file_attr sample_env ''/data/a'' (sample_found []) = (Ok sample_attr, (sample_found [])\<lparr>world := 2\<rparr>)"
  using sample_found_simps [of "[]"]
  by (simp add: get_file_attr_off sample_env_def sample_fs_def) (simp add: sample_found_def)

lemma sample_unlink:
  "\<exists>t. serve sample_env (Req_unlink 1 ''a'') (sample_found []) = (Some ans_ok, t)"
  using sample_found_simps [of "[]"]
  by (simp add: AsyncFileSystem_unlink_def HookFs_unlink_def run_simps Let_def sample_found_stat
      async_unlink_def sample_env_def sample_fs_def FsReply_reply_def reply_ok_unit_def)

lemma names_follow_witness:
  "\<exists>t. serve sample_env (Req_unlink 1 ''a'') (sample_found []) = (Some ans_ok, t) \<and>
     drops sample_env UNLINK 1 ''a'' (sample_found []) t \<and>
     InodeMap_known (inode_map (hookfs (sample_found []))) 7 ''/data/a'' \<and>
     \<not> InodeMap_known (inode_map (hookfs t)) 7 ''/data/a''"
proof -
  let ?s = "sample_found []"
  obtain t where t: "serve sample_env (Req_unlink 1 ''a'') ?s = (Some ans_ok, t)" using sample_unlink by blast
  with names_follow have d: "drops sample_env UNLINK 1 ''a'' ?s t" by blast
  have "fst (get_file_attr sample_env ''/data/a'' (snd (inject_with_parent_and_name sample_env UNLINK 1 ''a'' ?s))) =
      Ok sample_attr"
    using sample_found_simps [of "[]"] by (simp add: run_simps sample_found_stat)
  moreover have "fa_ino sample_attr = 7" by (simp add: sample_attr_def)
  ultimately have "\<not> InodeMap_known (inode_map (hookfs t)) 7 ''/data/a''"
    using d sample_join sample_found_simps(3) [of "[]"] by (auto simp: drops_def path_lost_def path_eq_def)
  moreover have "InodeMap_known (inode_map (hookfs ?s)) 7 ''/data/a''"
    by (simp add: sample_found_def sample_st_def HookFs_new_def InodeMap_known_def path_eq_def)
  ultimately show ?thesis using t d by blast
qed

section \<open>Forgetting\<close>

text \<open>
  C19. \<open>forget\<close> is all or nothing: it drops the inode when the number of lookups to forget
  reaches the count, and otherwise leaves the file system as it is, so that an inode survives any
  requests to forget it that are each below its count, whatever they add up to.
\<close>

theorem forget_one_by_one:
  assumes "RUNTIME s" and "inode_map (hookfs s) ino = Some node"
  shows "((\<forall>n \<in> set ns. n < ref_count node) \<longrightarrow> serve_all E (map (Req_forget ino) ns) s = s) \<and>
    (ref_count node \<le> n \<longrightarrow> snd (serve E (Req_forget ino n) s) =
      s\<lparr>hookfs := (hookfs s)\<lparr>inode_map := (inode_map (hookfs s))(ino := None)\<rparr>\<rparr>)"
proof -
  have step: "snd (serve E (Req_forget ino n) s) =
      (if ref_count node \<le> n then s\<lparr>hookfs := (hookfs s)\<lparr>inode_map := (inode_map (hookfs s))(ino := None)\<rparr>\<rparr> else s)" for n
    using assms by (auto simp: AsyncFileSystem_forget_def spawn_def HookFs_forget_def update_inode_map_def
        run_simps InodeMap_decrease_ref_def)
  have "serve_all E (map (Req_forget ino) ns) s = s" if "\<forall>n \<in> set ns. n < ref_count node"
    using that by (induction ns) (auto simp: step simp del: serve.simps)
  with step show ?thesis by simp
qed

lemma forget_one_by_one_witness:
  "let s = (sample_found [])\<lparr>hookfs := (hookfs (sample_found []))\<lparr>inode_map :=
              [7 \<mapsto> \<lparr>ref_count = 2, paths = [''/data/a'']\<rparr>]\<rparr>\<rparr> in
   serve_all sample_env (map (Req_forget 7) [1, 1, 1]) s = s \<and>
   inode_map (hookfs (snd (serve sample_env (Req_forget 7 2) s))) 7 = None"
proof -
  let ?node = "\<lparr>ref_count = 2, paths = [''/data/a'']\<rparr>"
  let ?s = "(sample_found [])\<lparr>hookfs := (hookfs (sample_found []))\<lparr>inode_map := [7 \<mapsto> ?node]\<rparr>\<rparr>"
  have "RUNTIME ?s" by (simp add: sample_found_def sample_st_def)
  from forget_one_by_one [OF this, of 7 ?node "[1, 1, 1]" sample_env 2] show ?thesis
    unfolding Let_def by (simp del: serve.simps serve_all.simps list.map)
qed

end
