(* ===== verification/Fs_Types.thy ===== *)
theory Fs_Types
  imports Fs_Names
begin

text \<open>
  The types of the answers: the FUSE protocol prescribes for every request what its answer carries.
  The handlers build replies, the injectors rewrite them, and the callbacks translate them; what
  comes out has the type of the request.
\<close>

section \<open>The types\<close>

text \<open>
  The reply object of the callback (\<open>ReplyEntry\<close>, \<open>ReplyAttr\<close>, ...); one of \<open>ReplyXattr\<close> is the size of
  the value when no room for it was offered, and the value otherwise. An error, also the one
  for a dropped reply, is an answer to everything, and \<open>forget\<close> has none.
\<close>

datatype reply_type =
    ReplyEntry | ReplyAttr | ReplyData | ReplyOpen | ReplyWrite | ReplyStatfs | ReplyCreate | ReplyLock
  | ReplyXattr u32 | ReplyDirectory | ReplyEmpty | ReplyBmap

fun request_type :: "request \<Rightarrow> reply_type option" where
  "request_type (Req_forget ino nlookup) = None"
| "request_type (Req_lookup parent_ino name) = Some ReplyEntry"
| "request_type (Req_getattr ino) = Some ReplyAttr"
| "request_type (Req_setattr ino mode uid gid sz atime mtime) = Some ReplyAttr"
| "request_type (Req_readlink ino) = Some ReplyData"
| "request_type (Req_mknod parent_ino name mode rdev uid gid) = Some ReplyEntry"
| "request_type (Req_mkdir parent_ino name mode uid gid) = Some ReplyEntry"
| "request_type (Req_unlink parent_ino name) = Some ReplyEmpty"
| "request_type (Req_rmdir parent_ino name) = Some ReplyEmpty"
| "request_type (Req_symlink parent_ino name link uid gid) = Some ReplyEntry"
| "request_type (Req_rename parent_ino name newparent newname) = Some ReplyEmpty"
| "request_type (Req_link ino newparent newname) = Some ReplyEntry"
| "request_type (Req_open ino flags) = Some ReplyOpen"
| "request_type (Req_read fh offset sz) = Some ReplyData"
| "request_type (Req_write fh offset data) = Some ReplyWrite"
| "request_type (Req_flush fh) = Some ReplyEmpty"
| "request_type (Req_release fh) = Some ReplyEmpty"
| "request_type (Req_fsync fh) = Some ReplyEmpty"
| "request_type (Req_opendir ino flags) = Some ReplyOpen"
| "request_type (Req_readdir full fh offset) = Some ReplyDirectory"
| "request_type (Req_releasedir fh) = Some ReplyEmpty"
| "request_type (Req_fsyncdir ino) = Some ReplyEmpty"
| "request_type (Req_statfs ino) = Some ReplyStatfs"
| "request_type (Req_setxattr ino name val flags) = Some ReplyEmpty"
| "request_type (Req_getxattr ino name sz) = Some (ReplyXattr sz)"
| "request_type (Req_listxattr ino sz) = Some (ReplyXattr sz)"
| "request_type (Req_removexattr ino name) = Some ReplyEmpty"
| "request_type (Req_access ino access_mask) = Some ReplyEmpty"
| "request_type (Req_create parent_ino name mode flags uid gid) = Some ReplyCreate"
| "request_type Req_getlk = Some ReplyLock"
| "request_type Req_setlk = Some ReplyEmpty"
| "request_type Req_bmap = Some ReplyBmap"

fun has_type :: "answer \<Rightarrow> reply_type \<Rightarrow> bool" where
  "has_type (ans_error e) t \<longleftrightarrow> True"
| "has_type ans_dropped t \<longleftrightarrow> True"
| "has_type (ans_entry ttl attr generation) t \<longleftrightarrow> t = ReplyEntry"
| "has_type (ans_opened fh flags) t \<longleftrightarrow> t = ReplyOpen"
| "has_type (ans_attr ttl attr) t \<longleftrightarrow> t = ReplyAttr"
| "has_type (ans_data data) t \<longleftrightarrow> t = ReplyData \<or> (\<exists>sz. t = ReplyXattr sz \<and> sz \<noteq> 0)"
| "has_type (ans_statfs blocks bfree bavail nfiles ffree bsize namelen frsize) t \<longleftrightarrow> t = ReplyStatfs"
| "has_type (ans_written sz) t \<longleftrightarrow> t = ReplyWrite"
| "has_type (ans_created ttl attr generation fh flags) t \<longleftrightarrow> t = ReplyCreate"
| "has_type (ans_locked start end typ pid) t \<longleftrightarrow> t = ReplyLock"
| "has_type (ans_size sz) t \<longleftrightarrow> t = ReplyXattr 0"
| "has_type (ans_dir items) t \<longleftrightarrow> t = ReplyDirectory"
| "has_type ans_ok t \<longleftrightarrow> t = ReplyEmpty"

section \<open>Handlers\<close>

abbreviation typed :: "('w, 'f, 'd, Reply) fs_prog \<Rightarrow> reply_type \<Rightarrow> bool" where
  "typed m t \<equiv> only m (\<lambda>r. has_type (reply_ok r) t) (\<lambda>_. True)"

lemma typed_reply:
  assumes "rand_ok (lib E)" and "has_type (reply_ok reply) t"
  shows "typed (inject_reply E method p reply) t"
  by (rule onlyI, drule inject_reply_shape [OF assms(1)])
     (use assms(2) in \<open>cases reply; auto simp: same_shape_def\<close>)

lemma typed_handler:
  assumes "rand_ok (lib E)"
  shows "typed (HookFs_lookup E parent_ino name) ReplyEntry"
    and "typed (HookFs_getattr E ino) ReplyAttr"
    and "typed (HookFs_setattr E ino mode' uid' gid' sz' atime mtime) ReplyAttr"
    and "typed (HookFs_readlink E ino) ReplyData"
    and "typed (HookFs_mknod E parent_ino name mode rdev uid gid) ReplyEntry"
    and "typed (HookFs_mkdir E parent_ino name mode uid gid) ReplyEntry"
    and "typed (HookFs_symlink E parent_ino name link uid gid) ReplyEntry"
    and "typed (HookFs_link E ino newparent newname) ReplyEntry"
    and "typed (HookFs_open E ino flags) ReplyOpen"
    and "typed (HookFs_read E fh offset sz) ReplyData"
    and "typed (HookFs_write E fh offset data) ReplyWrite"
    and "typed (HookFs_opendir E ino flags) ReplyOpen"
    and "typed (HookFs_statfs E ino) ReplyStatfs"
    and "typed (HookFs_getxattr E ino name sz) (ReplyXattr sz)"
    and "typed (HookFs_listxattr E ino sz) (ReplyXattr sz)"
    and "typed (HookFs_create E parent_ino name mode flags uid gid) ReplyCreate"
    and "typed HookFs_getlk ReplyLock"
  unfolding handler_defs reply_new_entry_def Let_def split_def
  by (intro only_seq [OF only_any] only_and_then [OF only_any] only_if only_failing typed_reply [OF assms];
      simp add: Open_new_def Entry_new_def)+

lemma typed_task:
  assumes "only m (\<lambda>r. has_type (ok r) t) (\<lambda>_. True)"
  shows "fst (spawn_reply ok m s) = Some a \<Longrightarrow> has_type a t"
  using onlyD1 [OF assms, of s]
  by (auto simp: spawn_reply_def spawn_def FsReply_reply_def split: prod.splits outcome.splits if_splits)

section \<open>Property\<close>

text \<open>
  C8. Every answer has the type of its request: whatever the state, the system calls and the
  injectors, a request is answered with an error (\<open>EIO\<close> of a dropped reply included) or with what the FUSE protocol prescribes for
  it, a request for an extended attribute with the size exactly when no room was offered, and
  \<open>forget\<close> is never answered.
\<close>

theorem answer_typed:
  assumes "rand_ok (lib E)" and "fst (serve E r s) = Some a"
  shows "\<exists>t. request_type r = Some t \<and> has_type a t"
proof -
  note t = typed_handler [OF assms(1), THEN typed_task]
  have u: "only m (\<lambda>r. has_type (reply_ok_unit r) ReplyEmpty) (\<lambda>_. True)" for m :: "('a, 'b, 'c, unit) fs_prog"
    by (rule onlyI) (simp add: reply_ok_unit_def)
  have d: "only m (\<lambda>r. has_type (ans_dir r) ReplyDirectory) (\<lambda>_. True)" for m :: "('a, 'b, 'c, dir_item list) fs_prog"
    by (rule onlyI) simp
  have b: "only HookFs_bmap (\<lambda>r. has_type (id r) ReplyBmap) (\<lambda>_. True)"
    by (rule onlyI) (auto simp: HookFs_bmap_def run_simps)
  show ?thesis
    using assms(2)
    by (cases r; simp only: serve.simps callback_defs readdir_task [unfolded callback_defs] request_type.simps option.inject ex_simps)
       (auto simp: spawn_def split: if_splits intro: t typed_task [OF u] typed_task [OF d] typed_task [OF b])
qed

lemma answer_typed_witness:
  "fst (serve sample_env (Req_read 0 0 10) (sample_opened [])) = Some (ans_data [1, 2]) \<and>
   (\<exists>t. request_type (Req_read 0 0 10) = Some t \<and> has_type (ans_data [1, 2]) t)"
proof -
  have r: "fst (serve sample_env (Req_read 0 0 10) (sample_opened [])) = Some (ans_data [1, 2])"
    unfolding sample_read by simp
  moreover have "rand_ok (lib sample_env)" using sample_rand_ok by (simp add: sample_env_def)
  ultimately show ?thesis using answer_typed [OF _ r] by blast
qed

end
