(* ===== verification/Fs_Answers.thy ===== *)
theory Fs_Answers
  imports Fs_Data
begin

text \<open>
  Every request is answered: what it takes for a request not to panic on the way, and that the
  kernel then gets an answer, whatever the system calls and the injectors return.
\<close>

section \<open>Injectors that do not panic\<close>

definition steady :: "('s, 'e, 'a) prog \<Rightarrow> bool" where
  "steady m \<longleftrightarrow> (\<forall>s. fst (m s) \<noteq> Panic)"

lemma steady_return: "steady (return a)"
  by (simp add: steady_def return_def)

lemma steady_of_outcome: "r \<noteq> Panic \<Longrightarrow> steady (of_outcome r)"
  by (simp add: steady_def of_outcome_def)

lemma steady_yields: "yields m Q \<Longrightarrow> steady m"
  unfolding steady_def by (metis yieldsD fst_conv outcome.distinct(3))

lemma steady_and_then:
  assumes "steady m" and "\<And>a. steady (f a)"
  shows "steady (and_then m f)"
  unfolding steady_def
proof
  fix s
  show "fst (and_then m f s) \<noteq> Panic"
    using assms by (cases "m s"; cases "fst (m s)") (auto simp: and_then_def steady_def dest: spec [of _ s])
qed

lemma steady_seq: "steady m \<Longrightarrow> steady n \<Longrightarrow> steady (seq m n)"
  unfolding seq_def by (rule steady_and_then)

lemma steady_if: "steady m \<Longrightarrow> steady n \<Longrightarrow> steady (if b then m else n)"
  by simp

lemmas steady_intros = steady_return steady_and_then steady_seq steady_if steady_yields [OF yields_filter]

text \<open>
  A mistake injector whose \<open>max_occurrences\<close> is the largest \<open>usize\<close> draws from an empty range.
\<close>

fun injector_steady :: "injector \<Rightarrow> bool" where
  "injector_steady (Mistake i) \<longleftrightarrow> max_occurrences (mi_mistake i) \<noteq> - 1"
| "injector_steady _ \<longleftrightarrow> True"

lemma pick_errno_steady: "pick_errno a es \<noteq> Panic"
  by (induction a es rule: pick_errno.induct) (simp_all add: Let_def)

lemma Injector_steady:
  assumes "rand_ok L" and "injector_steady i"
  shows "steady (Injector_inject L i method path)"
    and "steady (Injector_inject_reply L i method path r)"
    and "steady (Injector_inject_write_data L i path d)"
    and "steady (Injector_inject_attr L i attr path)"
proof -
  note h = handle_damaged [OF assms(1), THEN steady_yields]
  show "steady (Injector_inject L i method path)"
    by (cases i) (auto simp: FaultInjector_inject_def LatencyInjector_inject_def Let_def
        intro!: steady_intros steady_of_outcome steady_yields [OF yields_call] steady_yields [OF yields_modify]
          pick_errno_steady)
  show "steady (Injector_inject_reply L i method path r)"
    using assms(2) h by (cases i) (auto simp: MistakeInjector_inject_reply_def split: Reply.splits intro!: steady_intros)
  show "steady (Injector_inject_write_data L i path d)"
    using assms(2) h by (cases i) (auto simp: MistakeInjector_inject_write_data_def intro!: steady_intros)
  show "steady (Injector_inject_attr L i attr path)"
    by (cases i) (auto simp: AttrOverrideInjector_inject_attr_def intro!: steady_intros)
qed

lemma MultiInjector_steady:
  assumes "rand_ok L" and "list_all injector_steady is"
  shows "steady (MultiInjector_inject L is method path)"
    and "steady (MultiInjector_inject_reply L is method path r)"
    and "steady (MultiInjector_inject_write_data L is path d)"
    and "steady (MultiInjector_inject_attr L is attr path)"
  using assms(2)
  by (induction "is" arbitrary: r d attr)
     (auto intro!: steady_return steady_seq steady_and_then Injector_steady [OF assms(1)])

section \<open>Requests that do not panic\<close>

definition up :: "(('f, 'd) HookFs \<Rightarrow> bool) \<Rightarrow> ('w, 'f, 'd) st \<Rightarrow> bool" where
  "up P s \<longleftrightarrow> RUNTIME s \<and> list_all injector_steady (hf_injector (hookfs s)) \<and> P (hookfs s)"

text \<open>
  \<open>calm P m Q\<close>: with a runtime and steady injectors, \<open>m\<close> started where \<open>P\<close> holds of the tables
  does not panic, and where it returns a value \<open>Q\<close> holds of them.
\<close>

definition calm ::
  "(('f, 'd) HookFs \<Rightarrow> bool) \<Rightarrow> ('w, 'f, 'd, 'a) fs_prog \<Rightarrow> (('f, 'd) HookFs \<Rightarrow> bool) \<Rightarrow> bool" where
  "calm P m Q \<longleftrightarrow> (\<forall>s. up P s \<longrightarrow> fst (m s) \<noteq> Panic \<and> (\<forall>a. fst (m s) = Ok a \<longrightarrow> up Q (snd (m s))))"

lemma calmI:
  "(\<And>s. up P s \<Longrightarrow> fst (m s) \<noteq> Panic) \<Longrightarrow> (\<And>s a. up P s \<Longrightarrow> fst (m s) = Ok a \<Longrightarrow> up Q (snd (m s))) \<Longrightarrow>
   calm P m Q"
  by (simp add: calm_def)

lemma calmD1: "calm P m Q \<Longrightarrow> up P s \<Longrightarrow> fst (m s) \<noteq> Panic"
  by (simp add: calm_def)

lemma calmD2: "calm P m Q \<Longrightarrow> up P s \<Longrightarrow> fst (m s) = Ok a \<Longrightarrow> up Q (snd (m s))"
  by (simp add: calm_def)

lemma calm_and_then:
  fixes m :: "('w, 'f, 'd, 'a) fs_prog"
  assumes "calm P m R" and "\<And>a. calm R (f a) Q"
  shows "calm P (and_then m f) Q"
proof (rule calmI)
  fix s :: "('w, 'f, 'd) st" assume s: "up P s"
  obtain x t where x: "m s = (x, t)" by (cases "m s")
  have next_up: "up R t" if "x = Ok a" for a using calmD2 [OF assms(1) s, of a] x that by simp
  show "fst (and_then m f s) \<noteq> Panic"
    using calmD1 [OF assms(1) s] calmD1 [OF assms(2) next_up] by (cases x) (simp_all add: and_then_def x)
  show "up Q (snd (and_then m f s))" if "fst (and_then m f s) = Ok b" for b
    using that calmD2 [OF assms(2) next_up] by (cases x) (simp_all add: and_then_def x)
qed

lemma calm_seq: "calm P m R \<Longrightarrow> calm R n Q \<Longrightarrow> calm P (seq m n) Q"
  unfolding seq_def by (rule calm_and_then)

lemmas calm_same = calm_and_then [where R = P and P = P for P] calm_seq [where R = P and P = P for P]

lemma calm_if: "calm P m Q \<Longrightarrow> calm P n Q \<Longrightarrow> calm P (if b then m else n) Q"
  by simp

lemma calm_sum:
  "(\<And>a. calm P (f a) Q) \<Longrightarrow> (\<And>b. calm P (g b) Q) \<Longrightarrow> calm P (case x of Inl a \<Rightarrow> f a | Inr b \<Rightarrow> g b) Q"
  by (cases x) simp_all

lemma calm_prod: "(\<And>a b. calm P (f a b) Q) \<Longrightarrow> calm P (case x of (a, b) \<Rightarrow> f a b) Q"
  by (cases x) simp

lemma calm_raise: "calm P (raise e) Q" "calm P (last_error E t) Q"
  by (simp_all add: calm_def raise_def last_error_def)

lemma calm_return: "calm P (return a) P"
  by (simp add: calm_def return_def)

lemma calm_of_result: "calm P (of_result r) P"
  by (simp add: of_result_def calm_return calm_raise split: sum.split)

lemma calm_self: "calm P self P"
  by (simp add: calm_def self_def gets_def)

lemma calm_cstring: "calm P (cstring c) P"
  by (simp add: cstring_def calm_return calm_raise split: option.split)

lemma calm_libc_call: "calm P (libc_call f) P"
  by (simp add: calm_def libc_call_def up_def split: prod.split)

lemma calm_get: "calm P (get_path ino) P" "calm P (get_file E fh) P" "calm P (get_dir E fh) P"
  unfolding get_path_def get_file_def get_dir_def
  by (rule calm_and_then [OF calm_self calm_of_result])+

lemma calm_outcome: "r \<noteq> Panic \<Longrightarrow> calm P (of_outcome r) P"
  by (simp add: calm_def of_outcome_def)

lemma calm_world:
  fixes m :: "('w, HookFsError, 'a) prog"
  assumes "steady m"
  shows "calm P (on_world m :: ('w, 'f, 'd, 'a) fs_prog) P"
proof (rule calmI)
  fix s :: "('w, 'f, 'd) st" assume s: "up P s"
  obtain x w where x: "m (world s) = (x, w)" by (cases "m (world s)")
  with assms have "x \<noteq> Panic" unfolding steady_def by (metis fst_conv)
  with x show "fst (on_world m s) \<noteq> Panic" by (simp add: on_world_def zoom_def)
  show "up P (snd (on_world m s))" using s x by (simp add: on_world_def zoom_def up_def)
qed

lemma keeps_up:
  "keeps (up P) (nix_call f)" "keeps (up P) (libc_call g)"
  by (simp_all add: keeps_def nix_call_def libc_call_def up_def split: prod.splits)

lemma calm_blocking:
  assumes "keeps (up P) f"
  shows "calm P (spawn_blocking RUNTIME f) P"
proof (rule calmI)
  show "fst (spawn_blocking RUNTIME f s) \<noteq> Panic" if "up P s" for s
    by (rule spawn_blocking_no_panic) (use that in \<open>simp add: up_def\<close>)
  show "up P (snd (spawn_blocking RUNTIME f s))" if "up P s" for s
    by (rule keepsD [OF keeps_spawn_blocking [OF assms] that])
qed

lemma calm_async:
  "calm P (async_setxattr E p n data flags) P" "calm P (async_getxattr E p n sz) P"
  "calm P (async_read E fd len off) P" "calm P (async_write E fd data off) P" "calm P (async_stat E p) P"
  "calm P (async_lchown E p uid gid) P" "calm P (async_fchmodat E p mode) P" "calm P (async_truncate E p len64) P"
  "calm P (async_utimensat E p ts) P" "calm P (async_readlink E p) P" "calm P (async_mknod E p mode rdev) P"
  "calm P (async_mkdir E p mode) P" "calm P (async_unlink E p) P" "calm P (async_rmdir E p) P"
  "calm P (async_open E p oflags mode) P" "calm P (async_close E fd) P"
  unfolding async_defs split_def
  by (intro calm_blocking keeps_and_then keeps_if keeps_up keeps_return keeps_last_error keeps_panic)+

text \<open>The injection macros.\<close>

lemma calm_injectors:
  assumes "\<And>h. list_all injector_steady (hf_injector h) \<Longrightarrow> calm P (f h) Q"
  shows "calm P (and_then self f) Q"
proof (rule calmI)
  show "fst (and_then self f s) \<noteq> Panic" if "up P s" for s
    using calmD1 [OF assms that] that by (simp add: self_def run_simps up_def)
  show "up Q (snd (and_then self f s))" if "up P s" and "fst (and_then self f s) = Ok a" for s a
    using calmD2 [OF assms that(1)] that by (simp add: self_def run_simps up_def)
qed

lemma calm_inject:
  assumes "rand_ok (lib E)"
  shows "calm P (inject E method p) P"
    and "calm P (inject_attr E attr p) P"
    and "calm P (inject_reply E method p r) P"
    and "calm P (inject_write_data E fh d) P"
  unfolding inject_def inject_attr_def inject_reply_def inject_write_data_def
  by (intro calm_injectors calm_if calm_and_then [OF calm_of_result] calm_world calm_return calm_sum
      MultiInjector_steady [OF assms]; assumption)+

lemma calm_inject_at:
  assumes "rand_ok (lib E)"
  shows "calm P (inject_with_ino E method ino) P"
    and "calm P (inject_with_fh E method fh) P"
    and "calm P (inject_with_dir_fh E method fh) P"
    and "calm P (inject_with_parent_and_name E method ino name) P"
  unfolding inject_with_ino_def inject_with_fh_def inject_with_dir_fh_def inject_with_parent_and_name_def
  by (intro calm_injectors calm_sum calm_return calm_inject [OF assms])+

text \<open>
  File times the conversion accepts: not before 1970, and nanoseconds below a second.
\<close>

definition time_ok :: "i64 \<Rightarrow> i64 \<Rightarrow> bool" where
  "time_ok sec nsec \<longleftrightarrow> 0 \<le> sint sec \<and> 0 \<le> sint nsec \<and> sint nsec < 1000000000"

definition lstat_times_ok :: "('w, 'f, 'd) env \<Rightarrow> bool" where
  "lstat_times_ok E \<longleftrightarrow> (\<forall>p w st w'. os_lstat (fs E) p w = (Inr st, w') \<longrightarrow>
     time_ok (st_atime st) (st_atime_nsec st) \<and> time_ok (st_mtime st) (st_mtime_nsec st) \<and>
     time_ok (st_ctime st) (st_ctime_nsec st))"

lemma convert_steady:
  assumes "time_ok (st_atime st) (st_atime_nsec st)" and "time_ok (st_mtime st) (st_mtime_nsec st)"
    and "time_ok (st_ctime st) (st_ctime_nsec st)"
  shows "convert_libc_stat_to_fuse_stat st \<noteq> Panic"
  using assms system_time_ok [of 0 0]
  by (simp add: convert_libc_stat_to_fuse_stat_def time_ok_def system_time_ok split: option.split)

lemma calm_get_file_attr:
  fixes E :: "('w, 'f, 'd) env"
  assumes "rand_ok (lib E)" and "lstat_times_ok E"
  shows "calm P (get_file_attr E p) P"
proof -
  have "calm P (and_then (async_stat E p) (\<lambda>stat. of_outcome (convert_libc_stat_to_fuse_stat stat))) P"
  proof (rule calmI)
    fix s :: "('w, 'f, 'd) st" assume "up P s"
    then have r: "RUNTIME s" by (simp add: up_def)
    obtain x w where x: "os_lstat (fs E) p (world s) = (x, w)" by (cases "os_lstat (fs E) p (world s)")
    show "fst (and_then (async_stat E p) (\<lambda>stat. of_outcome (convert_libc_stat_to_fuse_stat stat)) s) \<noteq> Panic"
    proof (cases x)
      case (Inr st)
      then have "convert_libc_stat_to_fuse_stat st \<noteq> Panic"
        using assms(2) x by (intro convert_steady) (auto simp: lstat_times_ok_def)
      with r x Inr show ?thesis
        by (simp add: async_stat_def run_simps)
    qed (use r x in \<open>simp add: async_stat_def run_simps\<close>)
    show "up P (snd (and_then (async_stat E p) (\<lambda>stat. of_outcome (convert_libc_stat_to_fuse_stat stat)) s))"
      using \<open>up P s\<close> r x by (cases x) (simp_all add: async_stat_def run_simps up_def split: outcome.split)
  qed
  from calm_and_then [OF this calm_inject(2) [OF assms(1)]] show ?thesis
    by (simp add: get_file_attr_def and_then_assoc)
qed

text \<open>The tables.\<close>

definition room :: "('w, 'f, 'd) env \<Rightarrow> ('f, 'd) HookFs \<Rightarrow> bool" where
  "room E h \<longleftrightarrow> (\<forall>x. slab_insert (files E) x (opened_files h) \<noteq> None) \<and>
     (\<forall>x. slab_insert (dirs E) x (opened_dirs h) \<noteq> None)"

abbreviation any_tables :: "('f, 'd) HookFs \<Rightarrow> bool" where
  "any_tables \<equiv> \<lambda>_. True"

lemma roomD:
  assumes "room E h"
  shows "\<exists>k m. slab_insert (files E) x (opened_files h) = Some (k, m)"
    and "\<exists>k m. slab_insert (dirs E) y (opened_dirs h) = Some (k, m)"
  using assms unfolding room_def by (metis not_None_eq prod.collapse)+

lemma calm_insert:
  "calm (room E) (insert_file E file) any_tables" "calm (room E) (insert_dir E dir) any_tables"
proof -
  show "calm (room E) (insert_file E file) any_tables"
    using roomD(1) [of E _ "file"] by (fastforce simp: calm_def up_def insert_file_def)
  show "calm (room E) (insert_dir E dir) any_tables"
    using roomD(2) [of E _ dir] by (fastforce simp: calm_def up_def insert_dir_def)
qed

lemma calm_update: "calm any_tables (update_inode_map f) any_tables"
  by (simp add: calm_def up_def update_inode_map_def modify_def)

lemma calm_if_some: "(\<And>x. calm P (f x) P) \<Longrightarrow> calm P (if_some v f) P"
  by (simp add: if_some_def calm_return split: option.split)

lemma calm_time: "convert_time t \<noteq> None \<Longrightarrow> calm P (unwrapped_time t) P"
  by (auto simp: unwrapped_time_def calm_return split: option.split)

lemma calm_new_entry:
  assumes "rand_ok (lib E)" and "lstat_times_ok E"
  shows "calm any_tables (reply_new_entry E p) any_tables"
  unfolding reply_new_entry_def record_path_def
  by (intro calm_same calm_update calm_inject [OF assms(1)] calm_get_file_attr [OF assms])

lemma readdir_loop_steady: "readdir_loop full n es reply \<noteq> Panic"
  by (induction full n es reply rule: readdir_loop.induct) (auto simp: Let_def split: option.split)

lemmas calm_intros = calm_same calm_if calm_prod calm_return calm_of_result calm_self calm_cstring
  calm_libc_call calm_get calm_update calm_insert calm_if_some calm_async calm_raise
  calm_blocking keeps_and_then keeps_if keeps_up keeps_return keeps_raise

lemma calm_plain:
  assumes "rand_ok (lib E)" and "lstat_times_ok E"
  shows "calm any_tables (HookFs_lookup E ino name) any_tables"
    and "calm any_tables (HookFs_getattr E ino) any_tables"
    and "calm any_tables (HookFs_readlink E ino) any_tables"
    and "calm any_tables (HookFs_mknod E ino name mode rdev uid gid) any_tables"
    and "calm any_tables (HookFs_mkdir E ino name mode uid gid) any_tables"
    and "calm any_tables (HookFs_unlink E ino name) any_tables"
    and "calm any_tables (HookFs_rmdir E ino name) any_tables"
    and "calm any_tables (HookFs_symlink E ino name link uid gid) any_tables"
    and "calm any_tables (HookFs_rename E ino name ino' name') any_tables"
    and "calm any_tables (HookFs_link E ino ino' name) any_tables"
    and "calm any_tables (HookFs_read E fh off sz) any_tables"
    and "calm any_tables (HookFs_write E fh off data) any_tables"
    and "calm any_tables (HookFs_flush E fh) any_tables"
    and "calm any_tables (HookFs_fsync E fh) any_tables"
    and "calm any_tables (HookFs_fsyncdir E fh) any_tables"
    and "calm any_tables (HookFs_statfs E ino) any_tables"
    and "calm any_tables (HookFs_setxattr E ino name val xflags) any_tables"
    and "calm any_tables (HookFs_getxattr E ino name sz) any_tables"
    and "calm any_tables (HookFs_listxattr E ino sz) any_tables"
    and "calm any_tables (HookFs_removexattr E ino name) any_tables"
    and "calm any_tables (HookFs_access E ino acc) any_tables"
    and "calm any_tables (HookFs_readdir E full fh off) any_tables"
  unfolding handler_defs reply_new_entry_def record_path_def Let_def
  by (intro calm_intros calm_outcome readdir_loop_steady calm_inject [OF assms(1)] calm_inject_at [OF assms(1)]
      calm_get_file_attr [OF assms] calm_new_entry [OF assms])+

lemma calm_open:
  assumes "rand_ok (lib E)" and "lstat_times_ok E"
  shows "calm (room E) (HookFs_open E ino flags) any_tables"
    and "calm (room E) (HookFs_opendir E ino flags) any_tables"
    and "calm (room E) (HookFs_create E ino name mode flags uid gid) any_tables"
proof -
  note at = calm_inject_at [OF assms(1)] calm_get_file_attr [OF assms] calm_inject [OF assms(1)]
  show "calm (room E) (HookFs_open E ino flags) any_tables"
    unfolding HookFs_open_def Let_def
    by (rule calm_seq [OF at(1)] calm_and_then [OF calm_get(1)] calm_and_then [OF calm_async(15)]
        calm_and_then [OF calm_insert(1)] at)+
  show "calm (room E) (HookFs_opendir E ino flags) any_tables"
    unfolding HookFs_opendir_def Let_def
    by (rule calm_seq [OF at(1)] calm_and_then [OF calm_get(1)]
        calm_and_then [OF calm_blocking [OF keeps_up(1)]] calm_and_then [OF calm_insert(2)] at)+
  show "calm (room E) (HookFs_create E ino name mode flags uid gid) any_tables"
    unfolding HookFs_create_def Let_def record_path_def
    by (rule calm_seq [OF at(4)] calm_and_then [OF calm_get(1)] calm_and_then [OF calm_async(15)]
        calm_seq [OF calm_async(6)] calm_and_then [OF at(5)] calm_and_then [OF calm_insert(1)]
        calm_seq [OF calm_update] at)+
qed

lemma calm_setattr:
  assumes "rand_ok (lib E)" and "lstat_times_ok E" and "convert_time atime \<noteq> None" and "convert_time mtime \<noteq> None"
  shows "calm any_tables (HookFs_setattr E ino mode uid gid sz atime mtime) any_tables"
  unfolding HookFs_setattr_def Let_def
  by (intro calm_intros calm_time [OF assms(3)] calm_time [OF assms(4)] calm_inject [OF assms(1)]
      calm_inject_at [OF assms(1)] calm_get_file_attr [OF assms(1,2)])

definition file_open :: "('w, 'f, 'd) env \<Rightarrow> u64 \<Rightarrow> ('f, 'd) HookFs \<Rightarrow> bool" where
  "file_open E fh h \<longleftrightarrow> slab_get (files E) (opened_files h) fh \<noteq> None"

definition dir_open :: "('w, 'f, 'd) env \<Rightarrow> u64 \<Rightarrow> ('f, 'd) HookFs \<Rightarrow> bool" where
  "dir_open E fh h \<longleftrightarrow> slab_get (dirs E) (opened_dirs h) fh \<noteq> None"

lemma calm_release:
  assumes "slab_ok (files E)"
  shows "calm (file_open E fh) (HookFs_release E fh) any_tables"
  unfolding HookFs_release_def
proof (intro calm_same calm_self calm_seq [where R = "file_open E fh"] calm_sum calm_return calm_async)
  show "calm (file_open E fh) (remove_file E fh) any_tables"
    using slab_ok_remove_iff [OF assms, of fh]
    by (auto simp: calm_def up_def file_open_def remove_file_def split: option.split)
qed

lemma calm_releasedir:
  assumes "slab_ok (dirs E)"
  shows "calm (dir_open E fh) (HookFs_releasedir E fh) any_tables"
  using slab_ok_remove_iff [OF assms, of fh]
  by (auto simp: calm_def up_def dir_open_def HookFs_releasedir_def remove_dir_def split: option.split)

text \<open>What a request needs of its arguments and of the tables to be answered.\<close>

fun answerable :: "('w, 'f, 'd) env \<Rightarrow> request \<Rightarrow> ('f, 'd) HookFs \<Rightarrow> bool" where
  "answerable E (Req_forget _ _) h \<longleftrightarrow> False"
| "answerable E (Req_setattr _ _ _ _ _ atime mtime) h \<longleftrightarrow> convert_time atime \<noteq> None \<and> convert_time mtime \<noteq> None"
| "answerable E (Req_open _ _) h \<longleftrightarrow> room E h"
| "answerable E (Req_opendir _ _) h \<longleftrightarrow> room E h"
| "answerable E (Req_create _ _ _ _ _ _) h \<longleftrightarrow> room E h"
| "answerable E (Req_release fh) h \<longleftrightarrow> file_open E fh h"
| "answerable E (Req_releasedir fh) h \<longleftrightarrow> dir_open E fh h"
| "answerable E _ h \<longleftrightarrow> True"

lemma reply_called: "reply_ok r \<noteq> ans_dropped" "reply_ok_unit u \<noteq> ans_dropped"
  by (cases r) (simp_all add: reply_ok_unit_def split: Xattr.split)

lemma calm_answers: "calm P m Q \<Longrightarrow> up P s \<Longrightarrow> (\<And>a. ok a \<noteq> ans_dropped) \<Longrightarrow> \<exists>a. fst (spawn_reply ok m s) = Some a \<and> a \<noteq> ans_dropped"
  by (drule (1) calmD1)
     (auto simp: spawn_reply_def spawn_def FsReply_reply_def up_def split: prod.splits outcome.splits)

text \<open>
  C20. Handlers answer: with a runtime, injectors whose ranges are not empty and file times from
  1970 on, a request gets its answer, an error included, from its handler and never from a dropped
  reply, whatever the system calls return. Some requests need more (\<open>answerable\<close>): \<open>open\<close>,
  \<open>opendir\<close> and \<open>create\<close> room in the tables, \<open>release\<close> and \<open>releasedir\<close> an open handle, \<open>setattr\<close>
  times that can be converted; \<open>forget\<close> has no answer and is not covered.
\<close>

theorem serve_answers:
  fixes E :: "('w, 'f, 'd) env"
  assumes "env_ok E" and "rand_ok (lib E)" and "lstat_times_ok E" and "RUNTIME s"
    and "list_all injector_steady (hf_injector (hookfs s))" and "answerable E r (hookfs s)"
  shows "\<exists>a. fst (serve E r s) = Some a \<and> a \<noteq> ans_dropped"
proof -
  have slabs: "slab_ok (files E)" "slab_ok (dirs E)" using assms(1) by (simp_all add: env_ok_def)
  have up: "up any_tables s" "room E (hookfs s) \<Longrightarrow> up (room E) s"
    "file_open E fh (hookfs s) \<Longrightarrow> up (file_open E fh) s" "dir_open E fh (hookfs s) \<Longrightarrow> up (dir_open E fh) s" for fh
    using assms(4,5) by (simp_all add: up_def)
  note plain = calm_plain [OF assms(2,3), THEN calm_answers, OF up(1)]
  note opens = calm_open [OF assms(2,3), THEN calm_answers, OF up(2)]
  note closing = calm_release [OF slabs(1), THEN calm_answers, OF up(3)]
    calm_releasedir [OF slabs(2), THEN calm_answers, OF up(4)]
  note setattr = calm_setattr [OF assms(2,3), THEN calm_answers, OF _ _ up(1)]
  have readdir: "\<exists>a. fst (AsyncFileSystem_readdir E full fh off s) = Some a \<and> a \<noteq> ans_dropped" for full fh off
    unfolding readdir_task by (rule plain(22)) simp
  have fixed: "\<exists>a. fst (spawn_reply reply_ok HookFs_getlk s) = Some a \<and> a \<noteq> ans_dropped"
    "\<exists>a. fst (spawn_reply reply_ok_unit HookFs_setlk s) = Some a \<and> a \<noteq> ans_dropped"
    "\<exists>a. fst (spawn_reply id HookFs_bmap s) = Some a \<and> a \<noteq> ans_dropped"
    using assms(4) by (simp_all add: HookFs_getlk_def HookFs_setlk_def HookFs_bmap_def spawn_reply_def spawn_def
        FsReply_reply_def run_simps reply_called)
  show ?thesis
    using assms(6) by (cases r) (simp_all add: callback_defs plain opens closing setattr fixed reply_called
        readdir [unfolded AsyncFileSystem_readdir_def])
qed

lemma serve_answers_witness:
  "let i = \<lparr>mi_mistake = \<lparr>filling = Zero, max_length = 2, max_occurrences = 3\<rparr>,
            mi_filter = \<lparr>path_filter = None, methods = Method_all, probability = 2 ^ 59\<rparr>\<rparr>
   in lstat_times_ok sample_env \<and> answerable sample_env (Req_read 0 0 10) (hookfs (sample_opened [Mistake i])) \<and>
      (\<exists>a. fst (serve sample_env (Req_read 0 0 10) (sample_opened [Mistake i])) = Some a \<and> a \<noteq> ans_dropped)"
proof -
  let ?i = "\<lparr>mi_mistake = \<lparr>filling = Zero, max_length = 2, max_occurrences = 3\<rparr>,
            mi_filter = \<lparr>path_filter = None, methods = Method_all, probability = 2 ^ 59\<rparr>\<rparr>"
  have t: "lstat_times_ok sample_env"
    by (auto simp: lstat_times_ok_def sample_env_def sample_fs_def sample_stat_def time_ok_def split: if_splits)
  have r: "rand_ok (lib sample_env)" by (simp add: sample_env_def sample_rand_ok)
  have "RUNTIME (sample_opened [Mistake ?i])" "hf_injector (hookfs (sample_opened [Mistake ?i])) = [Mistake ?i]"
    by (simp_all add: sample_opened_simps)
  with serve_answers [OF sample_env_ok r t, of "sample_opened [Mistake ?i]" "Req_read 0 0 10"] t show ?thesis
    unfolding Let_def by (simp del: serve.simps)
qed

end
