(* ===== verification/Injector_Effects.thy ===== *)
theory Injector_Effects
  imports Sample
begin

text \<open>
  What the injectors do to a request, in terms of their configuration: which requests a filter lets
  through and at which rate, with which frequency a fault is drawn, how much of the data a mistake
  damages, and how timestamps travel from the file system to a \<open>setattr\<close> request and back.
\<close>

section \<open>The rate of a filter\<close>

text \<open>The number of the equally likely samples of the random generator that lie below a bound.\<close>

definition samples_below :: "f64 \<Rightarrow> nat" where
  "samples_below p = card {m. m < 2 ^ 53 \<and> f64_of_sample m < p}"

lemma samples_below_eq:
  "samples_below p = (if p \<le> 0 then 0 else min (2 ^ 53) (nat ((p + 63) div 64)))"
proof -
  have "{m. m < 2 ^ 53 \<and> f64_of_sample m < p} = {..< min (2 ^ 53) (nat ((p + 63) div 64))}"
    by (auto simp: f64_of_sample_def)
  moreover have "nat ((p + 63) div 64) = 0" if "p \<le> 0" using that by simp
  ultimately show ?thesis by (simp add: samples_below_def)
qed

lemma samples_below_rate:
  assumes "0 < sint (n :: i32)" and "sint n < 100"
  shows "\<bar>100 * int (samples_below (f64_div (f64_of_i32 n) (f64_of_i32 100))) - sint n * 2 ^ 53\<bar> \<le> 150"
proof -
  let ?p = "f64_div (f64_of_i32 n) (f64_of_i32 100)"
  have e: "\<bar>100 * ?p - sint n * 2 ^ 59\<bar> \<le> 3200"
    using percent_error [OF assms] by (simp add: f64_unit_def)
  then have l: "sint n * 2 ^ 59 - 3200 \<le> 100 * ?p" and u: "100 * ?p \<le> sint n * 2 ^ 59 + 3200"
    by (simp_all add: abs_le_iff)
  have p: "0 < ?p" "?p \<le> 2 ^ 59" using l u assms by simp_all
  then have eq: "int (samples_below ?p) = (?p + 63) div 64"
    by (simp add: samples_below_eq)
  have d: "64 * ((?p + 63) div 64) \<le> ?p + 63" "?p \<le> 64 * ((?p + 63) div 64)" by simp_all
  show ?thesis unfolding eq using l u d by (simp add: abs_le_iff)
qed

lemma listed_method:
  assumes "(name, meth) \<in> set method_names"
  shows "build_methods ms AND meth \<noteq> 0 \<longleftrightarrow>
    (case ms of None \<Rightarrow> True | Some ns \<Rightarrow> ns = [] \<or> (\<exists>s \<in> set ns. to_lowercase s = name))"
  using build_methods_and [OF assms] method_all_and [OF assms]
  by (auto simp: build_methods_def split: option.splits)

text \<open>
  C35. A filter decides as it is configured: the request passes when its path matches the pattern,
  its method is one of the listed names (upper and lower case alike; no list or an empty one
  stands for every method) and the random sample lies below the configured rate. Of the \<open>2 ^ 53\<close>
  equally likely samples none does for a percentage of 0 or less, all of them do from 100 on, and
  in between their share is the percentage itself up to one and a half samples, rounding of the
  64-bit floating-point division included.
\<close>

theorem filter_decides:
  assumes "Filter_build L conf = Inr f" and "(name, meth) \<in> set method_names"
  shows "Filter_filter L f meth path w =
      (Ok (match_path L f path \<and>
           (case cfg_methods conf of None \<Rightarrow> True | Some ns \<Rightarrow> ns = [] \<or> (\<exists>s \<in> set ns. to_lowercase s = name)) \<and>
           f64_of_sample (fst (rng_gen_f64 L w)) < probability f), snd (rng_gen_f64 L w)) \<and>
    (sint (cfg_percent conf) \<le> 0 \<longrightarrow> samples_below (probability f) = 0) \<and>
    (100 \<le> sint (cfg_percent conf) \<longrightarrow> samples_below (probability f) = 2 ^ 53) \<and>
    (0 < sint (cfg_percent conf) \<and> sint (cfg_percent conf) < 100 \<longrightarrow>
     \<bar>100 * int (samples_below (probability f)) - sint (cfg_percent conf) * 2 ^ 53\<bar> \<le> 150)"
proof -
  have p: "probability f = f64_div (f64_of_i32 (cfg_percent conf)) (f64_of_i32 100)"
    and m: "methods f = build_methods (cfg_methods conf)"
    using assms(1) by (auto simp: Filter_build_def)
  have all: "samples_below (probability f) = 2 ^ 53" if "100 \<le> sint (cfg_percent conf)"
  proof -
    have "2 ^ 59 \<le> probability f" using percent_ge_100 [OF that] by (simp add: p f64_unit_def)
    then have "2 ^ 53 \<le> (probability f + 63) div 64" by simp
    then have "min (2 ^ 53) (nat ((probability f + 63) div 64)) = 2 ^ 53"
      by (simp add: min_def le_nat_iff)
    with \<open>2 ^ 59 \<le> probability f\<close> show ?thesis by (simp add: samples_below_eq)
  qed
  have none: "samples_below (probability f) = 0" if "sint (cfg_percent conf) \<le> 0"
    using percent_nonpos [OF that] by (simp add: samples_below_eq p)
  have "Filter_filter L f meth path w =
      (Ok (match_path L f path \<and> build_methods (cfg_methods conf) AND meth \<noteq> 0 \<and>
           f64_of_sample (fst (rng_gen_f64 L w)) < probability f), snd (rng_gen_f64 L w))"
    by (simp add: Filter_filter_def run_simps match_method_def m)
  with all none show ?thesis
    using samples_below_rate [of "cfg_percent conf"] unfolding listed_method [OF assms(2)] p by blast
qed

lemma filter_decides_witness:
  "\<exists>f. Filter_build sample_lib \<lparr>cfg_path = None, cfg_methods = Some [''READ''], cfg_percent = 30\<rparr> = Inr f \<and>
     (''read'', READ) \<in> set method_names \<and>
     Filter_filter sample_lib f READ ''/a'' 0 = (Ok (f64_of_sample 0 < probability f), 0) \<and>
     \<bar>100 * int (samples_below (probability f)) - 30 * 2 ^ 53\<bar> \<le> 150"
proof -
  let ?c = "\<lparr>cfg_path = None, cfg_methods = Some [''READ''], cfg_percent = 30\<rparr>"
  obtain f where f: "Filter_build sample_lib ?c = Inr f" by (simp add: Filter_build_def)
  have r: "(''read'', READ) \<in> set method_names" by (simp add: method_names_def)
  have "match_path sample_lib f ''/a''"
    using f by (auto simp: Filter_build_def build_path_filter_def match_path_def)
  moreover have "to_lowercase ''READ'' = ''read''" by code_simp
  ultimately show ?thesis
    using filter_decides [OF f r, of "''/a''" 0] f r by (simp add: sample_lib_def)
qed

section \<open>The frequency of a fault\<close>

text \<open>
  C33. A fault is drawn by weight: for weights that are not negative and whose sum is a positive
  32-bit number, every sample of the random generator selects an entry of the list in which each
  configured error number stands as often as its weight says. The draw never misses, although it
  multiplies floating-point numbers and subtracts the weights one by one, and the list is as long
  as the sum of the weights.
\<close>

theorem fault_by_weight:
  assumes "FaultInjector_build L conf = Inr i" and "weights_ok (fsc_faults conf)" and "m < 2 ^ 53"
  shows "\<exists>errnos attempt.
    errnos = concat (map (\<lambda>f. replicate (nat (sint (fc_weight f))) (Errno_from_i32 L (fc_errno f))) (fsc_faults conf)) \<and>
    int (length errnos) = sint (fi_sum i) \<and> attempt = nat (sint (fault_attempt (fi_sum i) m)) \<and>
    attempt < length errnos \<and>
    pick_errno (fault_attempt (fi_sum i) m) (fi_errnos i) = Err (Sys (errnos ! attempt))"
  using fault_drawn [OF assms] fault_total [OF assms(1,2)] unfolding weighted_def by (simp add: comp_def)

lemma fault_by_weight_witness:
  "\<exists>i. FaultInjector_build sample_lib \<lparr>fsc_filter = \<lparr>cfg_path = None, cfg_methods = None, cfg_percent = 100\<rparr>,
       fsc_faults = [\<lparr>fc_errno = 5, fc_weight = 1\<rparr>, \<lparr>fc_errno = 28, fc_weight = 2\<rparr>]\<rparr> = Inr i \<and>
     (\<exists>k < 3. pick_errno (fault_attempt (fi_sum i) 7) (fi_errnos i) = Err (Sys ([5, 28, 28] ! k)))"
proof -
  let ?c = "\<lparr>fsc_filter = \<lparr>cfg_path = None, cfg_methods = None, cfg_percent = 100\<rparr>,
       fsc_faults = [\<lparr>fc_errno = 5, fc_weight = 1\<rparr>, \<lparr>fc_errno = 28, fc_weight = 2\<rparr>]\<rparr>"
  obtain i where i: "FaultInjector_build sample_lib ?c = Inr i"
    by (simp add: FaultInjector_build_def Filter_build_def Let_def)
  have w: "weights_ok (fsc_faults ?c)" by (simp add: weights_ok_def)
  have "replicate 2 (28 :: errno) = [28, 28]" by (simp add: numeral_2_eq_2)
  then have "\<exists>k < 3. pick_errno (fault_attempt (fi_sum i) 7) (fi_errnos i) = Err (Sys ([5, 28, 28] ! k))"
    using fault_by_weight [OF i w, of 7] by (auto simp: sample_lib_def numeral_3_eq_3)
  with i show ?thesis by blast
qed

section \<open>The extent of a mistake\<close>

text \<open>
  C34. A mistake is as large as configured: the damaged data has the length of the data, differs
  from it in at most \<open>max_occurrences\<close> times \<open>max_length\<close> bytes, and with the filling \<open>Zero\<close> every
  byte is kept or becomes zero. The largest value of \<open>max_occurrences\<close> is the exception: adding one
  to it wraps around, the range of the draw is empty, and the injector panics.
\<close>

theorem mistake_extent:
  assumes "rand_ok L"
  shows "if max_occurrences (mi_mistake i) = - 1 then MistakeInjector_handle L i data w = (Panic, w)
    else \<exists>data' w'. MistakeInjector_handle L i data w = (Ok data', w') \<and> length data' = length data \<and>
      hamming data data' \<le> unat (max_occurrences (mi_mistake i)) * unat (max_length (mi_mistake i)) \<and>
      (filling (mi_mistake i) = Zero \<longrightarrow> (\<forall>n < length data. data' ! n = data ! n \<or> data' ! n = 0))"
proof (cases "max_occurrences (mi_mistake i) = - 1")
  case False
  with yieldsD [OF handle_damaged [OF assms False], of data w] show ?thesis by (auto simp: damaged_def)
qed (simp add: handle_panics)

definition sample_mistake :: MistakeInjector where
  "sample_mistake =
     \<lparr>mi_mistake = \<lparr>filling = Zero, max_length = 2, max_occurrences = 1\<rparr>,
      mi_filter = \<lparr>path_filter = None, methods = 0, probability = 0\<rparr>\<rparr>"

lemma mistake_extent_witness:
  "\<exists>data' w'. MistakeInjector_handle sample_lib sample_mistake [1, 2, 3, 4, 5] 0 = (Ok data', w') \<and>
     length data' = 5 \<and> hamming [1, 2, 3, 4, 5] data' \<le> 2"
proof -
  have "max_occurrences (mi_mistake sample_mistake) = 1" "max_length (mi_mistake sample_mistake) = 2"
    by (simp_all add: sample_mistake_def)
  then show ?thesis
    using mistake_extent [OF sample_rand_ok, of sample_mistake "[1, 2, 3, 4, 5]" 0]
    by (auto simp del: hamming.simps)
qed

section \<open>Timestamps\<close>

text \<open>
  C36. Timestamps survive the way through the file system: a time of the kernel from 1970 on whose
  nanoseconds fit 63 bits (until the year 2262) is converted to a time of the reply, and when that
  comes back with \<open>setattr\<close> it is converted to the same seconds and nanoseconds. A time
  before 1970 is a panic in either direction.
\<close>

theorem times_roundtrip:
  "(0 \<le> sint sec \<and> 0 \<le> sint nsec \<and> sint nsec < 1000000000 \<and> sint sec * 1000000000 + sint nsec < 2 ^ 63 \<longrightarrow>
    (\<exists>t. system_time sec nsec = Some t \<and>
         convert_time (Some (SpecificTime t)) = Some \<lparr>ts_sec = sec, ts_nsec = nsec\<rparr>)) \<and>
   (sint sec < 0 \<longrightarrow> system_time sec nsec = None) \<and>
   (tv_sec t < 0 \<longrightarrow> convert_time (Some (SpecificTime t)) = None)"
proof (intro conjI impI)
  assume a: "0 \<le> sint sec \<and> 0 \<le> sint nsec \<and> sint nsec < 1000000000 \<and> sint sec * 1000000000 + sint nsec < 2 ^ 63"
  then have s: "system_time sec nsec = Some (SystemTime (sint sec) (nat (sint nsec)))"
    by (intro system_time_ok) simp_all
  show "\<exists>t. system_time sec nsec = Some t \<and> convert_time (Some (SpecificTime t)) = Some \<lparr>ts_sec = sec, ts_nsec = nsec\<rparr>"
    unfolding s using convert_time_back [of sec nsec] a by simp
qed (simp_all add: system_time_negative convert_time_def nanos_since_epoch_def)

lemma times_roundtrip_witness:
  "\<exists>t. system_time 1700000000 5 = Some t \<and>
       convert_time (Some (SpecificTime t)) = Some \<lparr>ts_sec = 1700000000, ts_nsec = 5\<rparr>"
  using times_roundtrip [of 1700000000 5] by simp

end
