(* ===== verification/Control.thy ===== *)
theory Control
  imports Fs_Runs
begin

text \<open>
  \<open>src/jsonrpc.rs\<close>: the control server. \<open>get_status\<close> reports whether the injection was set up,
  \<open>update\<close> replaces the injectors of the running file system. A panic inside a call poisons the
  mutexes it holds. The JSON decoding of a call and the server loop belong to \<open>jsonrpc_core\<close>.
\<close>

section \<open>The handler\<close>

datatype Comm = Shutdown

text \<open>
  \<open>RpcImpl\<close> with the state of its mutexes and of the channel behind \<open>tx\<close>. An \<open>anyhow::Error\<close> is
  its message; \<open>rpc_hookfs\<close> is the shared file system, with the world it runs in.
\<close>

record ('w, 'f, 'd) RpcImpl =
  status :: "string + unit"
  status_poisoned :: bool
  tx_poisoned :: bool
  tx_receiver :: bool
  tx_queue :: "Comm list"
  rpc_hookfs :: "('w, 'f, 'd) st option"

definition RpcImpl_new :: "string + unit \<Rightarrow> ('w, 'f, 'd) st option \<Rightarrow> ('w, 'f, 'd) RpcImpl" where
  "RpcImpl_new st h =
     \<lparr>status = st, status_poisoned = False, tx_poisoned = False, tx_receiver = True, tx_queue = [],
      rpc_hookfs = h\<rparr>"

text \<open>\<open>send\<close> fails once the receiver is gone; the \<open>expect\<close> then panics with both locks held.\<close>

definition RpcImpl_get_status :: "(('w, 'f, 'd) RpcImpl, unit, string) prog" where
  "RpcImpl_get_status rpc =
     (if status_poisoned rpc then (Panic, rpc)
      else case status rpc of
             Inr _ \<Rightarrow> (Ok ''ok'', rpc)
           | Inl e \<Rightarrow>
               if tx_poisoned rpc then (Panic, rpc\<lparr>status_poisoned := True\<rparr>)
               else if tx_receiver rpc then (Ok e, rpc\<lparr>tx_queue := tx_queue rpc @ [Shutdown]\<rparr>)
               else (Panic, rpc\<lparr>status_poisoned := True, tx_poisoned := True\<rparr>))"

definition RpcImpl_update :: "'w lib \<Rightarrow> InjectorConfig list \<Rightarrow> (('w, 'f, 'd) RpcImpl, unit, string) prog" where
  "RpcImpl_update L config rpc =
     (if status_poisoned rpc then (Panic, rpc)
      else case status rpc of
             Inl e \<Rightarrow> (Ok e, rpc)
           | Inr _ \<Rightarrow>
               (case MultiInjector_build L config of
                  Inl e \<Rightarrow> (Ok e, rpc)
                | Inr injectors \<Rightarrow>
                    (case rpc_hookfs rpc of
                       None \<Rightarrow> (Panic, rpc)
                     | Some s \<Rightarrow> (Ok ''ok'', rpc\<lparr>rpc_hookfs := Some (s\<lparr>hookfs := (hookfs s)\<lparr>hf_injector := injectors\<rparr>\<rparr>)\<rparr>))))"

section \<open>Runs of the server\<close>

text \<open>
  What \<open>main\<close> builds from the result of \<open>inject\<close>: a status, and the file system if there is
  one. Its receiver lives as long as the program.
\<close>

definition main_rpc :: "string + ('w, 'f, 'd) st \<Rightarrow> ('w, 'f, 'd) RpcImpl" where
  "main_rpc mount_injector =
     RpcImpl_new (case mount_injector of Inr _ \<Rightarrow> Inr () | Inl e \<Rightarrow> Inl e)
                 (case mount_injector of Inr s \<Rightarrow> Some s | Inl _ \<Rightarrow> None)"

inductive rpc_run ::
  "('w, 'f, 'd) env \<Rightarrow> string + ('w, 'f, 'd) st \<Rightarrow> ('w, 'f, 'd) RpcImpl \<Rightarrow> bool" for E m where
  start: "rpc_run E m (main_rpc m)"
| get_status: "rpc_run E m r \<Longrightarrow> rpc_run E m (snd (RpcImpl_get_status r))"
| update: "rpc_run E m r \<Longrightarrow> rpc_run E m (snd (RpcImpl_update (lib E) config r))"
| fs: "rpc_run E m r \<Longrightarrow> rpc_hookfs r = Some s \<Longrightarrow> fs_step E s t \<Longrightarrow> rpc_run E m (r\<lparr>rpc_hookfs := Some t\<rparr>)"

text \<open>The status and the file system stay those of \<open>main\<close>, and no lock is ever poisoned.\<close>

definition rpc_ok :: "string + ('w, 'f, 'd) st \<Rightarrow> ('w, 'f, 'd) RpcImpl \<Rightarrow> bool" where
  "rpc_ok m r \<longleftrightarrow> \<not> status_poisoned r \<and> \<not> tx_poisoned r \<and> tx_receiver r \<and>
     (case m of Inl e \<Rightarrow> status r = Inl e \<and> rpc_hookfs r = None
              | Inr _ \<Rightarrow> status r = Inr () \<and> rpc_hookfs r \<noteq> None)"

lemma rpc_ok_run: "rpc_run E m r \<Longrightarrow> rpc_ok m r"
  by (induction rule: rpc_run.induct)
     (auto simp: rpc_ok_def main_rpc_def RpcImpl_new_def RpcImpl_get_status_def RpcImpl_update_def
       split: sum.splits option.splits)

lemma rpc_reachable:
  assumes "rpc_run E (Inr s) r" and "reachable E mount root s" and "rpc_hookfs r = Some t"
  shows "reachable E mount root t"
  using assms(1,3)
proof (induction arbitrary: t rule: rpc_run.induct)
  case start
  then show ?case using assms(2) by (simp add: main_rpc_def RpcImpl_new_def)
next
  case (get_status r)
  then show ?case by (auto simp: RpcImpl_get_status_def split: if_splits sum.splits)
next
  case (update r config)
  show ?case
  proof (cases "rpc_hookfs r")
    case (Some u)
    have "fs_step E u t \<or> t = u"
      using update.prems Some fs_step.update [of E u]
      by (auto simp: RpcImpl_update_def set_injectors_def split: if_splits sum.splits)
    with update.IH [OF Some] show ?thesis by (auto intro: reachable.step)
  qed (use update.prems in \<open>auto simp: RpcImpl_update_def split: if_splits sum.splits\<close>)
next
  case (fs r u v)
  then show ?case by (auto intro: reachable.step)
qed

section \<open>Properties\<close>

text \<open>
  C37. The control server never panics: in every run of calls and file system steps from what
  \<open>main\<close> sets up, \<open>get_status\<close> answers the message of the failed set-up, or \<open>ok\<close>, and \<open>update\<close>
  answers; the \<open>unwrap\<close> of the file system cannot fail because a status without error always
  comes with one.
\<close>

theorem rpc_answers:
  assumes "rpc_run E m r"
  shows "fst (RpcImpl_get_status r) = Ok (case m of Inl e \<Rightarrow> e | Inr _ \<Rightarrow> ''ok'') \<and>
    (\<exists>text. fst (RpcImpl_update (lib E) config r) = Ok text)"
  using rpc_ok_run [OF assms]
  by (auto simp: rpc_ok_def RpcImpl_get_status_def RpcImpl_update_def split: sum.splits option.splits)

lemma sample_rpc_run: "rpc_run sample_env (Inr (sample_st [])) (main_rpc (Inr (sample_st [])))"
  by (rule rpc_run.start)

lemma rpc_answers_witness:
  "fst (RpcImpl_get_status (main_rpc (Inr (sample_st [])))) = Ok ''ok'' \<and>
   (\<exists>text. fst (RpcImpl_update sample_lib [] (main_rpc (Inr (sample_st [])))) = Ok text)"
  using rpc_answers [OF sample_rpc_run, of "[]"] by (simp add: sample_env_def)

text \<open>
  C38. An update takes effect completely: its answer is \<open>ok\<close>, the running file system has exactly
  one injector for each entry of the new configuration, in the same order, and is otherwise as
  before, in a state that requests and updates reach.
\<close>

theorem update_complete:
  assumes "rpc_run E (Inr s0) r" and "reachable E mount root s0" and "rpc_hookfs r = Some s"
  shows "\<exists>is t. RpcImpl_update (lib E) config r = (Ok ''ok'', r\<lparr>rpc_hookfs := Some t\<rparr>) \<and>
    list_all2 (\<lambda>c i. build_injector (lib E) c = Inr i) config is \<and> hf_injector (hookfs t) = is \<and>
    set_injectors (hf_injector (hookfs s)) t = s \<and> reachable E mount root t"
proof -
  obtain "is" where b: "MultiInjector_build (lib E) config = Inr is" using MultiInjector_build_total by blast
  let ?t = "set_injectors is s"
  have "RpcImpl_update (lib E) config r = (Ok ''ok'', r\<lparr>rpc_hookfs := Some ?t\<rparr>)"
    using rpc_ok_run [OF assms(1)] assms(3) b by (simp add: RpcImpl_update_def rpc_ok_def set_injectors_def)
  moreover have "reachable E mount root ?t"
    by (rule reachable.step [OF rpc_reachable [OF assms] fs_step.update])
  ultimately show ?thesis
    using MultiInjector_build_list [OF b] by (auto simp: set_injectors_def intro!: exI [of _ "is"] exI [of _ ?t])
qed

lemma update_complete_witness:
  "let r = main_rpc (Inr (sample_st []));
       cfg = [Cfg_Latency \<lparr>lc_filter = \<lparr>cfg_path = None, cfg_methods = None, cfg_percent = 100\<rparr>,
                           lc_latency = Duration 1 0\<rparr>]
   in \<exists>t. RpcImpl_update sample_lib cfg r = (Ok ''ok'', r\<lparr>rpc_hookfs := Some t\<rparr>) \<and>
          length (hf_injector (hookfs t)) = 1"
proof -
  have "rpc_hookfs (main_rpc (Inr (sample_st []))) = Some (sample_st [])"
    by (simp add: main_rpc_def RpcImpl_new_def)
  from update_complete [OF sample_rpc_run sample_reachable this] show ?thesis
    unfolding Let_def by (simp add: sample_env_def) (metis list_all2_lengthD length_Cons list.size(3) One_nat_def)
qed

end
