(* ===== verification/Mounts.thy ===== *)
theory Mounts
  imports Fs_Runs
begin

text \<open>
  \<open>src/mount.rs\<close>, \<open>src/mount_injector.rs\<close>, \<open>src/utils.rs\<close> and \<open>src/fuse_device.rs\<close>: the hidden
  sibling directory the original mount is moved to, the test for a mount point, moving and
  binding mounts, and the life of an injection from \<open>mount\<close> to \<open>recover_mount\<close>. The system
  calls, the \<open>retry\<close> crate and the FUSE session are parameters.
\<close>

section \<open>The last component of an absolute path\<close>

lemma parse_name:
  "parse_single_component s = Some c \<Longrightarrow> CHR ''/'' \<notin> set s \<Longrightarrow> c = ParentDir \<or> (\<exists>n. c = Normal n \<and> name_ok n)"
  by (auto simp: parse_single_component_def name_ok_def list_ex_iff is_sep_def split: if_splits)

lemma back_next_Some:
  "back_next p = Some (c, r) \<Longrightarrow> body_list p = body_list r @ [c] \<and> prefix r p \<and>
     (c = ParentDir \<or> (\<exists>n. c = Normal n \<and> name_ok n))"
proof (induction p rule: back_next.induct)
  case (1 p)
  show ?case
  proof (cases "p = [] \<or> parse_single_component (last_comp p) = None")
    case True
    with 1 have "p \<noteq> []" "back_next (before_comp p) = Some (c, r)" "parse_single_component (last_comp p) = None"
      by (auto simp: back_next.simps [of p] split: if_splits)
    with 1 show ?thesis
      using prefix_before_comp [of p] by (auto simp: body_list_last_step [of p] intro: prefix_order.trans)
  next
    case False
    with 1 have "parse_single_component (last_comp p) = Some c" "r = before_comp p"
      by (auto simp: back_next.simps [of p])
    then show ?thesis
      using prefix_before_comp [of p] parse_name [OF _ last_comp_no_sep, of p]
      by (auto simp: body_list_last_step [of p])
  qed
qed

lemma back_next_None: "back_next p = None \<Longrightarrow> body_list p = []"
proof (induction p rule: back_next.induct)
  case (1 p)
  then show ?case
    by (cases "p = []")
       (auto simp: back_next.simps [of p] body_list_last_step [of p] split: option.splits)
qed

lemma comps_next_back_absolute:
  assumes "has_root p"
  shows "(comps_next_back p = Some (RootDir, []) \<and> components p = [RootDir]) \<or>
    (\<exists>c r. comps_next_back p = Some (c, r) \<and> components p = components r @ [c] \<and> has_root r \<and> prefix r p \<and>
       (c = ParentDir \<or> (\<exists>n. c = Normal n \<and> name_ok n)))"
proof -
  obtain q where q: "p = CHR ''/'' # q" using assms by (rule has_rootE)
  have n: "len_before_body False p = 1" using assms by (simp add: len_before_body_def)
  show ?thesis
  proof (cases "back_next q")
    case None
    then show ?thesis
      using assms q n by (simp add: comps_next_back_def components_absolute back_next_None Let_def)
  next
    case (Some x)
    then obtain c r where b: "back_next q = Some (c, r)" by (cases x) simp
    note l = back_next_Some [OF b]
    let ?r = "CHR ''/'' # trim_right r"
    have r: "has_root ?r" by (simp add: has_root_def is_sep_def)
    have "prefix ?r p" using l prefix_trim_right [of r] q by (auto intro: prefix_order.trans)
    moreover have "components p = components ?r @ [c]"
      using assms r q l by (simp add: components_absolute)
    moreover have "comps_next_back p = Some (c, ?r)" using q n b by (simp add: comps_next_back_def)
    ultimately show ?thesis using r l by blast
  qed
qed

lemma pop_parent: "prefix r p \<Longrightarrow> parent p = Some r \<Longrightarrow> pop p = Some r"
  by (auto simp: pop_def prefix_def)

section \<open>The hidden sibling (utils.rs, MountInjector::create_injection)\<close>

text \<open>An \<open>anyhow::Error\<close>: a message of this program, or the error it was made from.\<close>

datatype anyhow =
    Msg string
  | From_nix nix_error
  | From_io
  | From_proc
  | From_fuse

definition encode_path :: "path \<Rightarrow> anyhow + path \<times> path" where
  "encode_path path =
     (case pop path of
        None \<Rightarrow> Inl (Msg ''path is the root'')
      | Some base_path \<Rightarrow>
          (case file_name path of
             None \<Rightarrow> Inl (Msg ''the path terminates in `..` or `/`'')
           | Some f \<Rightarrow>
               (case to_str f of
                  None \<Rightarrow> Inl (Msg ''path with non-UTF-8 character'')
                | Some original_filename \<Rightarrow>
                    Inr (path, push base_path (''__chaosfs__'' @ original_filename @ ''__'')))))"

record MountInjector =
  mnt_original_path :: path
  mnt_new_path :: path
  mnt_injector_config :: "InjectorConfig list"

definition MountInjector_create_injection :: "path \<Rightarrow> InjectorConfig list \<Rightarrow> anyhow + MountInjector" where
  "MountInjector_create_injection path injector_config =
     (case pop path of
        None \<Rightarrow> Inl (Msg ''path is the root'')
      | Some base_path \<Rightarrow>
          (case file_name path of
             None \<Rightarrow> Inl (Msg ''the path terminates in `..` or `/`'')
           | Some f \<Rightarrow>
               (case to_str f of
                  None \<Rightarrow> Inl (Msg ''path with non-UTF-8 character'')
                | Some original_filename \<Rightarrow>
                    Inr \<lparr>mnt_original_path = path,
                         mnt_new_path = push base_path (''__chaosfs__'' @ original_filename @ ''__''),
                         mnt_injector_config = injector_config\<rparr>)))"

lemma hidden_name: "name_ok f \<Longrightarrow> name_ok (''__chaosfs__'' @ f @ ''__'')"
  by (auto simp: name_ok_def list_ex_iff is_sep_def)

lemma encode_sibling:
  assumes "has_root p"
  shows "(\<exists>n dir f. encode_path p = Inr (p, n) \<and> components p = dir @ [Normal f] \<and> to_str f = Some f \<and>
      components n = dir @ [Normal (''__chaosfs__'' @ f @ ''__'')] \<and> \<not> starts_with n p \<and> \<not> starts_with p n) \<or>
    (\<exists>e. encode_path p = Inl e \<and> (components p = [RootDir] \<or> last (components p) = ParentDir \<or>
      (\<exists>f. last (components p) = Normal f \<and> to_str f = None)))"
  using comps_next_back_absolute [OF assms]
proof (elim disjE exE conjE)
  assume "comps_next_back p = Some (RootDir, [])" "components p = [RootDir]"
  then show ?thesis by (simp add: encode_path_def pop_def parent_def)
next
  fix c r assume b: "comps_next_back p = Some (c, r)" "components p = components r @ [c]" "c = ParentDir"
  then show ?thesis by (simp add: encode_path_def pop_def parent_def file_name_def)
next
  fix c r f assume b: "comps_next_back p = Some (c, r)" "components p = components r @ [c]" "has_root r" "prefix r p"
    "c = Normal f" "name_ok f"
  then have pop: "pop p = Some r" by (intro pop_parent) (simp_all add: parent_def)
  have name: "file_name p = Some f" using b by (simp add: file_name_def)
  show ?thesis
  proof (cases "to_str f")
    case None
    then show ?thesis using b pop name by (simp add: encode_path_def)
  next
    case (Some g)
    then have g: "g = f" by (simp add: to_str_def split: if_splits)
    let ?n = "push r (''__chaosfs__'' @ f @ ''__'')"
    have n: "components ?n = components r @ [Normal (''__chaosfs__'' @ f @ ''__'')]"
      using components_child [OF b(3) hidden_name [OF b(6)]] by simp
    have "length f < length (''__chaosfs__'' @ f @ ''__'')" by simp
    then have "f \<noteq> ''__chaosfs__'' @ f @ ''__''" by (metis less_irrefl)
    with n b have "\<not> starts_with ?n p" "\<not> starts_with p ?n" by (simp_all add: starts_with_prefix)
    with n b pop name Some g show ?thesis by (intro disjI1) (simp add: encode_path_def)
  qed
qed

text \<open>
  C25. The hidden directory of an absolute path: on success it is the sibling with the name
  wrapped in \<open>__chaosfs__\<close> and \<open>__\<close>, and neither path contains the other, so that the mount can be
  moved there; the call fails exactly for the root, for a path that ends in \<open>..\<close>, and for a last
  component that is not UTF-8.
\<close>

theorem encode_path_sibling:
  assumes "has_root p"
  shows "(\<exists>n dir f. encode_path p = Inr (p, n) \<and> components p = dir @ [Normal f] \<and> to_str f = Some f \<and>
      components n = dir @ [Normal (''__chaosfs__'' @ f @ ''__'')] \<and> \<not> starts_with n p \<and> \<not> starts_with p n) \<or>
    (\<exists>e. encode_path p = Inl e \<and> (components p = [RootDir] \<or> last (components p) = ParentDir \<or>
      (\<exists>f. last (components p) = Normal f \<and> to_str f = None)))"
  by (rule encode_sibling [OF assms])

lemma encode_path_sibling_witness:
  "\<exists>n. encode_path ''/mnt/data'' = Inr (''/mnt/data'', n) \<and> \<not> starts_with n ''/mnt/data''"
proof -
  have "encode_path ''/mnt/data'' = Inr (''/mnt/data'', ''/mnt/__chaosfs__data__'')" by code_simp
  with encode_path_sibling [of "''/mnt/data''"] show ?thesis
    by (auto simp: has_root_def is_sep_def)
qed

text \<open>\<open>create_injection\<close> and \<open>encode_path\<close> agree, so \<open>resume\<close> finds the directory \<open>mount\<close> made.\<close>

lemma create_injection_encode:
  "MountInjector_create_injection p cfg = (case encode_path p of
       Inl e \<Rightarrow> Inl e
     | Inr (orig, new) \<Rightarrow> Inr \<lparr>mnt_original_path = orig, mnt_new_path = new, mnt_injector_config = cfg\<rparr>)"
  by (simp add: MountInjector_create_injection_def encode_path_def split: option.splits)

lemma create_injection_paths:
  assumes "has_root p" and "MountInjector_create_injection p cfg = Inr mi"
  shows "mnt_original_path mi = p" and "mnt_new_path mi \<noteq> p" and "has_root (mnt_new_path mi)"
    and "mnt_injector_config mi = cfg"
proof -
  obtain n where n: "encode_path p = Inr (p, n)" "\<not> starts_with n p" "RootDir \<in> set (components n)"
    and mi: "mi = \<lparr>mnt_original_path = p, mnt_new_path = n, mnt_injector_config = cfg\<rparr>"
    using encode_sibling [OF assms(1)] assms
    by (auto simp: create_injection_encode components_absolute Cons_eq_append_conv)
  from n(3) have "has_root n"
    using body_list_no_root by (auto simp: components_def split: if_splits)
  with n mi show "mnt_original_path mi = p" "mnt_new_path mi \<noteq> p" "has_root (mnt_new_path mi)"
    "mnt_injector_config mi = cfg" by auto
qed

section \<open>Mount calls\<close>

datatype ms_flag = MS_PRIVATE | MS_BIND | MS_MOVE

text \<open>
  What the mounts rely on outside the repository: the mount points of \<open>/proc/self/mountinfo\<close>,
  the calls of \<open>nix\<close>, \<open>create_dir_all\<close>, \<open>sleep\<close>, the \<open>retry\<close> crate (run an operation up to once
  more than there are delays of so many milliseconds), and a FUSE session: \<open>fuse_start\<close> is the
  first part of \<open>fuser::mount\<close>, which mounts or is refused, and \<open>fuse_join\<close> the rest of it, which
  serves requests until the file system is unmounted.
\<close>

record 'w mount_calls =
  os_mountinfo :: "'w \<Rightarrow> path list option \<times> 'w"
  os_create_dir_all :: "path \<Rightarrow> 'w \<Rightarrow> bool \<times> 'w"
  os_mount :: "path option \<Rightarrow> path \<Rightarrow> ms_flag \<Rightarrow> 'w \<Rightarrow> (nix_error + unit) \<times> 'w"
  os_umount :: "path \<Rightarrow> 'w \<Rightarrow> (nix_error + unit) \<times> 'w"
  os_mknod_dev :: "path \<Rightarrow> u32 \<Rightarrow> u64 \<times> u64 \<Rightarrow> 'w \<Rightarrow> (nix_error + unit) \<times> 'w"
  os_sleep :: "nat \<Rightarrow> 'w \<Rightarrow> 'w"
  retry :: "nat \<Rightarrow> nat \<Rightarrow> ('w \<Rightarrow> (nix_error + unit) \<times> 'w) \<Rightarrow> 'w \<Rightarrow> (nix_error + unit) \<times> 'w"
  fuse_start :: "path \<Rightarrow> 'w \<Rightarrow> bool \<times> 'w"
  fuse_join :: "'w \<Rightarrow> bool \<times> 'w"

text \<open>The process: the world, and whether the slot of the \<open>tokio\<close> runtime is filled.\<close>

record 'w host =
  host_world :: 'w
  host_RUNTIME :: bool

definition on_host :: "('w \<Rightarrow> (anyhow, 'a) outcome \<times> 'w) \<Rightarrow> ('w host, anyhow, 'a) prog" where
  "on_host m = zoom host_world (\<lambda>w h. h\<lparr>host_world := w\<rparr>) m"

definition nix_result :: "('w \<Rightarrow> (nix_error + 'a) \<times> 'w) \<Rightarrow> ('w, anyhow, 'a) prog" where
  "nix_result f = (\<lambda>w. case f w of (Inl e, w') \<Rightarrow> (Err (From_nix e), w') | (Inr a, w') \<Rightarrow> (Ok a, w'))"

definition create_dir_all :: "'w mount_calls \<Rightarrow> path \<Rightarrow> ('w, anyhow, unit) prog" where
  "create_dir_all K path = (\<lambda>w. case os_create_dir_all K path w of
       (ok, w') \<Rightarrow> (if ok then Ok () else Err From_io, w'))"

section \<open>Mount points (mount.rs)\<close>

type_synonym MountsInfo = "path list"

definition MountsInfo_parse_mounts :: "'w mount_calls \<Rightarrow> ('w, anyhow, MountsInfo) prog" where
  "MountsInfo_parse_mounts K = (\<lambda>w. case os_mountinfo K w of
       (None, w') \<Rightarrow> (Err From_proc, w')
     | (Some mounts, w') \<Rightarrow> (Ok mounts, w'))"

fun MountsInfo_non_root :: "MountsInfo \<Rightarrow> path \<Rightarrow> bool" where
  "MountsInfo_non_root [] path = False"
| "MountsInfo_non_root (mount_point # mount_points) path =
     (if starts_with path mount_point then True else MountsInfo_non_root mount_points path)"

definition MountsInfo_move_mount :: "'w mount_calls \<Rightarrow> path \<Rightarrow> path \<Rightarrow> ('w, anyhow, unit) prog" where
  "MountsInfo_move_mount K orig target =
     seq (create_dir_all K target) (nix_result (os_mount K (Some orig) target MS_MOVE))"

definition MountsInfo_bind_mount :: "'w mount_calls \<Rightarrow> path \<Rightarrow> path \<Rightarrow> ('w, anyhow, unit) prog" where
  "MountsInfo_bind_mount K orig target = (\<lambda>w. case os_mount K (Some orig) target MS_BIND w of
       (Inl _, w') \<Rightarrow> (Panic, w')
     | (Inr _, w') \<Rightarrow> nix_result (retry K 500 20 (os_umount K orig)) w')"

lemma non_root_iff: "MountsInfo_non_root mounts path \<longleftrightarrow> (\<exists>m \<in> set mounts. starts_with path m)"
  by (induction mounts) auto

text \<open>
  C40. The test for a mount point cannot fail on a running system: as soon as the root directory
  is in the mount table, \<open>non_root\<close> holds of every absolute path, the root directory included,
  so that the error of an injection on a root mount is never reported.
\<close>

theorem non_root_always:
  assumes "''/'' \<in> set mounts" and "has_root path"
  shows "MountsInfo_non_root mounts path"
proof -
  have "components ''/'' = [RootDir]" by code_simp
  with assms(2) have "starts_with path ''/''" by (simp add: starts_with_prefix components_absolute)
  with assms(1) show ?thesis by (auto simp: non_root_iff)
qed

lemma non_root_always_witness: "MountsInfo_non_root [''/proc'', ''/''] ''/''"
  by (rule non_root_always) (simp_all add: has_root_def is_sep_def)

section \<open>The FUSE device (fuse\_device.rs)\<close>

definition EEXIST :: errno where "EEXIST = 17"

definition mkfuse_node :: "'w mount_calls \<Rightarrow> ('w, anyhow, unit) prog" where
  "mkfuse_node K = (\<lambda>w. case os_mknod_dev K ''/dev/fuse'' 0x1B6 (10, 229) w of
       (Inr _, w') \<Rightarrow> (Ok (), w')
     | (Inl (nix_Sys errno), w') \<Rightarrow>
         (if errno = EEXIST then Ok () else Err (From_nix (nix_Sys errno)), w')
     | (Inl err, w') \<Rightarrow> (Err (From_nix err), w'))"

end
