(* ===== verification/Stop.thy ===== *)
theory Stop
  imports Prelude
begin

text \<open>
  \<open>src/stop.rs\<close>: the lock the mounting thread waits on until the other thread drops its guard,
  a flag under a mutex with a condition variable. The two threads are step functions, their
  interleavings a step relation; the condition variable may wake up spuriously.
\<close>

section \<open>State and steps\<close>

datatype party = Waiter | Waker

text \<open>Where \<open>Stop::wait\<close> and \<open>Stop::wake\<close> are.\<close>

datatype wait_pc = Wait_start | Wait_test | Wait_asleep | Wait_woken | Wait_done

datatype wake_pc = Wake_start | Wake_set | Wake_notify | Wake_unlock | Wake_done

record Stop =
  inner :: bool
  holder :: "party option"
  wait_at :: wait_pc
  wake_at :: wake_pc

definition Stop_new :: Stop where
  "Stop_new = \<lparr>inner = False, holder = None, wait_at = Wait_start, wake_at = Wake_start\<rparr>"

text \<open>
  One step of \<open>wait\<close>: take the mutex, test the flag, and either return or release the mutex and
  sleep; a sleeper that was woken takes the mutex again. \<open>None\<close>: it has to wait, or has returned.
\<close>

definition Stop_wait :: "Stop \<Rightarrow> Stop option" where
  "Stop_wait s = (case wait_at s of
       Wait_start \<Rightarrow> if holder s = None then Some (s\<lparr>holder := Some Waiter, wait_at := Wait_test\<rparr>) else None
     | Wait_test \<Rightarrow>
         Some (s\<lparr>holder := None, wait_at := (if \<not> inner s then Wait_asleep else Wait_done)\<rparr>)
     | Wait_asleep \<Rightarrow> None
     | Wait_woken \<Rightarrow> if holder s = None then Some (s\<lparr>holder := Some Waiter, wait_at := Wait_test\<rparr>) else None
     | Wait_done \<Rightarrow> None)"

text \<open>One step of \<open>wake\<close>.\<close>

definition Stop_wake :: "Stop \<Rightarrow> Stop option" where
  "Stop_wake s = (case wake_at s of
       Wake_start \<Rightarrow> if holder s = None then Some (s\<lparr>holder := Some Waker, wake_at := Wake_set\<rparr>) else None
     | Wake_set \<Rightarrow> Some (s\<lparr>inner := True, wake_at := Wake_notify\<rparr>)
     | Wake_notify \<Rightarrow>
         Some (s\<lparr>wake_at := Wake_unlock,
                 wait_at := (if wait_at s = Wait_asleep then Wait_woken else wait_at s)\<rparr>)
     | Wake_unlock \<Rightarrow> Some (s\<lparr>holder := None, wake_at := Wake_done\<rparr>)
     | Wake_done \<Rightarrow> None)"

text \<open>
  \<open>lock\<close> makes the two ends of one shared value: the waiter, whose \<open>wait\<close> is that of the value, and
  the guard, which wakes when it is dropped.
\<close>

definition stop_lock :: Stop where
  "stop_lock = Stop_new"

definition StopWaiter_wait :: "Stop \<Rightarrow> Stop option" where
  "StopWaiter_wait = Stop_wait"

definition StopGuard_drop :: "Stop \<Rightarrow> Stop option" where
  "StopGuard_drop = Stop_wake"

definition spurious :: "Stop \<Rightarrow> Stop option" where
  "spurious s = (if wait_at s = Wait_asleep then Some (s\<lparr>wait_at := Wait_woken\<rparr>) else None)"

inductive stop_run :: "Stop \<Rightarrow> bool" where
  new: "stop_run Stop_new"
| wait: "stop_run s \<Longrightarrow> Stop_wait s = Some t \<Longrightarrow> stop_run t"
| wake: "stop_run s \<Longrightarrow> Stop_wake s = Some t \<Longrightarrow> stop_run t"
| spurious: "stop_run s \<Longrightarrow> spurious s = Some t \<Longrightarrow> stop_run t"

lemmas stop_defs = Stop_wait_def Stop_wake_def spurious_def

section \<open>Invariant\<close>

text \<open>
  The holder of the mutex is the thread that is inside its critical section, the flag is set
  exactly from the second step of \<open>wake\<close> on, and nobody sleeps after the notification: the
  wake-up is not lost.
\<close>

definition stop_ok :: "Stop \<Rightarrow> bool" where
  "stop_ok s \<longleftrightarrow>
     (holder s = Some Waiter \<longleftrightarrow> wait_at s = Wait_test) \<and>
     (holder s = Some Waker \<longleftrightarrow> wake_at s \<in> {Wake_set, Wake_notify, Wake_unlock}) \<and>
     (inner s \<longleftrightarrow> wake_at s \<in> {Wake_notify, Wake_unlock, Wake_done}) \<and>
     (wake_at s \<in> {Wake_unlock, Wake_done} \<longrightarrow> wait_at s \<noteq> Wait_asleep) \<and>
     (wait_at s = Wait_done \<longrightarrow> wake_at s = Wake_done)"

lemma stop_ok_run: "stop_run s \<Longrightarrow> stop_ok s"
proof (induction rule: stop_run.induct)
  case new
  then show ?case by (simp add: stop_ok_def Stop_new_def)
next
  case (wait s t)
  then show ?case
    by (cases "wait_at s"; cases "wake_at s") (auto simp: stop_ok_def Stop_wait_def split: if_splits)
next
  case (wake s t)
  then show ?case
    by (cases "wait_at s"; cases "wake_at s") (auto simp: stop_ok_def Stop_wake_def split: if_splits)
next
  case (spurious s t)
  then show ?case by (auto simp: stop_ok_def spurious_def split: if_splits)
qed

text \<open>How many steps of the two threads are still to come, at most.\<close>

definition wait_rank :: "wait_pc \<Rightarrow> nat" where
  "wait_rank p = (case p of Wait_start \<Rightarrow> 3 | Wait_woken \<Rightarrow> 3 | Wait_test \<Rightarrow> 2 | Wait_asleep \<Rightarrow> 1 | Wait_done \<Rightarrow> 0)"

definition wake_rank :: "wake_pc \<Rightarrow> nat" where
  "wake_rank p = (case p of Wake_start \<Rightarrow> 4 | Wake_set \<Rightarrow> 3 | Wake_notify \<Rightarrow> 2 | Wake_unlock \<Rightarrow> 1 | Wake_done \<Rightarrow> 0)"

definition stop_work :: "Stop \<Rightarrow> nat" where
  "stop_work s = 4 * wake_rank (wake_at s) + wait_rank (wait_at s)"

lemma stop_work_less: "Stop_wait s = Some t \<or> Stop_wake s = Some t \<Longrightarrow> stop_work t < stop_work s"
  by (cases "wait_at s"; cases "wake_at s")
     (auto simp: Stop_wait_def Stop_wake_def stop_work_def wait_rank_def wake_rank_def split: if_splits)

section \<open>Properties\<close>

text \<open>
  No wake-up is lost and none is invented: in every state an interleaving reaches, spurious
  wake-ups included, each step of one of the two threads brings the end nearer, at most 19 of them
  are left unless a further spurious wake-up comes between, where no step is left the waiter
  has returned, and a \<open>wait\<close> that has returned finds \<open>wake\<close> completed.
\<close>

lemma wait_returns:
  assumes "stop_run s"
  shows "(\<forall>t. Stop_wait s = Some t \<or> Stop_wake s = Some t \<longrightarrow> stop_work t < stop_work s) \<and> stop_work s \<le> 19 \<and>
    (Stop_wait s = None \<and> Stop_wake s = None \<longrightarrow> wait_at s = Wait_done \<and> wake_at s = Wake_done) \<and>
    (wait_at s = Wait_done \<longrightarrow> wake_at s = Wake_done) \<and>
    \<not> (wait_at s = Wait_test \<and> wake_at s \<in> {Wake_set, Wake_notify, Wake_unlock})"
proof (intro conjI)
  have h: "holder s = None \<or> holder s = Some Waiter \<or> holder s = Some Waker"
    by (metis option.exhaust party.exhaust)
  show "\<forall>t. Stop_wait s = Some t \<or> Stop_wake s = Some t \<longrightarrow> stop_work t < stop_work s"
    using stop_work_less by blast
  show "stop_work s \<le> 19"
    by (cases "wait_at s"; cases "wake_at s") (simp_all add: stop_work_def wait_rank_def wake_rank_def)
  show "Stop_wait s = None \<and> Stop_wake s = None \<longrightarrow> wait_at s = Wait_done \<and> wake_at s = Wake_done"
    using stop_ok_run [OF assms] h
    by (cases "wait_at s"; cases "wake_at s")
       (auto simp: stop_ok_def Stop_wait_def Stop_wake_def split: if_splits)
qed (use stop_ok_run [OF assms] in \<open>auto simp: stop_ok_def\<close>)

end
