(* ===== verification/Mount_Injector.thy ===== *)
theory Mount_Injector
  imports Mounts Stop
begin

text \<open>
  \<open>src/mount_injector.rs\<close>: mounting the file system over the original directory and taking it
  away again. The lock of \<open>Stop\<close> makes \<open>mount\<close> wait until the new thread is about to start the
  FUSE session or has failed, so the thread's first step runs before \<open>mount\<close> goes on; the model runs
  the thread's call of \<open>fuser::mount\<close> before \<open>mount\<close> goes on as well, which the sleep of \<open>mount\<close> is
  there for and does not guarantee (see \<open>Session_Start\<close>).
\<close>

section \<open>Mounting and recovering\<close>

text \<open>
  The thread of a guard: it failed to create the directory or to mount, or it serves FUSE
  requests; then it empties the slot of the runtime when the session ends.
\<close>

datatype handler = Failed anyhow | Serving

record ('f, 'd) MountInjectionGuard =
  grd_original_path :: path
  grd_new_path :: path
  grd_hookfs :: "('f, 'd) HookFs"
  grd_handler :: "handler option"

definition MountInjectionGuard_enable_injection ::
  "('f, 'd) MountInjectionGuard \<Rightarrow> ('f, 'd) MountInjectionGuard" where
  "MountInjectionGuard_enable_injection g = g\<lparr>grd_hookfs := HookFs_enable_injection (grd_hookfs g)\<rparr>"

definition MountInjectionGuard_disable_injection ::
  "('f, 'd) MountInjectionGuard \<Rightarrow> ('f, 'd) MountInjectionGuard" where
  "MountInjectionGuard_disable_injection g = g\<lparr>grd_hookfs := HookFs_disable_injection (grd_hookfs g)\<rparr>"

definition spawn_session :: "'w mount_calls \<Rightarrow> path \<Rightarrow> path \<Rightarrow> ('w host, anyhow, handler) prog" where
  "spawn_session K orig new = on_host (\<lambda>w. case create_dir_all K new w of
       (Err e, w') \<Rightarrow> (Ok (Failed e), w')
     | (Panic, w') \<Rightarrow> (Panic, w')
     | (Ok _, w') \<Rightarrow> (case fuse_start K orig w' of
           (up, w'') \<Rightarrow> (Ok (if up then Serving else Failed From_fuse), w'')))"

text \<open>\<open>mount\<close> up to the spawning of the thread, and all of it.\<close>

definition mount_before_spawn ::
  "('w, 'f, 'd) env \<Rightarrow> 'v mount_calls \<Rightarrow> MountInjector \<Rightarrow> ('v host, anyhow, ('f, 'd) HookFs) prog" where
  "mount_before_spawn E K mi =
     and_then (on_host (MountsInfo_parse_mounts K)) (\<lambda>mounts.
     seq (if MountsInfo_non_root mounts (mnt_original_path mi)
          then on_host (MountsInfo_move_mount K (mnt_original_path mi) (mnt_new_path mi))
          else raise (Msg ''inject on a root mount''))
     (case MultiInjector_build (lib E) (mnt_injector_config mi) of
        Inl e \<Rightarrow> raise (Msg e)
      | Inr injectors \<Rightarrow> return (HookFs_new E (mnt_original_path mi) (mnt_new_path mi) injectors)))"

definition MountInjector_mount ::
  "('w, 'f, 'd) env \<Rightarrow> 'v mount_calls \<Rightarrow> MountInjector \<Rightarrow>
   ('v host, anyhow, ('f, 'd) MountInjectionGuard) prog" where
  "MountInjector_mount E K mi =
     and_then (mount_before_spawn E K mi) (\<lambda>hookfs.
     and_then (spawn_session K (mnt_original_path mi) (mnt_new_path mi)) (\<lambda>handler.
     seq (on_host (modify (os_sleep K 200)))
     (return \<lparr>grd_original_path = mnt_original_path mi, grd_new_path = mnt_new_path mi,
              grd_hookfs = hookfs, grd_handler = Some handler\<rparr>)))"

text \<open>
  \<open>join\<close> on the thread: the session ends, and the \<open>unwrap\<close> of an empty runtime slot panics in the
  thread and then, through the \<open>unwrap\<close> of \<open>join\<close>, here.
\<close>

fun join_session :: "'w mount_calls \<Rightarrow> handler \<Rightarrow> ('w host, anyhow, unit) prog" where
  "join_session K (Failed e) = raise e"
| "join_session K Serving = (\<lambda>h. case fuse_join K (host_world h) of
       (ok, w) \<Rightarrow>
         if \<not> ok then (Err From_fuse, h\<lparr>host_world := w\<rparr>)
         else if host_RUNTIME h then (Ok (), h\<lparr>host_world := w, host_RUNTIME := False\<rparr>)
         else (Panic, h\<lparr>host_world := w\<rparr>))"

definition MountInjectionGuard_recover_mount ::
  "'w mount_calls \<Rightarrow> ('f, 'd) MountInjectionGuard \<Rightarrow> ('w host, anyhow, unit) prog" where
  "MountInjectionGuard_recover_mount K g =
     seq (on_host (nix_result (retry K 500 20 (os_umount K (grd_original_path g)))))
     (seq (case grd_handler g of None \<Rightarrow> raise (Msg ''handler is empty'') | Some handler \<Rightarrow> join_session K handler)
     (and_then (on_host (MountsInfo_parse_mounts K)) (\<lambda>mounts.
        if MountsInfo_non_root mounts (grd_original_path g)
        then on_host (MountsInfo_bind_mount K (grd_new_path g) (grd_original_path g))
        else raise (Msg ''inject on a root mount''))))"

section \<open>What the mount calls do\<close>

text \<open>
  \<open>at w p\<close> is the stack of what is mounted on the directory \<open>p\<close>, the visible one first; what is
  shown there is the visible mount or else the directory itself, \<open>plain p\<close>. A directory is named
  by the path it had when the program started: what is mounted below a mount hangs on a directory
  of that mount, a move takes it along, and its entry stays the same.

  The manual pages of \<open>mount\<close> and \<open>umount\<close>: a move takes the visible mount of a mount point to the
  target, a bind mount shows at the target what is shown at the source, making a mount private
  mounts nothing, an unmount removes the visible mount; a call that fails changes nothing, and the
  other calls leave the mounts alone. Starting a session mounts the FUSE file system, or is refused
  and mounts nothing.
\<close>

type_synonym 'm mounts = "path \<Rightarrow> 'm list"

definition shown :: "(path \<Rightarrow> 'm) \<Rightarrow> 'm mounts \<Rightarrow> path \<Rightarrow> 'm" where
  "shown plain a p = (case a p of [] \<Rightarrow> plain p | m # _ \<Rightarrow> m)"

text \<open>The runs of an operation that \<open>retry\<close> may make: at most \<open>n\<close> more after the first.\<close>

inductive attempts ::
  "('w \<Rightarrow> 'm mounts) \<Rightarrow> ('w \<Rightarrow> (nix_error + unit) \<times> 'w) \<Rightarrow> nat \<Rightarrow> 'w \<Rightarrow> nix_error + unit \<Rightarrow> 'w \<Rightarrow> bool"
  for "at" f where
  success: "f w = (Inr (), w') \<Longrightarrow> attempts at f n w (Inr ()) w'"
| exhausted: "f w = (Inl e, w') \<Longrightarrow> attempts at f 0 w (Inl e) w'"
| again: "f w = (Inl e, w1) \<Longrightarrow> at w2 = at w1 \<Longrightarrow> attempts at f n w2 r w' \<Longrightarrow> attempts at f (Suc n) w r w'"

definition mounts_ok :: "'w mount_calls \<Rightarrow> ('w \<Rightarrow> 'm mounts) \<Rightarrow> (path \<Rightarrow> 'm) \<Rightarrow> 'm \<Rightarrow> bool" where
  "mounts_ok K at plain fuse \<longleftrightarrow>
     (\<forall>src tgt w w'. os_mount K (Some src) tgt MS_MOVE w = (Inr (), w') \<longrightarrow> src \<noteq> tgt \<longrightarrow>
        at w src \<noteq> [] \<and> at w' = (at w)(src := tl (at w src), tgt := hd (at w src) # at w tgt)) \<and>
     (\<forall>src tgt w w'. os_mount K (Some src) tgt MS_BIND w = (Inr (), w') \<longrightarrow>
        at w' = (at w)(tgt := shown plain (at w) src # at w tgt)) \<and>
     (\<forall>tgt w w'. os_mount K None tgt MS_PRIVATE w = (Inr (), w') \<longrightarrow> at w' = at w) \<and>
     (\<forall>src tgt flags w e w'. os_mount K src tgt flags w = (Inl e, w') \<longrightarrow> at w' = at w) \<and>
     (\<forall>p w w'. os_umount K p w = (Inr (), w') \<longrightarrow> at w p \<noteq> [] \<and> at w' = (at w)(p := tl (at w p))) \<and>
     (\<forall>p w e w'. os_umount K p w = (Inl e, w') \<longrightarrow> at w' = at w) \<and>
     (\<forall>p mode dev w. at (snd (os_mknod_dev K p mode dev w)) = at w) \<and>
     (\<forall>w. at (snd (os_mountinfo K w)) = at w) \<and> (\<forall>p w. at (snd (os_create_dir_all K p w)) = at w) \<and>
     (\<forall>ms w. at (os_sleep K ms w) = at w) \<and>
     (\<forall>p w up w'. fuse_start K p w = (up, w') \<longrightarrow> at w' = (if up then (at w)(p := fuse # at w p) else at w)) \<and> (\<forall>w. at (snd (fuse_join K w)) = at w) \<and>
     (\<forall>ms n f w. attempts at f n w (fst (retry K ms n f w)) (snd (retry K ms n f w)))"

lemma mounts_okD:
  assumes "mounts_ok K at plain fuse"
  shows "os_mount K (Some src) tgt MS_MOVE w = (Inr (), w') \<Longrightarrow> src \<noteq> tgt \<Longrightarrow>
      at w src \<noteq> [] \<and> at w' = (at w)(src := tl (at w src), tgt := hd (at w src) # at w tgt)"
    and "os_mount K (Some src) tgt MS_BIND w = (Inr (), w') \<Longrightarrow>
      at w' = (at w)(tgt := shown plain (at w) src # at w tgt)"
    and "os_mount K s tgt flags w = (Inl e, w') \<Longrightarrow> at w' = at w"
    and "os_umount K p w = (Inr (), w') \<Longrightarrow> at w p \<noteq> [] \<and> at w' = (at w)(p := tl (at w p))"
    and "os_umount K p w = (Inl e, w') \<Longrightarrow> at w' = at w"
    and "at (snd (os_mountinfo K w)) = at w"
    and "at (snd (os_create_dir_all K p w)) = at w"
    and "at (os_sleep K ms w) = at w"
    and "fuse_start K p w = (up, w') \<Longrightarrow> at w' = (if up then (at w)(p := fuse # at w p) else at w)"
    and "at (snd (fuse_join K w)) = at w"
    and "attempts at f n w (fst (retry K ms n f w)) (snd (retry K ms n f w))"
    and "os_mount K None tgt MS_PRIVATE w = (Inr (), w') \<Longrightarrow> at w' = at w"
    and "at (snd (os_mknod_dev K p mode dev w)) = at w"
  using assms unfolding mounts_ok_def by (elim conjE, metis)+

lemma attempts_umount:
  assumes "mounts_ok K at plain fuse"
  shows "attempts at (os_umount K p) n w r w' \<Longrightarrow>
    (r = Inr () \<longrightarrow> at w p \<noteq> [] \<and> at w' = (at w)(p := tl (at w p))) \<and> (\<forall>e. r = Inl e \<longrightarrow> at w' = at w)"
proof (induction rule: attempts.induct)
  case (success w w' n)
  then show ?case using mounts_okD(4) [OF assms] by simp
next
  case (exhausted w e w')
  then show ?case using mounts_okD(5) [OF assms] by simp
next
  case (again w e w1 w2 n r w')
  moreover from again(1) have "at w1 = at w" using mounts_okD(5) [OF assms] by blast
  ultimately show ?case by auto
qed

lemma retry_umount:
  assumes "mounts_ok K at plain fuse" and "retry K ms n (os_umount K p) w = (r, w')"
  shows "r = Inr () \<Longrightarrow> at w p \<noteq> [] \<and> at w' = (at w)(p := tl (at w p))" and "r = Inl e \<Longrightarrow> at w' = at w"
  using attempts_umount [OF assms(1)] mounts_okD(11) [OF assms(1), of "os_umount K p" n w ms] assms(2)
  by simp_all

text \<open>The two ends of a move.\<close>

lemma move_mount_at:
  assumes "mounts_ok K at plain fuse" and "MountsInfo_move_mount K p q w = (r, w')" and "p \<noteq> q"
  shows "r = Ok () \<and> at w p \<noteq> [] \<and> at w' = (at w)(p := tl (at w p), q := hd (at w p) # at w q) \<or>
    (\<exists>e. r = Err e) \<and> at w' = at w"
proof -
  obtain ok w1 where c: "os_create_dir_all K q w = (ok, w1)" by fastforce
  have w1: "at w1 = at w" using mounts_okD(7) [OF assms(1), of q w] c by simp
  obtain x w2 where m: "os_mount K (Some p) q MS_MOVE w1 = (x, w2)" by fastforce
  show ?thesis
  proof (cases ok)
    case True
    show ?thesis
    proof (cases x)
      case (Inl e)
      then have "at w2 = at w1" using mounts_okD(3) [OF assms(1)] m by blast
      with Inl True c m w1 assms(2) show ?thesis
        by (auto simp: MountsInfo_move_mount_def create_dir_all_def nix_result_def run_simps)
    next
      case (Inr u)
      then have "at w1 p \<noteq> [] \<and> at w2 = (at w1)(p := tl (at w1 p), q := hd (at w1 p) # at w1 q)"
        using mounts_okD(1) [OF assms(1) _ assms(3)] m by auto
      with Inr True c m w1 assms(2) show ?thesis
        by (auto simp: MountsInfo_move_mount_def create_dir_all_def nix_result_def run_simps)
    qed
  qed (use c w1 assms(2) in \<open>auto simp: MountsInfo_move_mount_def create_dir_all_def run_simps\<close>)
qed

lemma on_host_modify: "on_host (modify f) h = (Ok (), h\<lparr>host_world := f (host_world h)\<rparr>)"
  by (simp add: on_host_def run_simps)

lemma on_host_run: "m (host_world h) = (r, w) \<Longrightarrow> on_host m h = (r, h\<lparr>host_world := w\<rparr>)"
  by (simp add: on_host_def run_simps)

lemma spawn_session_at:
  assumes "mounts_ok K at plain fuse" and "spawn_session K p q h = (r, h')"
  shows "\<exists>k. r = Ok k \<and> at (host_world h') =
    (if k = Serving then (at (host_world h))(p := fuse # at (host_world h) p) else at (host_world h))"
proof -
  obtain ok w1 where c: "os_create_dir_all K q (host_world h) = (ok, w1)" by fastforce
  have w1: "at w1 = at (host_world h)" using mounts_okD(7) [OF assms(1), of q "host_world h"] c by simp
  show ?thesis
  proof (cases ok)
    case True
    obtain up w2 where f: "fuse_start K p w1 = (up, w2)" by fastforce
    with True assms(2) c have "r = Ok (if up then Serving else Failed From_fuse)" "host_world h' = w2"
      by (simp_all add: spawn_session_def on_host_def create_dir_all_def run_simps) auto
    with mounts_okD(9) [OF assms(1) f] w1 show ?thesis by (cases up) simp_all
  next
    case False
    with assms(2) c have "r = Ok (Failed From_io)" "host_world h' = w1"
      by (simp_all add: spawn_session_def on_host_def create_dir_all_def run_simps) auto
    with w1 show ?thesis by simp
  qed
qed

lemma parse_mounts_at:
  assumes "mounts_ok K at plain fuse" and "on_host (MountsInfo_parse_mounts K) h = (r, h')"
  shows "at (host_world h') = at (host_world h) \<and> r \<noteq> Panic"
  using assms(2) mounts_okD(6) [OF assms(1), of "host_world h"]
  by (auto simp: on_host_def MountsInfo_parse_mounts_def run_simps split: prod.splits option.splits)

lemma mount_before_at:
  assumes "mounts_ok K at plain fuse" and "has_root p" and "MountInjector_create_injection p cfg = Inr mi"
    and "mount_before_spawn E K mi h = (r, h')"
  shows "case r of
      Ok hk \<Rightarrow> (\<exists>top rest. at (host_world h) p = top # rest \<and>
          at (host_world h') = (at (host_world h))(p := rest, mnt_new_path mi := top # at (host_world h) (mnt_new_path mi))) \<and>
        \<not> enable_injection hk \<and> (\<forall>w b. reachable E p (mnt_new_path mi) \<lparr>hookfs = hk, world = w, RUNTIME = b\<rparr>)
    | Err e \<Rightarrow> at (host_world h') = at (host_world h)
    | Panic \<Rightarrow> False"
proof -
  note paths = create_injection_paths [OF assms(2,3)]
  obtain "is" where b: "MultiInjector_build (lib E) cfg = Inr is" using MultiInjector_build_total by blast
  obtain x h1 where x: "on_host (MountsInfo_parse_mounts K) h = (x, h1)" by fastforce
  note h1 = parse_mounts_at [OF assms(1) x] and run = assms(4) [unfolded mount_before_spawn_def]
  show ?thesis
  proof (cases "\<exists>mounts. x = Ok mounts \<and> MountsInfo_non_root mounts p")
    case True
    then obtain mounts where m: "x = Ok mounts" "MountsInfo_non_root mounts p" by blast
    obtain y w2 where y: "MountsInfo_move_mount K p (mnt_new_path mi) (host_world h1) = (y, w2)" by fastforce
    note y' = on_host_run [of "MountsInfo_move_mount K p (mnt_new_path mi)", OF y]
    from move_mount_at [OF assms(1) y paths(2) [symmetric]] show ?thesis
    proof (elim disjE conjE exE)
      assume ok: "y = Ok ()" "at (host_world h1) p \<noteq> []" "at w2 = (at (host_world h1))
        (p := tl (at (host_world h1) p), mnt_new_path mi := hd (at (host_world h1) p) # at (host_world h1) (mnt_new_path mi))"
      have "r = Ok (HookFs_new E p (mnt_new_path mi) is)" "h' = h1\<lparr>host_world := w2\<rparr>"
        using run x m paths b y' ok(1) by (simp_all add: run_simps)
      with ok h1 paths(2) show ?thesis
        by (cases "at (host_world h) p") (auto simp: HookFs_new_def intro!: reachable.start)
    next
      fix e assume "y = Err e" "at w2 = at (host_world h1)"
      with run x m paths y' h1 show ?thesis by (auto simp: run_simps)
    qed
  next
    case False
    with run x h1 paths show ?thesis by (cases x) (auto simp: run_simps)
  qed
qed

lemma mount_at:
  assumes "mounts_ok K at plain fuse" and "has_root p" and "MountInjector_create_injection p cfg = Inr mi"
    and "MountInjector_mount E K mi h = (r, h')"
  shows "case r of
      Ok g \<Rightarrow> (\<exists>top rest. at (host_world h) p = top # rest \<and>
          at (host_world h') = (at (host_world h))(p := (if grd_handler g = Some Serving then fuse # rest else rest),
                                 mnt_new_path mi := top # at (host_world h) (mnt_new_path mi))) \<and>
        \<not> enable_injection (grd_hookfs g) \<and>
        (\<forall>w b. reachable E p (mnt_new_path mi) \<lparr>hookfs = grd_hookfs g, world = w, RUNTIME = b\<rparr>)
    | Err e \<Rightarrow> at (host_world h') = at (host_world h)
    | Panic \<Rightarrow> False"
proof -
  note paths = create_injection_paths [OF assms(2,3)]
  obtain x h1 where x: "mount_before_spawn E K mi h = (x, h1)" by fastforce
  note before = mount_before_at [OF assms(1-3) x] and run = assms(4) [unfolded MountInjector_mount_def]
  show ?thesis
  proof (cases x)
    case (Ok hk)
    obtain z h2 where z: "spawn_session K p (mnt_new_path mi) h1 = (z, h2)" by fastforce
    from spawn_session_at [OF assms(1) z] obtain k where k: "z = Ok k" "at (host_world h2) =
        (if k = Serving then (at (host_world h1))(p := fuse # at (host_world h1) p) else at (host_world h1))" by blast
    have r: "r = Ok \<lparr>grd_original_path = p, grd_new_path = mnt_new_path mi, grd_hookfs = hk, grd_handler = Some k\<rparr>"
      "h' = h2\<lparr>host_world := os_sleep K 200 (host_world h2)\<rparr>"
      using run x Ok paths z k(1) by (simp_all add: run_simps on_host_modify)
    have "at (host_world h') = at (host_world h2)" using r(2) mounts_okD(8) [OF assms(1)] by simp
    with before Ok k(2) r(1) paths(2) show ?thesis by (auto simp: fun_eq_iff)
  qed (use run x before in \<open>auto simp: run_simps\<close>)
qed

section \<open>Recovery\<close>

lemma mount_guard:
  "MountInjector_mount E K mi h = (Ok g, h') \<Longrightarrow>
   grd_original_path g = mnt_original_path mi \<and> grd_new_path g = mnt_new_path mi"
  by (auto simp: MountInjector_mount_def run_simps split: prod.splits outcome.splits)

lemma bind_mount_at:
  assumes "mounts_ok K at plain fuse" and "MountsInfo_bind_mount K q p w = (Ok u, w')" and "p \<noteq> q" and "at w q \<noteq> []"
  shows "at w' = (at w)(p := hd (at w q) # at w p, q := tl (at w q))"
proof -
  obtain x w1 where x: "os_mount K (Some q) p MS_BIND w = (x, w1)" by fastforce
  obtain y w2 where y: "retry K 500 20 (os_umount K q) w1 = (y, w2)" by fastforce
  from assms(2) x y have ok: "x = Inr ()" "y = Inr ()" "w2 = w'"
    by (auto simp: MountsInfo_bind_mount_def nix_result_def split: sum.splits)
  have "at w1 = (at w)(p := hd (at w q) # at w p)" using mounts_okD(2) [OF assms(1), of q p w w1] x ok assms(4) by (cases "at w q") (auto simp: shown_def)
  with retry_umount(1) [OF assms(1) y ok(2)] ok assms(3) show ?thesis by auto
qed

text \<open>Only the thread of a session that was served ends without an error.\<close>

lemma recover_served: "MountInjectionGuard_recover_mount K g h = (Ok u, h') \<Longrightarrow> grd_handler g = Some Serving"
  by (cases "grd_handler g"; cases "the (grd_handler g)")
     (auto simp: MountInjectionGuard_recover_mount_def run_simps split: prod.splits outcome.splits)

lemma recover_at:
  assumes "mounts_ok K at plain fuse" and "MountInjectionGuard_recover_mount K g h = (Ok (), h')"
    and "grd_original_path g \<noteq> grd_new_path g"
    and "at (host_world h) (grd_new_path g) \<noteq> []"
  shows "at (host_world h') = (at (host_world h))
      (grd_original_path g := hd (at (host_world h) (grd_new_path g)) # tl (at (host_world h) (grd_original_path g)),
       grd_new_path g := tl (at (host_world h) (grd_new_path g))) \<and> \<not> host_RUNTIME h'"
proof -
  let ?p = "grd_original_path g" and ?q = "grd_new_path g"
  obtain x w1 where x: "retry K 500 20 (os_umount K ?p) (host_world h) = (x, w1)" by fastforce
  obtain ok w2 where j: "fuse_join K w1 = (ok, w2)" by fastforce
  let ?h2 = "h\<lparr>host_world := w2, host_RUNTIME := False\<rparr>"
  obtain m h3 where m: "on_host (MountsInfo_parse_mounts K) ?h2 = (m, h3)" by fastforce
  obtain z w4 where z: "MountsInfo_bind_mount K ?q ?p (host_world h3) = (z, w4)" by fastforce
  note y = on_host_run [of "nix_result (retry K 500 20 (os_umount K ?p))" h]
    on_host_run [of "MountsInfo_bind_mount K ?q ?p", OF z]
  obtain xu where xu: "x = Inr xu"
    using assms(2) x y by (cases x) (auto simp: MountInjectionGuard_recover_mount_def nix_result_def run_simps)
  have "grd_handler g = Some Serving"
    using assms(2) by (rule recover_served)
  with assms(2) have r: "x = Inr ()" "\<exists>u. z = Ok u" "h' = h3\<lparr>host_world := w4\<rparr>"
    using x xu y j m
    by (auto simp: MountInjectionGuard_recover_mount_def nix_result_def run_simps split: if_splits outcome.splits)
  have "at w1 = (at (host_world h))(?p := tl (at (host_world h) ?p))" using retry_umount(1) [OF assms(1) x r(1)] by simp
  moreover have "at w2 = at w1" using mounts_okD(10) [OF assms(1), of w1] j by simp
  moreover have "at (host_world h3) = at w2" "host_RUNTIME h3 = False"
    using parse_mounts_at [OF assms(1) m] m by (auto simp: on_host_def run_simps)
  ultimately show ?thesis
    using bind_mount_at [OF assms(1), of ?q ?p "host_world h3"] z r assms(3,4) by auto
qed

text \<open>
  C23. Recovery undoes the mount: if \<open>mount\<close> succeeded, nothing else changed the mounts in between, and \<open>recover_mount\<close> succeeds (whether or not injection was switched on
  and off), then every path shows again what it showed before \<open>mount\<close>, no mount is left at the
  hidden directory, and the runtime is gone.
\<close>

theorem mount_recover:
  assumes "mounts_ok K at plain fuse" and "has_root p" and "MountInjector_create_injection p cfg = Inr mi"
    and "MountInjector_mount E K mi h0 = (Ok g, h1)"
    and "at (host_world h2) = at (host_world h1)"
    and "MountInjectionGuard_recover_mount K
        (MountInjectionGuard_disable_injection (MountInjectionGuard_enable_injection g)) h2 = (Ok (), h3)"
  shows "at (host_world h3) = at (host_world h0) \<and> \<not> host_RUNTIME h3"
proof -
  let ?g = "MountInjectionGuard_disable_injection (MountInjectionGuard_enable_injection g)"
  note paths = create_injection_paths [OF assms(2,3)]
  have g: "grd_original_path ?g = p" "grd_new_path ?g = mnt_new_path mi" "grd_handler g = Some Serving"
    using mount_guard [OF assms(4)] paths recover_served [OF assms(6)]
    by (simp_all add: MountInjectionGuard_disable_injection_def MountInjectionGuard_enable_injection_def)
  obtain top rest where top: "at (host_world h0) p = top # rest" and h1: "at (host_world h1) = (at (host_world h0))
      (p := fuse # rest, mnt_new_path mi := top # at (host_world h0) (mnt_new_path mi))"
    using mount_at [OF assms(1-4)] g(3) by auto
  have "at (host_world h2) (grd_new_path ?g) \<noteq> []" using assms(5) h1 g by simp
  from recover_at [OF assms(1,6) _ this] assms(5) h1 g top paths(2) show ?thesis
    by (auto simp: fun_eq_iff)
qed

section \<open>A small mount table\<close>

fun retried :: "nat \<Rightarrow> ('w \<Rightarrow> (nix_error + unit) \<times> 'w) \<Rightarrow> 'w \<Rightarrow> (nix_error + unit) \<times> 'w" where
  "retried 0 f w = f w"
| "retried (Suc n) f w = (case f w of (Inr u, w') \<Rightarrow> (Inr u, w') | (Inl e, w') \<Rightarrow> retried n f w')"

definition sample_mounts :: "(path \<Rightarrow> nat list) mount_calls" where
  "sample_mounts =
     \<lparr>os_mountinfo = (\<lambda>w. (Some [''/''], w)), os_create_dir_all = (\<lambda>p w. (True, w)),
      os_mount = (\<lambda>src tgt flag w. case (src, flag) of
          (Some s, MS_MOVE) \<Rightarrow> if w s = [] then (Inl (nix_Sys EINVAL), w)
                               else (Inr (), w(s := tl (w s), tgt := hd (w s) # w tgt))
        | (Some s, MS_BIND) \<Rightarrow> (Inr (), w(tgt := shown (\<lambda>_. 9) w s # w tgt))
        | _ \<Rightarrow> (Inr (), w)),
      os_umount = (\<lambda>p w. if w p = [] then (Inl (nix_Sys EINVAL), w) else (Inr (), w(p := tl (w p)))),
      os_mknod_dev = (\<lambda>p mode dev w. (Inl (nix_Sys EEXIST), w)), os_sleep = (\<lambda>ms w. w),
      retry = (\<lambda>ms n f w. retried n f w), fuse_start = (\<lambda>p w. (True, w(p := 0 # w p))),
      fuse_join = (\<lambda>w. (True, w))\<rparr>"

lemma retried_attempts: "attempts id f n w (fst (retried n f w)) (snd (retried n f w))"
proof (induction n arbitrary: w)
  case 0
  show ?case
    by (cases "f w"; cases "fst (f w)") (auto intro: attempts.success attempts.exhausted)
next
  case (Suc n)
  show ?case
    using Suc [of "snd (f w)"]
    by (cases "f w"; cases "fst (f w)") (auto intro: attempts.success attempts.again)
qed

lemma sample_mounts_ok: "mounts_ok sample_mounts id (\<lambda>_. 9) 0"
  unfolding mounts_ok_def
  by (auto simp: sample_mounts_def retried_attempts split: option.splits ms_flag.splits if_splits)

definition sample_host :: "(path \<Rightarrow> nat list) host" where
  "sample_host = \<lparr>host_world = (\<lambda>_. [])(''/mnt/data'' := [1]), host_RUNTIME = True\<rparr>"

definition sample_mi :: MountInjector where
  "sample_mi = \<lparr>mnt_original_path = ''/mnt/data'', mnt_new_path = ''/mnt/__chaosfs__data__'', mnt_injector_config = []\<rparr>"

definition sample_guard :: "(File option list, Dir option list) MountInjectionGuard" where
  "sample_guard = \<lparr>grd_original_path = ''/mnt/data'', grd_new_path = ''/mnt/__chaosfs__data__'',
     grd_hookfs = HookFs_new sample_env ''/mnt/data'' ''/mnt/__chaosfs__data__'' [], grd_handler = Some Serving\<rparr>"

lemma sample_create: "MountInjector_create_injection ''/mnt/data'' [] = Inr sample_mi"
  by code_simp

lemma sample_mount_root: "has_root ''/mnt/data''" "starts_with ''/mnt/data'' ''/''"
  by code_simp+

lemma sample_mounted:
  "MountInjector_mount sample_env sample_mounts sample_mi sample_host = (Ok sample_guard,
     sample_host\<lparr>host_world := (\<lambda>_. [])(''/mnt/data'' := [0], ''/mnt/__chaosfs__data__'' := [1])\<rparr>)"
  using sample_mount_root(2)
  by (simp add: MountInjector_mount_def mount_before_spawn_def sample_mi_def run_simps on_host_def MountsInfo_parse_mounts_def
      MountsInfo_move_mount_def create_dir_all_def nix_result_def spawn_session_def sample_mounts_def
      sample_host_def sample_guard_def fun_upd_twist)

lemma mount_recover_witness:
  "let h1 = sample_host\<lparr>host_world := (\<lambda>_. [])(''/mnt/data'' := [0 :: nat], ''/mnt/__chaosfs__data__'' := [1])\<rparr>;
       g = MountInjectionGuard_disable_injection (MountInjectionGuard_enable_injection sample_guard)
   in \<exists>h3. MountInjectionGuard_recover_mount sample_mounts g h1 = (Ok (), h3) \<and> host_world h3 = host_world sample_host"
proof -
  let ?h1 = "sample_host\<lparr>host_world := (\<lambda>_. [])(''/mnt/data'' := [0 :: nat], ''/mnt/__chaosfs__data__'' := [1])\<rparr>"
  let ?g = "MountInjectionGuard_disable_injection (MountInjectionGuard_enable_injection sample_guard)"
  obtain h3 where r: "MountInjectionGuard_recover_mount sample_mounts ?g ?h1 = (Ok (), h3)"
    using sample_mount_root(2)
    by (simp add: MountInjectionGuard_recover_mount_def MountInjectionGuard_disable_injection_def
      MountInjectionGuard_enable_injection_def sample_guard_def run_simps on_host_def MountsInfo_parse_mounts_def
      MountsInfo_bind_mount_def nix_result_def sample_mounts_def sample_host_def shown_def numeral_eq_Suc)
  from mount_recover [OF sample_mounts_ok sample_mount_root(1) sample_create sample_mounted _ r]
  show ?thesis unfolding Let_def using r by auto
qed

end
