(* ===== verification/Session_Start.thy ===== *)
theory Session_Start
  imports Mount_Injector
begin

text \<open>
  The two threads of \<open>MountInjector::mount\<close> (\<open>src/mount_injector.rs\<close>) step by step: the mounting thread
  waits on the lock of \<open>src/stop.rs\<close> and then sleeps, the session thread creates the directory, drops
  its guard and starts the FUSE session. \<open>spawn_session\<close> runs the second thread at once; this theory
  shows which interleavings that stands for.
\<close>

section \<open>The two threads\<close>

text \<open>
  Where the session thread is. A thread that fails to create the directory returns, and its
  captured guard is dropped then.
\<close>

text \<open>\<open>Serving\<close> before the end is what the thread is still about to do.\<close>

datatype session_pc = Ses_create | Ses_guard handler | Ses_mount handler | Ses_done handler

record 'w session =
  ses_world :: 'w
  ses_stop :: Stop
  ses_at :: session_pc
  ses_slept :: bool

definition session_new :: "'w \<Rightarrow> 'w session" where
  "session_new w = \<lparr>ses_world = w, ses_stop = stop_lock, ses_at = Ses_create, ses_slept = False\<rparr>"

definition session_thread :: "'w mount_calls \<Rightarrow> path \<Rightarrow> path \<Rightarrow> 'w session \<Rightarrow> 'w session option" where
  "session_thread K orig new s = (case ses_at s of
       Ses_create \<Rightarrow>
         (case os_create_dir_all K new (ses_world s) of
            (ok, w) \<Rightarrow> Some (s\<lparr>ses_world := w, ses_at := Ses_guard (if ok then Serving else Failed From_io)\<rparr>))
     | Ses_guard h \<Rightarrow>
         map_option (\<lambda>t. s\<lparr>ses_stop := t, ses_at := (if wake_at t = Wake_done then Ses_mount h else Ses_guard h)\<rparr>)
           (StopGuard_drop (ses_stop s))
     | Ses_mount (Failed e) \<Rightarrow> Some (s\<lparr>ses_at := Ses_done (Failed e)\<rparr>)
     | Ses_mount Serving \<Rightarrow>
         (case fuse_start K orig (ses_world s) of
            (up, w) \<Rightarrow> Some (s\<lparr>ses_world := w, ses_at := Ses_done (if up then Serving else Failed From_fuse)\<rparr>))
     | Ses_done h \<Rightarrow> None)"

definition mount_thread :: "'w mount_calls \<Rightarrow> 'w session \<Rightarrow> 'w session option" where
  "mount_thread K s =
     (if wait_at (ses_stop s) \<noteq> Wait_done then map_option (\<lambda>t. s\<lparr>ses_stop := t\<rparr>) (StopWaiter_wait (ses_stop s))
      else if \<not> ses_slept s then Some (s\<lparr>ses_world := os_sleep K 200 (ses_world s), ses_slept := True\<rparr>)
      else None)"

inductive session_run :: "'w mount_calls \<Rightarrow> path \<Rightarrow> path \<Rightarrow> 'w \<Rightarrow> 'w session \<Rightarrow> bool"
  for K orig new w where
  new: "session_run K orig new w (session_new w)"
| session: "session_run K orig new w s \<Longrightarrow> session_thread K orig new s = Some t \<Longrightarrow> session_run K orig new w t"
| mount: "session_run K orig new w s \<Longrightarrow> mount_thread K s = Some t \<Longrightarrow> session_run K orig new w t"
| wakeup: "session_run K orig new w s \<Longrightarrow> spurious (ses_stop s) = Some t \<Longrightarrow> session_run K orig new w (s\<lparr>ses_stop := t\<rparr>)"

section \<open>Invariant\<close>

text \<open>The last step of the thread, and what it has done to the world so far, the sleep of the other
  one apart.\<close>

definition session_up :: "'w mount_calls \<Rightarrow> path \<Rightarrow> bool \<Rightarrow> 'w \<Rightarrow> handler \<times> 'w" where
  "session_up K orig ok w =
     (if ok then map_prod (\<lambda>up. if up then Serving else Failed From_fuse) id (fuse_start K orig w)
      else (Failed From_io, w))"

definition session_ok :: "'w mount_calls \<Rightarrow> path \<Rightarrow> path \<Rightarrow> 'w \<Rightarrow> 'w session \<Rightarrow> bool" where
  "session_ok K orig new w s \<longleftrightarrow>
     (let (ok, w1) = os_create_dir_all K new w; h = (if ok then Serving else Failed From_io);
          nap = os_sleep K 200; up = session_up K orig ok
      in stop_run (ses_stop s) \<and> (ses_slept s \<longrightarrow> wait_at (ses_stop s) = Wait_done) \<and>
         (case ses_at s of
            Ses_create \<Rightarrow> ses_world s = w \<and> wake_at (ses_stop s) = Wake_start \<and> \<not> ses_slept s
          | Ses_guard h' \<Rightarrow> h' = h \<and> ses_world s = w1 \<and> wake_at (ses_stop s) \<noteq> Wake_done \<and> \<not> ses_slept s
          | Ses_mount h' \<Rightarrow> h' = h \<and> ses_world s = (if ses_slept s then nap w1 else w1) \<and> wake_at (ses_stop s) = Wake_done
          | Ses_done h' \<Rightarrow> wake_at (ses_stop s) = Wake_done \<and>
              (if ses_slept s then (h', ses_world s) \<in> {map_prod id nap (up w1), up (nap w1)}
               else (h', ses_world s) = up w1)))"

lemma wait_keeps_wake:
  "Stop_wait s = Some t \<Longrightarrow> wake_at t = wake_at s" "spurious s = Some t \<Longrightarrow> wake_at t = wake_at s \<and> wait_at t \<noteq> Wait_done \<and> wait_at s \<noteq> Wait_done"
  by (auto simp: Stop_wait_def spurious_def split: wait_pc.splits if_splits)

lemma wake_keeps_done: "Stop_wake s = Some t \<Longrightarrow> wait_at s = Wait_done \<Longrightarrow> wait_at t = Wait_done"
  by (auto simp: Stop_wake_def split: wake_pc.splits if_splits)

lemma pair_after: "(h, w) = p \<Longrightarrow> (h, f w) = map_prod id f p"
  by (cases p) simp

lemma session_ok_run: "session_run K orig new w s \<Longrightarrow> session_ok K orig new w s"
proof (induction rule: session_run.induct)
  case new
  then show ?case
    by (simp add: session_ok_def session_new_def stop_lock_def stop_run.new split: prod.split) (simp add: Stop_new_def)
next
  case (session s t)
  then show ?case
    by (cases "ses_at s")
       (auto simp: session_ok_def session_thread_def session_up_def StopGuard_drop_def stop_run.wake Let_def wake_keeps_done
         split: prod.splits if_splits handler.splits)
next
  case (mount s t)
  have "wait_at (ses_stop s) = Wait_done \<Longrightarrow> wake_at (ses_stop s) = Wake_done"
    using stop_ok_run [of "ses_stop s"] mount.IH by (auto simp: session_ok_def stop_ok_def Let_def split: prod.splits)
  with mount show ?case
    by (cases "ses_at s")
       (auto simp: session_ok_def mount_thread_def StopWaiter_wait_def stop_run.wait Let_def wait_keeps_wake
         intro: pair_after split: prod.splits if_splits)
next
  case (wakeup s t)
  then show ?case
    using wait_keeps_wake(2) [OF wakeup.hyps(2)]
    by (cases "ses_at s") (auto simp: session_ok_def stop_run.spurious Let_def split: prod.splits)
qed

section \<open>Progress\<close>

definition session_rank :: "session_pc \<Rightarrow> nat" where
  "session_rank p = (case p of Ses_create \<Rightarrow> 2 | Ses_guard _ \<Rightarrow> 1 | Ses_mount _ \<Rightarrow> 1 | Ses_done _ \<Rightarrow> 0)"

text \<open>How many steps of the two threads are still to come, at most.\<close>

definition session_work :: "'w session \<Rightarrow> nat" where
  "session_work s = stop_work (ses_stop s) + session_rank (ses_at s) + (if ses_slept s then 0 else 1)"

lemma session_work_less:
  assumes "session_thread K orig new s = Some t \<or> mount_thread K s = Some t"
  shows "session_work t < session_work s"
proof -
  have less: "stop_work b < stop_work a" if "Stop_wait a = Some b \<or> Stop_wake a = Some b" for a b
    using that by (rule stop_work_less)
  show ?thesis
    using assms
    by (cases "ses_at s")
       (auto simp: session_thread_def mount_thread_def session_work_def session_rank_def StopGuard_drop_def
         StopWaiter_wait_def intro: less split: prod.splits if_splits handler.splits)
qed

lemma session_stuck:
  assumes "session_run K orig new w s" and "session_thread K orig new s = None" and "mount_thread K s = None"
  shows "ses_slept s \<and> (\<exists>h. ses_at s = Ses_done h)"
proof -
  have ok: "session_ok K orig new w s" by (rule session_ok_run [OF assms(1)])
  then have run: "stop_run (ses_stop s)" by (auto simp: session_ok_def Let_def split: prod.splits)
  note stuck = wait_returns [OF run]
  have wait: "wait_at (ses_stop s) \<noteq> Wait_done \<Longrightarrow> Stop_wait (ses_stop s) = None"
    "wait_at (ses_stop s) = Wait_done \<Longrightarrow> ses_slept s"
    using assms(3) by (auto simp: mount_thread_def StopWaiter_wait_def split: if_splits)
  have slept: "Stop_wake (ses_stop s) = None \<Longrightarrow> ses_slept s" using stuck wait by blast
  show ?thesis
  proof (cases "ses_at s")
    case (Ses_guard h)
    then have "\<not> ses_slept s" using ok by (auto simp: session_ok_def Let_def split: prod.splits)
    with slept Ses_guard assms(2) show ?thesis by (simp add: session_thread_def StopGuard_drop_def)
  next
    case (Ses_done h)
    then have "wake_at (ses_stop s) = Wake_done" using ok by (auto simp: session_ok_def Let_def split: prod.splits)
    with slept Ses_done show ?thesis by (simp add: Stop_wake_def)
  qed (use assms(2) in \<open>simp_all add: session_thread_def split: prod.splits handler.splits\<close>)
qed

section \<open>Properties\<close>

text \<open>A thread runs alone.\<close>

fun alternate :: "'w mount_calls \<Rightarrow> path \<Rightarrow> path \<Rightarrow> bool list \<Rightarrow> 'w session \<Rightarrow> 'w session option" where
  "alternate K orig new [] s = Some s"
| "alternate K orig new (b # bs) s =
     Option.bind (if b then session_thread K orig new s else mount_thread K s) (alternate K orig new bs)"

lemma alternate_run:
  "session_run K orig new w s \<Longrightarrow> alternate K orig new bs s = Some t \<Longrightarrow> session_run K orig new w t"
  by (induction bs arbitrary: s) (auto simp: bind_eq_Some_conv split: if_splits intro: session_run.intros)

lemma mount_returns_early:
  assumes "os_create_dir_all K new w = (True, w1)"
  shows "\<exists>s. session_run K orig new w s \<and> ses_slept s \<and> ses_at s = Ses_mount Serving \<and> ses_world s = os_sleep K 200 w1"
proof -
  obtain s where s: "alternate K orig new [True, True, True, True, True, False, False, False] (session_new w) = Some s"
    "ses_slept s" "ses_at s = Ses_mount Serving" "ses_world s = os_sleep K 200 w1"
    using assms
    by (simp add: session_new_def session_thread_def mount_thread_def StopGuard_drop_def StopWaiter_wait_def
        stop_lock_def Stop_new_def Stop_wake_def Stop_wait_def)
  with alternate_run [OF session_run.new s(1)] show ?thesis by blast
qed

text \<open>At the end of both threads, the session was started before or after the sleep.\<close>

lemma spawn_session_run:
  assumes "os_create_dir_all K new w = (ok, w1)" and "session_up (K\<lparr>fuse_start := \<lambda>p w. fuse_start K p (f w)\<rparr>) orig ok w1 = (h, w2)"
  shows "spawn_session (K\<lparr>fuse_start := \<lambda>p w. fuse_start K p (f w)\<rparr>) orig new \<lparr>host_world = w, host_RUNTIME = b\<rparr> =
    (Ok h, \<lparr>host_world = w2, host_RUNTIME = b\<rparr>)"
  using assms
  by (cases ok; cases "fuse_start K orig (f w1)")
     (auto simp: spawn_session_def session_up_def on_host_run create_dir_all_def run_simps)

lemma session_end:
  assumes "mounts_ok K at plain fuse" and "session_run K orig new w s" and "ses_slept s" and "ses_at s = Ses_done h"
  shows "\<exists>f \<in> {id, os_sleep K 200}. \<exists>w'.
    spawn_session (K\<lparr>fuse_start := \<lambda>p w. fuse_start K p (f w)\<rparr>) orig new \<lparr>host_world = w, host_RUNTIME = b\<rparr> =
      (Ok h, \<lparr>host_world = w', host_RUNTIME = b\<rparr>) \<and> at (ses_world s) = at w'"
proof -
  obtain ok w1 where c: "os_create_dir_all K new w = (ok, w1)" by fastforce
  let ?K = "\<lambda>f. K\<lparr>fuse_start := \<lambda>p w. fuse_start K p (f w)\<rparr>"
  from session_ok_run [OF assms(2)] assms(3,4) c
  have "(h, ses_world s) = map_prod id (os_sleep K 200) (session_up K orig ok w1) \<or>
      (h, ses_world s) = session_up K orig ok (os_sleep K 200 w1)"
    by (simp add: session_ok_def Let_def)
  then show ?thesis
  proof
    assume early: "(h, ses_world s) = map_prod id (os_sleep K 200) (session_up K orig ok w1)"
    then have "session_up (?K id) orig ok w1 = (h, snd (session_up K orig ok w1))"
      by (cases "session_up K orig ok w1") (auto simp: session_up_def)
    from spawn_session_run [OF c this] early mounts_okD(8) [OF assms(1)] show ?thesis
      by (intro bexI [of _ id] exI [of _ "snd (session_up K orig ok w1)"]) (auto simp: map_prod_def split: prod.splits)
  next
    assume late: "(h, ses_world s) = session_up K orig ok (os_sleep K 200 w1)"
    have "\<exists>v. session_up (?K (os_sleep K 200)) orig ok w1 = (h, v) \<and> at (ses_world s) = at v"
      using late mounts_okD(8) [OF assms(1)]
      by (cases ok; cases "fuse_start K orig (os_sleep K 200 w1)") (auto simp: session_up_def)
    then obtain v where v: "session_up (?K (os_sleep K 200)) orig ok w1 = (h, v)" "at (ses_world s) = at v" by blast
    from spawn_session_run [OF c v(1)] v(2) show ?thesis by (intro bexI [of _ "os_sleep K 200"] exI [of _ v]) auto
  qed
qed

text \<open>
  C39. The threads of \<open>mount\<close>: in every interleaving, spurious wake-ups included, each step brings the
  end nearer and at most 22 are left unless a further spurious wake-up comes between; the threads
  can only stop when \<open>mount\<close> has slept and the session thread has started the session or failed;
  \<open>mount\<close> goes on only after the thread has tried to create the directory and dropped its guard; and
  where both are at their end the thread's result and the mounts are those of \<open>spawn_session\<close>, which
  runs the thread at once, its FUSE mount being made before or after the sleep. The lock does not cover the session itself: if the directory can be
  created, \<open>mount\<close> can return before the session is started.
\<close>

theorem session_started:
  assumes "mounts_ok K at plain fuse"
  shows "(\<forall>s. session_run K orig new w s \<longrightarrow>
      (\<forall>t. session_thread K orig new s = Some t \<or> mount_thread K s = Some t \<longrightarrow> session_work t < session_work s) \<and>
      session_work s \<le> 22 \<and>
      (session_thread K orig new s = None \<and> mount_thread K s = None \<longrightarrow> ses_slept s \<and> (\<exists>h. ses_at s = Ses_done h)) \<and>
      (wait_at (ses_stop s) = Wait_done \<longrightarrow> (\<exists>h. ses_at s \<in> {Ses_mount h, Ses_done h})) \<and>
      (\<forall>h. ses_slept s \<and> ses_at s = Ses_done h \<longrightarrow>
         (\<exists>f \<in> {id, os_sleep K 200}. \<exists>w'.
            spawn_session (K\<lparr>fuse_start := \<lambda>p w. fuse_start K p (f w)\<rparr>) orig new \<lparr>host_world = w, host_RUNTIME = b\<rparr> =
              (Ok h, \<lparr>host_world = w', host_RUNTIME = b\<rparr>) \<and>
            at (ses_world s) = at w'))) \<and>
    (fst (os_create_dir_all K new w) \<longrightarrow>
      (\<exists>s. session_run K orig new w s \<and> ses_slept s \<and> ses_at s = Ses_mount Serving \<and> at (ses_world s) = at w))"
proof (intro conjI allI impI)
  fix s assume run: "session_run K orig new w s"
  have ok: "session_ok K orig new w s" by (rule session_ok_run [OF run])
  obtain c w1 where c: "os_create_dir_all K new w = (c, w1)" by fastforce
  have stop: "stop_run (ses_stop s)" using ok by (auto simp: session_ok_def Let_def split: prod.splits)
  show "session_work s \<le> 22"
    using wait_returns [OF stop] by (cases "ses_at s") (auto simp: session_work_def session_rank_def)
  show "\<exists>h. ses_at s \<in> {Ses_mount h, Ses_done h}" if "wait_at (ses_stop s) = Wait_done"
    using that ok wait_returns [OF stop] by (cases "ses_at s") (auto simp: session_ok_def Let_def split: prod.splits)
  show "\<exists>f \<in> {id, os_sleep K 200}. \<exists>w'.
      spawn_session (K\<lparr>fuse_start := \<lambda>p w. fuse_start K p (f w)\<rparr>) orig new \<lparr>host_world = w, host_RUNTIME = b\<rparr> =
        (Ok h, \<lparr>host_world = w', host_RUNTIME = b\<rparr>) \<and> at (ses_world s) = at w'"
    if "ses_slept s \<and> ses_at s = Ses_done h" for h
    using that by (intro session_end [OF assms run]) simp_all
  show "session_work t < session_work s" if "session_thread K orig new s = Some t \<or> mount_thread K s = Some t" for t
    by (rule session_work_less [OF that])
  show "ses_slept s" "\<exists>h. ses_at s = Ses_done h" if "session_thread K orig new s = None \<and> mount_thread K s = None"
    using session_stuck [OF run] that by simp_all
next
  assume "fst (os_create_dir_all K new w)"
  then obtain w1 where c: "os_create_dir_all K new w = (True, w1)" by (metis prod.collapse)
  then have "at w1 = at w" using mounts_okD(7) [OF assms, of new w] by simp
  with mount_returns_early [OF c] mounts_okD(8) [OF assms]
  show "\<exists>s. session_run K orig new w s \<and> ses_slept s \<and> ses_at s = Ses_mount Serving \<and> at (ses_world s) = at w"
    by metis
qed

lemma session_started_witness:
  "\<exists>s. session_run sample_mounts ''/d'' ''/e'' (\<lambda>_. []) s \<and> ses_slept s \<and> ses_at s = Ses_mount Serving \<and>
       ses_world s = (\<lambda>_. [])"
proof -
  have "fst (os_create_dir_all sample_mounts ''/e'' (\<lambda>_. []))" by (simp add: sample_mounts_def)
  with session_started [OF sample_mounts_ok, THEN conjunct2, rule_format, of "''/e''" "\<lambda>_. []" "''/d''"]
  show ?thesis unfolding id_apply by this
qed

section \<open>Mounting in every interleaving\<close>

lemma session_at:
  assumes "mounts_ok K at plain fuse" and "session_run K orig new w s"
  shows "at (ses_world s) = (if ses_at s = Ses_done Serving then (at w)(orig := fuse # at w orig) else at w)"
proof -
  obtain ok w1 where c: "os_create_dir_all K new w = (ok, w1)" by fastforce
  have w1: "at w1 = at w" using mounts_okD(7) [OF assms(1), of new w] c by simp
  have nap: "at (os_sleep K 200 v) = at v" for v using mounts_okD(8) [OF assms(1)] .
  have up: "at v' = (if h = Serving then (at v)(orig := fuse # at v orig) else at v)"
    if "(h, v') = session_up K orig ok v" for h v v'
    using that mounts_okD(9) [OF assms(1), of orig v]
    by (cases "fuse_start K orig v") (auto simp: session_up_def split: if_splits)
  show ?thesis
  proof (cases "ses_at s")
    case (Ses_done h)
    with session_ok_run [OF assms(2)] c consider
      v where "(h, v) = session_up K orig ok w1" "at (ses_world s) = at v"
      | "(h, ses_world s) = session_up K orig ok (os_sleep K 200 w1)"
      using nap by (cases "session_up K orig ok w1") (auto simp: session_ok_def Let_def split: if_splits)
    then show ?thesis using Ses_done up w1 nap by cases auto
  qed (use session_ok_run [OF assms(2)] c w1 nap in \<open>auto simp: session_ok_def Let_def\<close>)
qed

text \<open>
  C24. Mounting: in every interleaving of \<open>mount\<close> with its session thread, at every moment after the
  thread was spawned (the one when \<open>mount\<close> returns included), the visible mount of the original
  path has moved to the hidden sibling, and FUSE is visible in its place exactly if the thread's
  call of \<open>fuser::mount\<close> has succeeded; if that call fails, or is late, \<open>mount\<close> returns a guard all
  the same and the path shows what was below. Nothing else is mounted or unmounted, and the file
  system of the guard has injection off and is one all runs start from. When \<open>mount\<close> fails the
  mounts are as before, and it does not panic. The last part is the sequential \<open>mount\<close> of the
  model, whose thread is through its call when \<open>mount\<close> returns.
\<close>

theorem mount_installs:
  assumes "mounts_ok K at plain fuse" and "has_root p" and "MountInjector_create_injection p cfg = Inr mi"
  shows "case mount_before_spawn E K mi h of
      (Ok hk, h1) \<Rightarrow> \<not> enable_injection hk \<and>
        (\<forall>w b. reachable E p (mnt_new_path mi) \<lparr>hookfs = hk, world = w, RUNTIME = b\<rparr>) \<and>
        (\<exists>top rest. at (host_world h) p = top # rest \<and>
          (\<forall>s. session_run K p (mnt_new_path mi) (host_world h1) s \<longrightarrow>
            at (ses_world s) = (at (host_world h))(p := (if ses_at s = Ses_done Serving then fuse # rest else rest),
                                 mnt_new_path mi := top # at (host_world h) (mnt_new_path mi))) \<and>
          (\<exists>g h'. MountInjector_mount E K mi h = (Ok g, h') \<and> grd_hookfs g = hk \<and>
            at (host_world h') = (at (host_world h))(p := (if grd_handler g = Some Serving then fuse # rest else rest),
                                   mnt_new_path mi := top # at (host_world h) (mnt_new_path mi))))
    | (Err e, h1) \<Rightarrow> at (host_world h1) = at (host_world h) \<and> MountInjector_mount E K mi h = (Err e, h1)
    | (Panic, h1) \<Rightarrow> False"
proof -
  note paths = create_injection_paths [OF assms(2,3)]
  obtain x h1 where x: "mount_before_spawn E K mi h = (x, h1)" by fastforce
  note before = mount_before_at [OF assms x]
  show ?thesis
  proof (cases x)
    case (Ok hk)
    obtain k h2 where z: "spawn_session K p (mnt_new_path mi) h1 = (Ok k, h2)"
      using spawn_session_at [OF assms(1), of p "mnt_new_path mi" h1] by (metis prod.collapse)
    then obtain g h' where g: "MountInjector_mount E K mi h = (Ok g, h')" "grd_hookfs g = hk"
      using x Ok paths(1) by (simp add: MountInjector_mount_def run_simps on_host_modify)
    from before Ok obtain top rest where top: "at (host_world h) p = top # rest" and h1: "at (host_world h1) =
        (at (host_world h))(p := rest, mnt_new_path mi := top # at (host_world h) (mnt_new_path mi))" by auto
    have "at (ses_world s) = (at (host_world h))(p := (if ses_at s = Ses_done Serving then fuse # rest else rest),
        mnt_new_path mi := top # at (host_world h) (mnt_new_path mi))"
      if "session_run K p (mnt_new_path mi) (host_world h1) s" for s
      using session_at [OF assms(1) that] h1 paths(2) by (auto simp: fun_eq_iff)
    moreover have "at (host_world h') = (at (host_world h))(p := (if grd_handler g = Some Serving then fuse # rest else rest),
        mnt_new_path mi := top # at (host_world h) (mnt_new_path mi))"
      using mount_at [OF assms g(1)] top by auto
    ultimately show ?thesis using x Ok before top g by auto
  qed (use x before in \<open>simp_all add: MountInjector_mount_def run_simps\<close>)
qed

lemma mount_installs_witness:
  "MountInjector_mount sample_env sample_mounts sample_mi sample_host = (Ok sample_guard,
     sample_host\<lparr>host_world := (\<lambda>_. [])(''/mnt/data'' := [0], ''/mnt/__chaosfs__data__'' := [1])\<rparr>) \<and>
   reachable sample_env ''/mnt/data'' ''/mnt/__chaosfs__data__'' \<lparr>hookfs = grd_hookfs sample_guard, world = 0, RUNTIME = True\<rparr>"
proof -
  have n: "mnt_new_path sample_mi = ''/mnt/__chaosfs__data__''" by (simp add: sample_mi_def)
  from mount_installs [OF sample_mounts_ok sample_mount_root(1) sample_create, of sample_env sample_host] show ?thesis
    unfolding n by (auto simp: sample_mounted split: prod.splits outcome.splits)
qed

end
