(* ===== verification/Ptrace_Manager.thy ===== *)
theory Ptrace_Manager
  imports Mounts "HOL-Library.Multiset"
begin

text \<open>
  The first half of \<open>src/ptrace/mod.rs\<close>: attaching to the threads of a process and detaching from
  them. \<open>PtraceManager\<close> counts how many \<open>TracedProcess\<close> values of a process are alive; the process
  is attached when the first one is made and detached when the last one is dropped. The calls of
  \<open>procfs\<close>, \<open>nix\<close> and \<open>retry\<close> are a parameter.
\<close>

section \<open>Calls\<close>

datatype proc_error = Proc_NotFound | Proc_Other

datatype retry_result = Retry_Ok | Retry_Operation anyhow | Retry_Internal

text \<open>\<open>tasks\<close> gives one entry for each thread, \<open>None\<close> for one that could not be read.\<close>

record 'w ptrace_calls =
  Process_new :: "i32 \<Rightarrow> 'w \<Rightarrow> (proc_error + char) \<times> 'w"
  Process_tasks :: "i32 \<Rightarrow> 'w \<Rightarrow> (proc_error + i32 option list) \<times> 'w"
  pt_attach :: "i32 \<Rightarrow> 'w \<Rightarrow> (nix_error + unit) \<times> 'w"
  pt_detach :: "i32 \<Rightarrow> 'w \<Rightarrow> (nix_error + unit) \<times> 'w"
  pt_wait_wall :: "i32 \<Rightarrow> 'w \<Rightarrow> 'w"
  pt_retry :: "nat \<Rightarrow> nat \<Rightarrow> ('w \<Rightarrow> (anyhow + unit) \<times> 'w) \<Rightarrow> 'w \<Rightarrow> retry_result \<times> 'w"

definition thread_is_gone :: "char \<Rightarrow> bool" where
  "thread_is_gone state \<longleftrightarrow> state = CHR ''Z'' \<or> state = CHR ''x'' \<or> state = CHR ''X''"

text \<open>\<open>attach_task\<close>: whether it returned \<open>Ok\<close>. A thread that is gone counts as attached.\<close>

definition attach_task :: "'w ptrace_calls \<Rightarrow> i32 \<Rightarrow> 'w \<Rightarrow> bool \<times> 'w" where
  "attach_task K tid w = (case Process_new K tid w of
       (Inl _, w) \<Rightarrow> (False, w)
     | (Inr state, w) \<Rightarrow>
         (case pt_attach K tid w of
            (Inr _, w) \<Rightarrow> (True, pt_wait_wall K tid w)
          | (Inl (nix_Sys errno), w) \<Rightarrow>
              if errno = ESRCH \<or> (errno = EPERM \<and> thread_is_gone state)
              then (True, pt_wait_wall K tid w) else (False, w)
          | (Inl _, w) \<Rightarrow> (False, w)))"

section \<open>The attach loop\<close>

text \<open>One pass over the threads: whether a new one was found, and the threads traced so far.\<close>

fun attach_round :: "'w ptrace_calls \<Rightarrow> i32 option list \<Rightarrow> i32 set \<Rightarrow> 'w \<Rightarrow> bool \<times> i32 set \<times> 'w" where
  "attach_round K [] traced w = (False, traced, w)"
| "attach_round K (None # tasks) traced w = attach_round K tasks traced w"
| "attach_round K (Some tid # tasks) traced w =
     (if tid \<in> traced then attach_round K tasks traced w
      else case attach_task K tid w of
             (True, w) \<Rightarrow> (case attach_round K tasks (insert tid traced) w of (_, r) \<Rightarrow> (True, r))
           | (False, w) \<Rightarrow> attach_round K tasks traced w)"

text \<open>The loop passes over the threads until two passes have found no new one.\<close>

partial_function (option) attach_loop ::
  "'w ptrace_calls \<Rightarrow> i32 \<Rightarrow> nat \<Rightarrow> i32 set \<Rightarrow> 'w \<Rightarrow> ((anyhow + i32 set) \<times> 'w) option" where
  "attach_loop K pid iterations traced w =
     (if iterations = 0 then Some (Inr traced, w)
      else case Process_new K pid w of
             (Inl _, w) \<Rightarrow> Some (Inl From_proc, w)
           | (Inr _, w) \<Rightarrow>
               (case Process_tasks K pid w of
                  (Inl _, w) \<Rightarrow> Some (Inl From_proc, w)
                | (Inr tasks, w) \<Rightarrow>
                    (case attach_round K tasks traced w of
                       (new_threads_found, traced, w) \<Rightarrow>
                         attach_loop K pid (if \<not> new_threads_found then iterations - 1 else iterations) traced w)))"

declare attach_loop.simps [code]

section \<open>The manager\<close>

text \<open>The counters are 32-bit; adding wraps around.\<close>

record 'w tracer =
  counter :: "i32 \<rightharpoonup> i32"
  tracer_world :: 'w

definition PtraceManager_trace ::
  "'w ptrace_calls \<Rightarrow> i32 \<Rightarrow> 'w tracer \<Rightarrow> ((anyhow + i32) \<times> 'w tracer) option" where
  "PtraceManager_trace K pid m = (case counter m pid of
       Some n \<Rightarrow> Some (Inr pid, m\<lparr>counter := (counter m)(pid \<mapsto> n + 1)\<rparr>)
     | None \<Rightarrow>
         (case attach_loop K pid 2 {} (tracer_world m) of
            None \<Rightarrow> None
          | Some (Inl e, w) \<Rightarrow> Some (Inl e, m\<lparr>tracer_world := w\<rparr>)
          | Some (Inr _, w) \<Rightarrow> Some (Inr pid, m\<lparr>counter := (counter m)(pid \<mapsto> 1), tracer_world := w\<rparr>)))"

text \<open>The results of \<open>ptrace::detach\<close> are only logged.\<close>

fun detach_tasks :: "'w ptrace_calls \<Rightarrow> i32 option list \<Rightarrow> 'w \<Rightarrow> 'w" where
  "detach_tasks K [] w = w"
| "detach_tasks K (None # tasks) w = detach_tasks K tasks w"
| "detach_tasks K (Some tid # tasks) w = detach_tasks K tasks (snd (pt_detach K tid w))"

definition detach_attempt :: "'w ptrace_calls \<Rightarrow> i32 \<Rightarrow> 'w \<Rightarrow> (anyhow + unit) \<times> 'w" where
  "detach_attempt K pid w = (case Process_new K pid w of
       (Inl Proc_NotFound, w) \<Rightarrow> (Inr (), w)
     | (Inl Proc_Other, w) \<Rightarrow> (Inl From_proc, w)
     | (Inr _, w) \<Rightarrow>
         (case Process_tasks K pid w of
            (Inl _, w) \<Rightarrow> (Inl From_proc, w)
          | (Inr tasks, w) \<Rightarrow> (Inr (), detach_tasks K tasks w)))"

definition PtraceManager_detach ::
  "'w ptrace_calls \<Rightarrow> i32 \<Rightarrow> 'w tracer \<Rightarrow> (anyhow + unit) \<times> 'w tracer" where
  "PtraceManager_detach K pid m = (case counter m pid of
       None \<Rightarrow> (Inl (Msg ''haven't traced this process''), m)
     | Some n \<Rightarrow>
         let n = n - 1 in
         if sint n < 1 then
           (case pt_retry K 500 20 (detach_attempt K pid) (tracer_world m) of
              (r, w) \<Rightarrow>
                (case r of Retry_Operation e \<Rightarrow> Inl e | _ \<Rightarrow> Inr (),
                 m\<lparr>counter := (counter m)(pid := None), tracer_world := w\<rparr>))
         else (Inr (), m\<lparr>counter := (counter m)(pid \<mapsto> n)\<rparr>))"

text \<open>Cloning a handle traces once more and panics (\<open>Inl\<close>) on an error; dropping one detaches.\<close>

definition TracedProcess_clone :: "'w ptrace_calls \<Rightarrow> i32 \<Rightarrow> 'w tracer \<Rightarrow> ((unit + i32) \<times> 'w tracer) option" where
  "TracedProcess_clone K pid m = map_option (\<lambda>(r, m'). (map_sum (\<lambda>_. ()) id r, m')) (PtraceManager_trace K pid m)"

definition TracedProcess_drop :: "'w ptrace_calls \<Rightarrow> i32 \<Rightarrow> 'w tracer \<Rightarrow> 'w tracer" where
  "TracedProcess_drop K pid m = snd (PtraceManager_detach K pid m)"

section \<open>The loop ends\<close>

lemma attach_round_traced:
  "attach_round K tasks traced w = (new, traced', w') \<Longrightarrow>
   traced \<subseteq> traced' \<and> traced' \<subseteq> traced \<union> {tid. Some tid \<in> set tasks} \<and> (new \<longleftrightarrow> traced' \<noteq> traced)"
proof (induction K tasks traced w arbitrary: new traced' w' rule: attach_round.induct)
  case (3 K tid tasks traced w)
  show ?case
  proof (cases "tid \<in> traced")
    case False
    obtain b w1 where b: "attach_task K tid w = (b, w1)" by fastforce
    show ?thesis
    proof (cases b)
      case True
      obtain n t w2 where r: "attach_round K tasks (insert tid traced) w1 = (n, t, w2)" by (metis prod_cases3)
      with 3(2) [OF False b [symmetric]] True have "insert tid traced \<subseteq> t"
        "t \<subseteq> insert tid traced \<union> {tid. Some tid \<in> set tasks}" by simp_all
      with 3(4) False b True r show ?thesis by auto
    next
      case F: False
      with 3(3) [OF False b [symmetric]] 3(4) False b show ?thesis by auto
    qed
  qed (use 3 in auto)
qed auto

lemma attach_loop_step:
  assumes "Process_new K pid w = (Inr s, w1)" and "Process_tasks K pid w1 = (Inr tasks, w2)"
    and "attach_round K tasks traced w2 = (new, traced', w3)" and "iterations \<noteq> 0"
  shows "attach_loop K pid iterations traced w =
    attach_loop K pid (if \<not> new then iterations - 1 else iterations) traced' w3"
  using assms by (simp add: attach_loop.simps [of K pid iterations traced w])

text \<open>All threads the process ever lists.\<close>

definition lists_within :: "'w ptrace_calls \<Rightarrow> i32 \<Rightarrow> i32 set \<Rightarrow> bool" where
  "lists_within K pid T \<longleftrightarrow> (\<forall>w tasks w'. Process_tasks K pid w = (Inr tasks, w') \<longrightarrow> {tid. Some tid \<in> set tasks} \<subseteq> T)"

lemma attach_loop_ends:
  assumes "lists_within K pid T"
  shows "\<exists>r w'. attach_loop K pid iterations traced w = Some (r, w') \<and>
    (\<forall>traced'. r = Inr traced' \<longrightarrow> traced \<subseteq> traced' \<and> traced' \<subseteq> traced \<union> T)"
proof (induction "(card (T - traced), iterations)" arbitrary: iterations traced w
    rule: wf_induct_rule [OF wf_lex_prod [OF wf_less wf_less]])
  case 1
  show ?case
  proof (cases "iterations = 0")
    case False
    obtain x w1 where x: "Process_new K pid w = (x, w1)" by fastforce
    obtain y w2 where y: "Process_tasks K pid w1 = (y, w2)" by fastforce
    show ?thesis
    proof (cases "(\<exists>s. x = Inr s) \<and> (\<exists>tasks. y = Inr tasks)")
      case True
      then obtain s tasks where s: "x = Inr s" "y = Inr tasks" by blast
      obtain new traced' w3 where r: "attach_round K tasks traced w2 = (new, traced', w3)" by (metis prod_cases3)
      note t = attach_round_traced [OF r]
      have T: "{tid. Some tid \<in> set tasks} \<subseteq> T" using assms y s unfolding lists_within_def by blast
      let ?it = "if \<not> new then iterations - 1 else iterations"
      have "((card (T - traced'), ?it), (card (T - traced), iterations)) \<in> {(x, y). x < y} <*lex*> {(x, y). x < y}"
      proof (cases new)
        case True
        with t T have "T - traced' \<subset> T - traced" by blast
        then have "card (T - traced') < card (T - traced)" by (simp add: psubset_card_mono)
        then show ?thesis by simp
      next
        case n: False
        with t have "traced' = traced" by blast
        with n False show ?thesis by simp
      qed
      from 1 [OF this, of w3] obtain r' w' where a: "attach_loop K pid ?it traced' w3 = Some (r', w')"
        and b: "\<forall>t'. r' = Inr t' \<longrightarrow> traced' \<subseteq> t' \<and> t' \<subseteq> traced' \<union> T"
        by (elim exE conjE)
      have "\<forall>t'. r' = Inr t' \<longrightarrow> traced \<subseteq> t' \<and> t' \<subseteq> traced \<union> T"
      proof (intro allI impI)
        fix t' assume "r' = Inr t'"
        with b have "traced' \<subseteq> t'" "t' \<subseteq> traced' \<union> T" by blast+
        with t T show "traced \<subseteq> t' \<and> t' \<subseteq> traced \<union> T" by blast
      qed
      with a show ?thesis
        unfolding attach_loop_step [OF x [unfolded s] y [unfolded s] r False] by (intro exI conjI)
    next
      case F: False
      with False x y have "\<exists>w'. attach_loop K pid iterations traced w = Some (Inl From_proc, w')"
        by (cases x; cases y) (auto simp: attach_loop.simps [of K pid iterations traced w])
      then show ?thesis by auto
    qed
  qed (simp add: attach_loop.simps [of K pid 0])
qed

text \<open>
  C31. Attaching ends: a pass that finds a new thread adds one of the finitely many thread ids, so the
  loop that attaches to the threads of a process returns, whatever it is told at each look, from
  any number of passes to go and any threads already traced; where it returns without error, all
  threads traced before are still in the set and the rest are threads that were listed.
\<close>

theorem attach_loop_returns:
  assumes "lists_within K pid T"
  shows "\<exists>r w'. attach_loop K pid iterations traced w = Some (r, w') \<and>
    (\<forall>traced'. r = Inr traced' \<longrightarrow> traced \<subseteq> traced' \<and> traced' \<subseteq> traced \<union> T)"
  by (rule attach_loop_ends [OF assms])

section \<open>Counting handles\<close>

text \<open>
  The live \<open>TracedProcess\<close> values, as a multiset of process ids, and what the manager does with
  them: \<open>trace\<close> makes one if it succeeds, a live one can be cloned or dropped.
\<close>

inductive handles_run :: "'w ptrace_calls \<Rightarrow> i32 multiset \<Rightarrow> 'w tracer \<Rightarrow> bool" for K where
  start: "counter m = Map.empty \<Longrightarrow> handles_run K {#} m"
| trace: "handles_run K H m \<Longrightarrow> count H pid + 1 < 2 ^ 31 \<Longrightarrow> PtraceManager_trace K pid m = Some (Inr h, m') \<Longrightarrow>
    handles_run K (add_mset h H) m'"
| failed: "handles_run K H m \<Longrightarrow> PtraceManager_trace K pid m = Some (Inl e, m') \<Longrightarrow> handles_run K H m'"
| clone: "handles_run K H m \<Longrightarrow> h \<in># H \<Longrightarrow> count H h + 1 < 2 ^ 31 \<Longrightarrow>
    TracedProcess_clone K h m = Some (Inr h', m') \<Longrightarrow> handles_run K (add_mset h' H) m'"
| drop: "handles_run K H m \<Longrightarrow> h \<in># H \<Longrightarrow> handles_run K (H - {#h#}) (TracedProcess_drop K h m)"

definition counts_handles :: "i32 multiset \<Rightarrow> 'w tracer \<Rightarrow> bool" where
  "counts_handles H m \<longleftrightarrow> (\<forall>pid. count H pid < 2 ^ 31 \<and>
     counter m pid = (if pid \<in># H then Some (word_of_nat (count H pid)) else None))"

lemma trace_result:
  "PtraceManager_trace K pid m = Some (Inr h, m') \<Longrightarrow> h = pid \<and>
     counter m' = (counter m)(pid \<mapsto> (case counter m pid of None \<Rightarrow> 1 | Some n \<Rightarrow> n + 1))"
  "PtraceManager_trace K pid m = Some (Inl e, m') \<Longrightarrow> counter m' = counter m \<and> counter m pid = None"
  by (auto simp: PtraceManager_trace_def split: option.splits sum.splits prod.splits)

lemma counts_handles_add:
  assumes "counts_handles H m" and "count H pid + 1 < 2 ^ 31"
    and "counter m' = (counter m)(pid \<mapsto> (case counter m pid of None \<Rightarrow> 1 | Some n \<Rightarrow> n + 1))"
  shows "counts_handles (add_mset pid H) m'"
  using assms by (auto simp: counts_handles_def not_in_iff split: option.splits if_splits)

lemma sint_count:
  assumes "n < 2 ^ 31" and "0 < n"
  shows "sint (word_of_nat n - 1 :: i32) = int n - 1"
proof -
  obtain k where k: "n = Suc k" using assms(2) by (cases n) simp_all
  with assms(1) have "unat (word_of_nat k :: i32) = k" by (simp add: unat_of_nat)
  then have "uint (word_of_nat k :: i32) = int k" by (metis uint_nat)
  with k assms(1) show ?thesis by (simp add: sint_i32)
qed

lemma drop_result:
  assumes "counts_handles H m" and "h \<in># H"
  shows "counts_handles (H - {#h#}) (TracedProcess_drop K h m)"
    and "1 < count H h \<Longrightarrow> TracedProcess_drop K h m = m\<lparr>counter := (counter m)(h \<mapsto> word_of_nat (count H h) - 1)\<rparr>"
proof -
  let ?n = "count H h"
  have n: "?n < 2 ^ 31" "0 < ?n" "counter m h = Some (word_of_nat ?n)"
    using assms by (auto simp: counts_handles_def)
  show many: "TracedProcess_drop K h m = m\<lparr>counter := (counter m)(h \<mapsto> word_of_nat ?n - 1)\<rparr>" if "1 < ?n"
    using that n sint_count [OF n(1,2)] by (simp add: TracedProcess_drop_def PtraceManager_detach_def Let_def)
  have one: "counter (TracedProcess_drop K h m) = (counter m)(h := None)" if "?n = 1"
    using that n sint_count [OF n(1,2)]
    by (simp add: TracedProcess_drop_def PtraceManager_detach_def Let_def split: prod.split)
  show "counts_handles (H - {#h#}) (TracedProcess_drop K h m)"
  proof (cases "1 < ?n")
    case True
    then have "h \<in># H - {#h#}" by (simp add: in_diff_count)
    with assms(1) many [OF True] show ?thesis
      by (auto simp: counts_handles_def in_diff_count less_imp_diff_less)
  next
    case False
    with n(2) have "?n = 1" by linarith
    with one have "counter (TracedProcess_drop K h m) = (counter m)(h := None)" by blast
    with assms(1) False n show ?thesis
      by (auto simp: counts_handles_def in_diff_count less_imp_diff_less)
  qed
qed

lemma counts_handles_run: "handles_run K H m \<Longrightarrow> counts_handles H m"
proof (induction rule: handles_run.induct)
  case (start m)
  then show ?case by (simp add: counts_handles_def)
next
  case (trace H m pid h m')
  with trace_result(1) [OF trace(3)] counts_handles_add show ?case by blast
next
  case (failed H m pid e m')
  with trace_result(2) [OF failed(2)] show ?case by (simp add: counts_handles_def)
next
  case (clone H m h h' m')
  then obtain r where "PtraceManager_trace K h m = Some (r, m')" "map_sum (\<lambda>_. ()) id r = Inr h'"
    by (auto simp: TracedProcess_clone_def)
  then have "PtraceManager_trace K h m = Some (Inr h', m')" by (cases r) simp_all
  from trace_result(1) [OF this] clone counts_handles_add show ?case by blast
next
  case (drop H m h)
  then show ?case by (simp add: drop_result(1))
qed

text \<open>
  C32. Handles are counted: in every run, the counter of a process is the number of its live
  handles (below \<open>2 ^ 31\<close>), and it has none when none is alive. Therefore cloning a live handle
  returns at once, never panics, and touches no thread; and dropping one touches no thread
  either unless it is the last one, after which the process is no longer counted.
\<close>

theorem handles_counted:
  assumes "handles_run K H m"
  shows "counts_handles H m \<and>
    (\<forall>h. h \<in># H \<longrightarrow>
       (\<exists>m'. TracedProcess_clone K h m = Some (Inr h, m') \<and> tracer_world m' = tracer_world m) \<and>
       (if count H h = 1 then counter (TracedProcess_drop K h m) h = None
        else tracer_world (TracedProcess_drop K h m) = tracer_world m))"
proof (intro conjI allI impI)
  note c = counts_handles_run [OF assms]
  then show "counts_handles H m" .
  fix h assume h: "h \<in># H"
  with c show "\<exists>m'. TracedProcess_clone K h m = Some (Inr h, m') \<and> tracer_world m' = tracer_world m"
    by (simp add: counts_handles_def TracedProcess_clone_def PtraceManager_trace_def)
  show "if count H h = 1 then counter (TracedProcess_drop K h m) h = None
      else tracer_world (TracedProcess_drop K h m) = tracer_world m"
  proof (cases "count H h = 1")
    case True
    then have "h \<notin># H - {#h#}" by (simp add: in_diff_count)
    with drop_result(1) [OF c h] True show ?thesis by (simp add: counts_handles_def)
  next
    case False
    moreover from h have "0 < count H h" by simp
    ultimately have "1 < count H h" by linarith
    with drop_result(2) [OF c h] False show ?thesis by simp
  qed
qed

section \<open>A process with two threads\<close>

text \<open>The world lists the threads 10 and, from the second look on, 11; it records attached threads.\<close>

definition sample_ptrace :: "(nat \<times> i32 list) ptrace_calls" where
  "sample_ptrace =
     \<lparr>Process_new = (\<lambda>pid w. (Inr CHR ''S'', w)),
      Process_tasks = (\<lambda>pid (n, a). (Inr (if n = 0 then [Some 10, None] else [Some 10, Some 11]), (Suc n, a))),
      pt_attach = (\<lambda>tid (n, a). (Inr (), (n, tid # a))),
      pt_detach = (\<lambda>tid (n, a). (Inr (), (n, removeAll tid a))),
      pt_wait_wall = (\<lambda>tid w. w),
      pt_retry = (\<lambda>ms n f w. case f w of (Inr _, w') \<Rightarrow> (Retry_Ok, w') | (Inl e, w') \<Rightarrow> (Retry_Operation e, w'))\<rparr>"

lemma sample_lists: "lists_within sample_ptrace 10 {10, 11}"
  by (auto simp: lists_within_def sample_ptrace_def split: if_splits)

lemma attach_loop_returns_witness:
  "\<exists>r w'. attach_loop sample_ptrace 10 2 {} (0, []) = Some (r, w') \<and> (\<forall>traced'. r = Inr traced' \<longrightarrow> traced' \<subseteq> {10, 11})"
  using attach_loop_returns [OF sample_lists, of 2 "{}" "(0, [])"] by simp

definition sample_tracer :: "(nat \<times> i32 list) tracer" where
  "sample_tracer = \<lparr>counter = Map.empty, tracer_world = (0, [])\<rparr>"

lemma sample_ptrace_simps:
  "Process_new sample_ptrace pid w = (Inr CHR ''S'', w)"
  "Process_tasks sample_ptrace pid (n, a) = (Inr (if n = 0 then [Some 10, None] else [Some 10, Some 11]), (Suc n, a))"
  "pt_attach sample_ptrace tid (n, a) = (Inr (), (n, tid # a))" "pt_wait_wall sample_ptrace tid w = w"
  by (simp_all add: sample_ptrace_def)

lemma sample_attach: "attach_loop sample_ptrace 10 2 {} (0, []) = Some (Inr {10, 11}, (4, [11, 10]))"
  by (simp add: attach_loop.simps [of sample_ptrace] sample_ptrace_simps attach_task_def insert_commute)

lemma sample_handles:
  "handles_run sample_ptrace {#10#} \<lparr>counter = [10 \<mapsto> 1], tracer_world = (4, [11, 10])\<rparr>"
  using handles_run.trace [OF handles_run.start, of sample_tracer 10 sample_ptrace 10]
  by (simp add: sample_tracer_def PtraceManager_trace_def sample_attach)

lemma handles_counted_witness:
  "let m = \<lparr>counter = [10 \<mapsto> 1], tracer_world = (4, [11, 10])\<rparr> in
   counts_handles {#10#} m \<and> (\<exists>m'. TracedProcess_clone sample_ptrace 10 m = Some (Inr 10, m')) \<and>
   counter (TracedProcess_drop sample_ptrace 10 m) 10 = None"
  using handles_counted [OF sample_handles] by (auto simp: Let_def)

end
