(* ===== verification/Tracee.thy ===== *)
theory Tracee
  imports Ptrace_Manager
begin

text \<open>
  The second half of \<open>src/ptrace/mod.rs\<close>: running system calls and code inside a traced process.
  The registers and the word at the instruction pointer are saved before and put back after,
  whatever happens in between. A wait that never reports the trap is a computation that does not
  return (\<open>None\<close>). The calls of \<open>ptrace\<close>, \<open>waitpid\<close> and \<open>process_vm_writev\<close> are a parameter.
\<close>

section \<open>Calls\<close>

record user_regs =
  reg_r15 :: u64
  reg_r14 :: u64
  reg_r13 :: u64
  reg_r12 :: u64
  reg_rbp :: u64
  reg_rbx :: u64
  reg_r11 :: u64
  reg_r10 :: u64
  reg_r9 :: u64
  reg_r8 :: u64
  reg_rax :: u64
  reg_rcx :: u64
  reg_rdx :: u64
  reg_rsi :: u64
  reg_rdi :: u64
  reg_orig_rax :: u64
  reg_rip :: u64
  reg_eflags :: u64
  reg_rsp :: u64
  reg_segments :: "u64 list"

datatype wait_status = Stopped_SIGTRAP | Wait_other

record 'w tracee_calls =
  pt_getregs :: "i32 \<Rightarrow> 'w \<Rightarrow> (nix_error + user_regs) \<times> 'w"
  pt_setregs :: "i32 \<Rightarrow> user_regs \<Rightarrow> 'w \<Rightarrow> (nix_error + unit) \<times> 'w"
  pt_read :: "i32 \<Rightarrow> u64 \<Rightarrow> 'w \<Rightarrow> (nix_error + i64) \<times> 'w"
  pt_write :: "i32 \<Rightarrow> u64 \<Rightarrow> i64 \<Rightarrow> 'w \<Rightarrow> (nix_error + unit) \<times> 'w"
  pt_step :: "i32 \<Rightarrow> 'w \<Rightarrow> (nix_error + unit) \<times> 'w"
  pt_cont :: "i32 \<Rightarrow> 'w \<Rightarrow> (nix_error + unit) \<times> 'w"
  pt_waitpid :: "i32 \<Rightarrow> 'w \<Rightarrow> (nix_error + wait_status) \<times> 'w"
  vm_writev :: "i32 \<Rightarrow> u64 \<Rightarrow> u8 list \<Rightarrow> 'w \<Rightarrow> (nix_error + nat) \<times> 'w"

type_synonym ('w, 'a) traced = "'w \<Rightarrow> ((anyhow, 'a) outcome \<times> 'w) option"

definition tr_return :: "'a \<Rightarrow> ('w, 'a) traced" where
  "tr_return a = (\<lambda>w. Some (Ok a, w))"

definition tr_raise :: "anyhow \<Rightarrow> ('w, 'a) traced" where
  "tr_raise e = (\<lambda>w. Some (Err e, w))"

definition tr_call :: "('w \<Rightarrow> (nix_error + 'a) \<times> 'w) \<Rightarrow> ('w, 'a) traced" where
  "tr_call f = (\<lambda>w. Some (nix_result f w))"

definition tr_then :: "('w, 'a) traced \<Rightarrow> ('a \<Rightarrow> ('w, 'b) traced) \<Rightarrow> ('w, 'b) traced" where
  "tr_then m f = (\<lambda>w. case m w of
       None \<Rightarrow> None
     | Some (Ok a, w') \<Rightarrow> f a w'
     | Some (Err e, w') \<Rightarrow> Some (Err e, w')
     | Some (Panic, w') \<Rightarrow> Some (Panic, w'))"

section \<open>Saving and restoring\<close>

record ThreadGuard =
  guard_tid :: i32
  guard_regs :: user_regs
  guard_rip_ins :: i64

definition TracedProcess_protect :: "'w tracee_calls \<Rightarrow> i32 \<Rightarrow> ('w, ThreadGuard) traced" where
  "TracedProcess_protect K pid =
     tr_then (tr_call (pt_getregs K pid)) (\<lambda>regs.
     tr_then (tr_call (pt_read K pid (reg_rip regs))) (\<lambda>rip_ins.
     tr_return \<lparr>guard_tid = pid, guard_regs = regs, guard_rip_ins = rip_ins\<rparr>))"

text \<open>\<open>Drop for ThreadGuard\<close>; false where one of the \<open>unwrap\<close> calls panics.\<close>

definition ThreadGuard_drop :: "'w tracee_calls \<Rightarrow> ThreadGuard \<Rightarrow> 'w \<Rightarrow> bool \<times> 'w" where
  "ThreadGuard_drop K g w =
     (case pt_write K (guard_tid g) (reg_rip (guard_regs g)) (guard_rip_ins g) w of
        (Inl _, w) \<Rightarrow> (False, w)
      | (Inr _, w) \<Rightarrow>
          (case pt_setregs K (guard_tid g) (guard_regs g) w of
             (Inl _, w) \<Rightarrow> (False, w)
           | (Inr _, w) \<Rightarrow> (True, w)))"

text \<open>The guard is dropped on every way out of \<open>f\<close>: at the end, on an error and on a panic.\<close>

definition with_protect :: "'w tracee_calls \<Rightarrow> i32 \<Rightarrow> ('w, 'a) traced \<Rightarrow> ('w, 'a) traced" where
  "with_protect K pid f = tr_then (TracedProcess_protect K pid) (\<lambda>guard w.
     case f w of
       None \<Rightarrow> None
     | Some (r, w) \<Rightarrow>
         (case ThreadGuard_drop K guard w of
            (True, w) \<Rightarrow> Some (r, w)
          | (False, w) \<Rightarrow> Some (Panic, w)))"

section \<open>System calls\<close>

text \<open>The argument registers of x86-64, in their order; there is no seventh.\<close>

fun set_args :: "nat \<Rightarrow> u64 list \<Rightarrow> user_regs \<Rightarrow> anyhow + user_regs" where
  "set_args index [] regs = Inr regs"
| "set_args index (arg # args) regs =
     (if index = 0 then set_args (index + 1) args (regs\<lparr>reg_rdi := arg\<rparr>)
      else if index = 1 then set_args (index + 1) args (regs\<lparr>reg_rsi := arg\<rparr>)
      else if index = 2 then set_args (index + 1) args (regs\<lparr>reg_rdx := arg\<rparr>)
      else if index = 3 then set_args (index + 1) args (regs\<lparr>reg_r10 := arg\<rparr>)
      else if index = 4 then set_args (index + 1) args (regs\<lparr>reg_r8 := arg\<rparr>)
      else if index = 5 then set_args (index + 1) args (regs\<lparr>reg_r9 := arg\<rparr>)
      else Inl (Msg ''too many arguments for a syscall''))"

partial_function (option) wait_trap :: "'w tracee_calls \<Rightarrow> i32 \<Rightarrow> ('w, unit) traced" where
  "wait_trap K pid w = (case pt_waitpid K pid w of
       (Inl e, w) \<Rightarrow> Some (Err (From_nix e), w)
     | (Inr Stopped_SIGTRAP, w) \<Rightarrow> Some (Ok (), w)
     | (Inr Wait_other, w) \<Rightarrow>
         (case pt_step K pid w of
            (Inl e, w) \<Rightarrow> Some (Err (From_nix e), w)
          | (Inr _, w) \<Rightarrow> wait_trap K pid w))"

definition TracedProcess_syscall :: "'w tracee_calls \<Rightarrow> i32 \<Rightarrow> u64 \<Rightarrow> u64 list \<Rightarrow> ('w, u64) traced" where
  "TracedProcess_syscall K pid ident args = with_protect K pid
     (tr_then (tr_call (pt_getregs K pid)) (\<lambda>regs.
      let cur_ins_ptr = reg_rip regs in
      case set_args 0 args (regs\<lparr>reg_rax := ident\<rparr>) of
        Inl e \<Rightarrow> tr_raise e
      | Inr regs \<Rightarrow>
          tr_then (tr_call (pt_setregs K pid regs)) (\<lambda>_.
          tr_then (tr_call (pt_write K pid cur_ins_ptr 0x050f)) (\<lambda>_.
          tr_then (tr_call (pt_step K pid)) (\<lambda>_.
          tr_then (wait_trap K pid) (\<lambda>_.
          tr_then (tr_call (pt_getregs K pid)) (\<lambda>regs.
          tr_return (reg_rax regs))))))))"

definition PROT_READ :: u64 where "PROT_READ = 1"
definition PROT_WRITE :: u64 where "PROT_WRITE = 2"
definition PROT_EXEC :: u64 where "PROT_EXEC = 4"
definition MAP_SHARED :: u64 where "MAP_SHARED = 1"
definition MAP_PRIVATE :: u64 where "MAP_PRIVATE = 2"
definition MAP_ANON :: u64 where "MAP_ANON = 0x20"

definition TracedProcess_mmap :: "'w tracee_calls \<Rightarrow> i32 \<Rightarrow> u64 \<Rightarrow> u64 \<Rightarrow> ('w, u64) traced" where
  "TracedProcess_mmap K pid len fd =
     (let prot = PROT_READ OR PROT_WRITE OR PROT_EXEC; flags = MAP_PRIVATE OR MAP_ANON in
      TracedProcess_syscall K pid 9 [0, len, prot, flags, fd, 0])"

definition TracedProcess_munmap :: "'w tracee_calls \<Rightarrow> i32 \<Rightarrow> u64 \<Rightarrow> u64 \<Rightarrow> ('w, u64) traced" where
  "TracedProcess_munmap K pid addr len = TracedProcess_syscall K pid 11 [addr, len]"

definition with_mmap :: "'w tracee_calls \<Rightarrow> i32 \<Rightarrow> u64 \<Rightarrow> (u64 \<Rightarrow> ('w, 'a) traced) \<Rightarrow> ('w, 'a) traced" where
  "with_mmap K pid len f =
     tr_then (TracedProcess_mmap K pid len 0) (\<lambda>addr.
     tr_then (f addr) (\<lambda>ret.
     tr_then (TracedProcess_munmap K pid addr len) (\<lambda>_.
     tr_return ret)))"

definition TracedProcess_write_mem :: "'w tracee_calls \<Rightarrow> i32 \<Rightarrow> u64 \<Rightarrow> u8 list \<Rightarrow> ('w, unit) traced" where
  "TracedProcess_write_mem K pid addr content =
     tr_then (tr_call (vm_writev K pid addr content)) (\<lambda>_. tr_return ())"

text \<open>The path with a terminating zero; a path with a zero inside is an error.\<close>

definition TracedProcess_chdir :: "'w tracee_calls \<Rightarrow> i32 \<Rightarrow> path \<Rightarrow> ('w, unit) traced" where
  "TracedProcess_chdir K pid filename = (case cstring_new filename of
       None \<Rightarrow> tr_raise From_io
     | Some filename \<Rightarrow>
         let path = bytes_of filename @ [0] in
         with_mmap K pid (word_of_nat (length path)) (\<lambda>addr.
           tr_then (TracedProcess_write_mem K pid addr path) (\<lambda>_.
           tr_then (TracedProcess_syscall K pid 80 [addr]) (\<lambda>_.
           tr_return ()))))"

section \<open>Running code\<close>

partial_function (option) cont_trap :: "'w tracee_calls \<Rightarrow> i32 \<Rightarrow> ('w, unit) traced" where
  "cont_trap K pid w = (case pt_cont K pid w of
       (Inl e, w) \<Rightarrow> Some (Err (From_nix e), w)
     | (Inr _, w) \<Rightarrow>
         (case pt_waitpid K pid w of
            (Inl e, w) \<Rightarrow> Some (Err (From_nix e), w)
          | (Inr status, w) \<Rightarrow>
              (case pt_getregs K pid w of
                 (Inl e, w) \<Rightarrow> Some (Err (From_nix e), w)
               | (Inr _, w) \<Rightarrow>
                   (case status of
                      Stopped_SIGTRAP \<Rightarrow> Some (Ok (), w)
                    | Wait_other \<Rightarrow> cont_trap K pid w))))"

definition TracedProcess_run_codes ::
  "'w tracee_calls \<Rightarrow> i32 \<Rightarrow> (u64 \<Rightarrow> anyhow + u64 \<times> u8 list) \<Rightarrow> ('w, unit) traced" where
  "TracedProcess_run_codes K pid codes =
     tr_then (tr_call (pt_getregs K pid)) (\<lambda>regs.
     case codes (reg_rip regs) of
       Inl e \<Rightarrow> tr_raise e
     | Inr (_, ins) \<Rightarrow>
         with_mmap K pid (word_of_nat (length ins) + 16) (\<lambda>addr.
           with_protect K pid
             (case codes addr of
                Inl e \<Rightarrow> tr_raise e
              | Inr (offset, ins) \<Rightarrow>
                  tr_then (TracedProcess_write_mem K pid addr ins) (\<lambda>_.
                  tr_then (tr_call (pt_getregs K pid)) (\<lambda>regs.
                  tr_then (tr_call (pt_setregs K pid (regs\<lparr>reg_rip := addr + offset\<rparr>))) (\<lambda>_.
                  tr_then (tr_call (pt_getregs K pid)) (\<lambda>_.
                  cont_trap K pid)))))))"

section \<open>Argument registers\<close>

definition arg_regs :: "user_regs \<Rightarrow> u64 list" where
  "arg_regs r = [reg_rdi r, reg_rsi r, reg_rdx r, reg_r10 r, reg_r8 r, reg_r9 r]"

lemma length_le_6_cases:
  "length (xs :: 'a list) \<le> 6 \<Longrightarrow> xs = [] \<or> (\<exists>a. xs = [a]) \<or> (\<exists>a b. xs = [a, b]) \<or> (\<exists>a b c. xs = [a, b, c]) \<or>
   (\<exists>a b c d. xs = [a, b, c, d]) \<or> (\<exists>a b c d e. xs = [a, b, c, d, e]) \<or> (\<exists>a b c d e f. xs = [a, b, c, d, e, f])"
  by (auto simp: le_Suc_eq length_Suc_conv numeral_eq_Suc)

lemma set_args_too_many: "6 < length args \<Longrightarrow> set_args 0 args regs = Inl (Msg ''too many arguments for a syscall'')"
  by (cases args; cases "tl args"; cases "tl (tl args)"; cases "tl (tl (tl args))"; cases "tl (tl (tl (tl args)))";
      cases "tl (tl (tl (tl (tl args))))"; cases "tl (tl (tl (tl (tl (tl args)))))") auto

text \<open>
  The registers of an injected system call: up to six arguments are placed in the argument
  registers in the order of the x86-64 convention and no other register changes; with more than
  six arguments the call is refused and nothing is set.
\<close>

lemma set_args_convention:
  "set_args 0 args regs =
     (if length args \<le> 6
      then Inr (regs\<lparr>reg_rdi := (args @ drop (length args) (arg_regs regs)) ! 0,
                     reg_rsi := (args @ drop (length args) (arg_regs regs)) ! 1,
                     reg_rdx := (args @ drop (length args) (arg_regs regs)) ! 2,
                     reg_r10 := (args @ drop (length args) (arg_regs regs)) ! 3,
                     reg_r8 := (args @ drop (length args) (arg_regs regs)) ! 4,
                     reg_r9 := (args @ drop (length args) (arg_regs regs)) ! 5\<rparr>)
      else Inl (Msg ''too many arguments for a syscall''))"
proof (cases "length args \<le> 6")
  case True
  from length_le_6_cases [OF this] show ?thesis
    by (elim disjE exE) (simp_all add: arg_regs_def)
qed (simp add: set_args_too_many)

section \<open>The process is left as it was\<close>

text \<open>
  What the manual page of \<open>ptrace\<close> says of the calls that read and write registers and words;
  \<open>regs w\<close> and \<open>word w a\<close> are the registers and the word at an address of the process.
\<close>

definition tracee_ok :: "'w tracee_calls \<Rightarrow> i32 \<Rightarrow> ('w \<Rightarrow> user_regs) \<Rightarrow> ('w \<Rightarrow> u64 \<Rightarrow> i64) \<Rightarrow> bool" where
  "tracee_ok K pid regs word \<longleftrightarrow>
     (\<forall>w r w'. pt_getregs K pid w = (r, w') \<longrightarrow>
        regs w' = regs w \<and> word w' = word w \<and> (\<forall>x. r = Inr x \<longrightarrow> x = regs w)) \<and>
     (\<forall>a w r w'. pt_read K pid a w = (r, w') \<longrightarrow>
        regs w' = regs w \<and> word w' = word w \<and> (\<forall>x. r = Inr x \<longrightarrow> x = word w a)) \<and>
     (\<forall>x w u w'. pt_setregs K pid x w = (Inr u, w') \<longrightarrow> regs w' = x \<and> word w' = word w) \<and>
     (\<forall>a v w u w'. pt_write K pid a v w = (Inr u, w') \<longrightarrow> regs w' = regs w \<and> word w' a = v)"

lemma tracee_okD:
  assumes "tracee_ok K pid regs word"
  shows "pt_getregs K pid w = (r, w') \<Longrightarrow> regs w' = regs w \<and> word w' = word w \<and> (\<forall>x. r = Inr x \<longrightarrow> x = regs w)"
    and "pt_read K pid a w = (i, w') \<Longrightarrow> regs w' = regs w \<and> word w' = word w \<and> (\<forall>x. i = Inr x \<longrightarrow> x = word w a)"
    and "pt_setregs K pid y w = (Inr u, w') \<Longrightarrow> regs w' = y \<and> word w' = word w"
    and "pt_write K pid a v w = (Inr u, w') \<Longrightarrow> regs w' = regs w \<and> word w' a = v"
  using assms unfolding tracee_ok_def by (elim conjE, metis)+

text \<open>What is restored: all registers, and the word at the instruction pointer.\<close>

definition tracee_view :: "('w \<Rightarrow> user_regs) \<Rightarrow> ('w \<Rightarrow> u64 \<Rightarrow> i64) \<Rightarrow> 'w \<Rightarrow> user_regs \<times> i64" where
  "tracee_view regs word w = (regs w, word w (reg_rip (regs w)))"

definition restores :: "('w \<Rightarrow> user_regs) \<Rightarrow> ('w \<Rightarrow> u64 \<Rightarrow> i64) \<Rightarrow> ('w, 'a) traced \<Rightarrow> bool" where
  "restores regs word m \<longleftrightarrow> (\<forall>w r w'. m w = Some (r, w') \<longrightarrow> r \<noteq> Panic \<longrightarrow>
     tracee_view regs word w' = tracee_view regs word w)"

lemma restores_then:
  assumes "restores regs word m" and "\<And>a. restores regs word (f a)"
  shows "restores regs word (tr_then m f)"
  unfolding restores_def
proof (intro allI impI)
  fix w r w' assume r: "tr_then m f w = Some (r, w')" "r \<noteq> Panic"
  then obtain x w1 where x: "m w = Some (x, w1)" by (auto simp: tr_then_def split: option.splits)
  with r have "x \<noteq> Panic" by (auto simp: tr_then_def)
  with x assms(1) have w1: "tracee_view regs word w1 = tracee_view regs word w" unfolding restores_def by blast
  show "tracee_view regs word w' = tracee_view regs word w"
  proof (cases x)
    case (Ok a)
    with r x have "f a w1 = Some (r, w')" by (simp add: tr_then_def)
    with assms(2) [of a] r(2) w1 show ?thesis unfolding restores_def by metis
  qed (use r x w1 in \<open>simp_all add: tr_then_def\<close>)
qed

lemma restores_simple:
  "restores regs word (tr_return a)" "restores regs word (tr_raise e)"
  by (simp_all add: restores_def tr_return_def tr_raise_def)

lemma restores_read:
  assumes "tracee_ok K pid regs word"
  shows "restores regs word (tr_call (pt_getregs K pid))"
  using tracee_okD(1) [OF assms]
  by (fastforce simp: restores_def tr_call_def nix_result_def tracee_view_def split: prod.splits sum.splits)

lemma drop_view:
  assumes "tracee_ok K pid regs word" and "guard_tid g = pid" and "ThreadGuard_drop K g w = (True, w')"
  shows "tracee_view regs word w' = (guard_regs g, guard_rip_ins g)"
proof -
  from assms(2,3) obtain u v w1 where
    "pt_write K pid (reg_rip (guard_regs g)) (guard_rip_ins g) w = (Inr u, w1)"
    "pt_setregs K pid (guard_regs g) w1 = (Inr v, w')"
    by (auto simp: ThreadGuard_drop_def split: prod.splits sum.splits)
  with tracee_okD(3,4) [OF assms(1)] show ?thesis unfolding tracee_view_def by metis
qed

lemma protect_view:
  assumes "tracee_ok K pid regs word" and "TracedProcess_protect K pid w = Some (r, w')"
  shows "tracee_view regs word w' = tracee_view regs word w \<and>
    (\<forall>g. r = Ok g \<longrightarrow> guard_tid g = pid \<and> (guard_regs g, guard_rip_ins g) = tracee_view regs word w)"
proof -
  obtain x w1 where x: "pt_getregs K pid w = (x, w1)" by fastforce
  note x' = tracee_okD(1) [OF assms(1) x]
  show ?thesis
  proof (cases x)
    case (Inr rs)
    obtain y w2 where y: "pt_read K pid (reg_rip rs) w1 = (y, w2)" by fastforce
    from tracee_okD(2) [OF assms(1) y] x' Inr x y assms(2) show ?thesis
      by (cases y) (auto simp: TracedProcess_protect_def tr_then_def tr_call_def nix_result_def tr_return_def tracee_view_def)
  qed (use x x' assms(2) in \<open>auto simp: TracedProcess_protect_def tr_then_def tr_call_def nix_result_def tracee_view_def\<close>)
qed

lemma restores_protect:
  assumes "tracee_ok K pid regs word"
  shows "restores regs word (with_protect K pid f)"
  unfolding restores_def
proof (intro allI impI)
  fix w r w' assume r: "with_protect K pid f w = Some (r, w')" "r \<noteq> Panic"
  then obtain x w1 where x: "TracedProcess_protect K pid w = Some (x, w1)"
    by (auto simp: with_protect_def tr_then_def split: option.splits)
  note v = protect_view [OF assms x]
  show "tracee_view regs word w' = tracee_view regs word w"
  proof (cases x)
    case (Ok g)
    with r x obtain y w2 where "f w1 = Some (y, w2)" and d: "ThreadGuard_drop K g w2 = (True, w')"
      by (auto simp: with_protect_def tr_then_def split: option.splits prod.splits bool.splits)
    from drop_view [OF assms _ d] v Ok show ?thesis by simp
  qed (use r x v in \<open>simp_all add: with_protect_def tr_then_def\<close>)
qed

lemma restores_syscall:
  assumes "tracee_ok K pid regs word"
  shows "restores regs word (TracedProcess_syscall K pid ident args)"
    and "restores regs word (TracedProcess_mmap K pid len fd)"
    and "restores regs word (TracedProcess_munmap K pid addr len)"
  unfolding TracedProcess_syscall_def TracedProcess_mmap_def TracedProcess_munmap_def Let_def
  by (rule restores_protect [OF assms])+

text \<open>
  C30. A traced process is left as it was: whatever a system call, a mapping or injected code does in
  it, and whether it succeeds or fails, when \<open>syscall\<close>, \<open>mmap\<close>, \<open>munmap\<close> or \<open>run_codes\<close> returns
  without a panic all registers and the word at the instruction pointer are those from before.
\<close>

theorem tracee_restored:
  assumes "tracee_ok K pid regs word"
  shows "restores regs word (TracedProcess_syscall K pid ident args) \<and>
    restores regs word (TracedProcess_mmap K pid len fd) \<and> restores regs word (TracedProcess_munmap K pid addr len) \<and>
    restores regs word (TracedProcess_run_codes K pid codes)"
proof (intro conjI)
  show "restores regs word (TracedProcess_run_codes K pid codes)"
    unfolding TracedProcess_run_codes_def with_mmap_def
    by (intro restores_then [OF restores_read [OF assms]])
       (auto split: sum.split intro!: restores_simple restores_then restores_syscall [OF assms] restores_protect [OF assms])
qed (rule restores_syscall [OF assms])+

text \<open>
  A process that is its registers and its words; a step runs one instruction, which is taken to be
  a system call that returns 7 and moves the instruction pointer.
\<close>

type_synonym sample_process = "user_regs \<times> (u64 \<Rightarrow> i64)"

definition sample_tracee :: "sample_process tracee_calls" where
  "sample_tracee =
     \<lparr>pt_getregs = (\<lambda>pid (r, m). (Inr r, (r, m))), pt_setregs = (\<lambda>pid r' (r, m). (Inr (), (r', m))),
      pt_read = (\<lambda>pid a (r, m). (Inr (m a), (r, m))), pt_write = (\<lambda>pid a v (r, m). (Inr (), (r, m(a := v)))),
      pt_step = (\<lambda>pid (r, m). (Inr (), (r\<lparr>reg_rax := 7, reg_rip := reg_rip r + 2\<rparr>, m))),
      pt_cont = (\<lambda>pid (r, m). (Inr (), (r, m))),
      pt_waitpid = (\<lambda>pid w. (Inr Stopped_SIGTRAP, w)), vm_writev = (\<lambda>pid a bs w. (Inr (length bs), w))\<rparr>"

lemma sample_tracee_ok: "tracee_ok sample_tracee 10 fst snd"
  by (simp add: tracee_ok_def sample_tracee_def split: prod.split)

definition sample_regs :: user_regs where
  "sample_regs = \<lparr>reg_r15 = 1, reg_r14 = 2, reg_r13 = 3, reg_r12 = 4, reg_rbp = 5, reg_rbx = 6, reg_r11 = 7, reg_r10 = 8,
     reg_r9 = 9, reg_r8 = 10, reg_rax = 11, reg_rcx = 12, reg_rdx = 13, reg_rsi = 14, reg_rdi = 15, reg_orig_rax = 16,
     reg_rip = 0x1000, reg_eflags = 0, reg_rsp = 0x2000, reg_segments = []\<rparr>"

lemma sample_syscall:
  "\<exists>w'. TracedProcess_syscall sample_tracee 10 39 [1, 2] (sample_regs, \<lambda>_. 42) = Some (Ok 7, w')"
  by (simp add: TracedProcess_syscall_def with_protect_def TracedProcess_protect_def ThreadGuard_drop_def tr_then_def
      tr_call_def nix_result_def tr_return_def wait_trap.simps [of sample_tracee] Let_def)
     (simp add: sample_tracee_def ThreadGuard_drop_def)

lemma tracee_restored_witness:
  "\<exists>w'. TracedProcess_syscall sample_tracee 10 39 [1, 2] (sample_regs, \<lambda>_. 42) = Some (Ok 7, w') \<and>
     tracee_view fst snd w' = (sample_regs, 42)"
proof -
  obtain w' where w': "TracedProcess_syscall sample_tracee 10 39 [1, 2] (sample_regs, \<lambda>_. 42) = Some (Ok 7, w')"
    using sample_syscall by blast
  have "restores fst snd (TracedProcess_syscall sample_tracee 10 39 [1, 2])"
    by (rule tracee_restored [OF sample_tracee_ok, THEN conjunct1])
  then have "tracee_view fst snd w' = tracee_view fst snd (sample_regs, \<lambda>_. 42)"
    unfolding restores_def using w' by (metis outcome.distinct(3))
  with w' show ?thesis by (auto simp: tracee_view_def)
qed

end
