(* ===== verification/Machine.thy ===== *)
theory Machine
  imports Tracee
begin

text \<open>
  The part of x86-64 that the code of the replacers uses: the registers it names, the carry flag,
  memory as bytes, and the instructions of the two \<open>dynasm!\<close> blocks, with the labels they jump
  to. A system call sees as many argument registers as it has arguments; the registers \<open>rcx\<close> and
  \<open>r11\<close>, which it destroys, are not used by the code.
\<close>

unbundle bit_operations_syntax

section \<open>Little-endian words\<close>

fun le_bytes :: "nat \<Rightarrow> u64 \<Rightarrow> u8 list" where
  "le_bytes 0 v = []"
| "le_bytes (Suc n) v = ucast v # le_bytes n (drop_bit 8 v)"

fun of_le :: "u8 list \<Rightarrow> u64" where
  "of_le [] = 0"
| "of_le (b # bs) = ucast b OR push_bit 8 (of_le bs)"

lemma length_le_bytes [simp]: "length (le_bytes n v) = n"
  by (induction n arbitrary: v) simp_all

lemma of_le_le_bytes: "of_le (le_bytes n v) = take_bit (8 * n) v"
proof (induction n arbitrary: v)
  case (Suc n)
  have "ucast (ucast v :: u8) OR push_bit 8 (take_bit (8 * n) (drop_bit 8 v)) = take_bit (8 * Suc n) v"
    by (rule bit_word_eqI) (auto simp: bit_simps)
  then show ?case by (simp add: Suc)
qed simp

lemma of_le_qword [simp]: "of_le (le_bytes 8 v) = v"
proof -
  have "take_bit 64 v = v" by (rule bit_word_eqI) (simp add: bit_simps)
  then show ?thesis by (simp add: of_le_le_bytes)
qed

definition load64 :: "(u64 \<Rightarrow> u8) \<Rightarrow> u64 \<Rightarrow> u64" where
  "load64 m a = of_le (map (\<lambda>i. m (a + word_of_nat i)) [0..<8])"

definition store64 :: "u64 \<Rightarrow> u64 \<Rightarrow> (u64 \<Rightarrow> u8) \<Rightarrow> u64 \<Rightarrow> u8" where
  "store64 a v m = (\<lambda>b. if b - a < 8 then le_bytes 8 v ! unat (b - a) else m b)"

text \<open>\<open>bytes_at m a bs\<close>: the bytes \<open>bs\<close> stand in memory from address \<open>a\<close> on.\<close>

definition bytes_at :: "(u64 \<Rightarrow> u8) \<Rightarrow> u64 \<Rightarrow> u8 list \<Rightarrow> bool" where
  "bytes_at m a bs \<longleftrightarrow> (\<forall>i < length bs. m (a + word_of_nat i) = bs ! i)"

lemma bytes_at_append:
  "bytes_at m a (xs @ ys) \<longleftrightarrow> bytes_at m a xs \<and> bytes_at m (a + word_of_nat (length xs)) ys"
proof -
  have "(\<forall>i < length xs + length ys. m (a + word_of_nat i) = (xs @ ys) ! i) \<longleftrightarrow>
      (\<forall>i < length xs. m (a + word_of_nat i) = xs ! i) \<and>
      (\<forall>i < length ys. m (a + word_of_nat (length xs + i)) = ys ! i)"
    (is "?l \<longleftrightarrow> ?r \<and> ?s")
  proof
    show "?r \<and> ?s" if ?l using that by (auto simp: nth_append dest: spec [of _ "length xs + _"])
    assume rs: "?r \<and> ?s"
    show ?l
    proof (intro allI impI)
      fix i assume "i < length xs + length ys"
      then show "m (a + word_of_nat i) = (xs @ ys) ! i"
        using rs by (cases "i < length xs") (auto simp: nth_append dest: spec [of _ "i - length xs"])
    qed
  qed
  then show ?thesis by (simp add: bytes_at_def add.assoc)
qed

lemma bytes_at_prefix:
  assumes "bytes_at m a buf" and "prefix bs (drop off buf)" and "off \<le> length buf"
  shows "bytes_at m (a + word_of_nat off) bs"
proof -
  obtain r where "drop off buf = bs @ r" using assms(2) by (auto simp: prefix_def)
  then have "buf = take off buf @ bs @ r" by (metis append_take_drop_id)
  with assms(1) have "bytes_at m a (take off buf @ bs @ r)" by simp
  with assms(3) show ?thesis by (simp add: bytes_at_append)
qed

lemma bytes_at_load64: "bytes_at m a (le_bytes 8 v) \<Longrightarrow> load64 m a = v"
proof -
  assume "bytes_at m a (le_bytes 8 v)"
  then have "map (\<lambda>i. m (a + word_of_nat i)) [0..<8] = le_bytes 8 v"
    by (intro nth_equalityI) (simp_all add: bytes_at_def)
  then show ?thesis by (simp add: load64_def)
qed

lemma word_of_nat_less_u64: "i < j \<Longrightarrow> j < 2 ^ 64 \<Longrightarrow> (word_of_nat i :: u64) < word_of_nat j"
  by (simp add: word_less_nat_alt unat_of_nat)

text \<open>A table of entries of the same size.\<close>

lemma length_concat_fixed: "(\<And>c. length (f c) = sz) \<Longrightarrow> length (concat (map f cs)) = sz * length cs"
  by (induction cs) simp_all

lemma bytes_at_entry:
  assumes "\<And>c. length (f c) = sz" and "k < length cs" and "bytes_at m a (concat (map f cs))"
  shows "bytes_at m (a + word_of_nat (sz * k)) (f (cs ! k))"
proof -
  have "concat (map f cs) = concat (map f (take k cs)) @ f (cs ! k) @ concat (map f (drop (Suc k) cs))"
    by (subst id_take_nth_drop [OF assms(2)]) simp
  with assms(3) have "bytes_at m (a + word_of_nat (length (concat (map f (take k cs))))) (f (cs ! k))"
    by (simp add: bytes_at_append)
  moreover have "length (concat (map f (take k cs))) = sz * k"
    using assms(2) by (simp add: length_concat_fixed [OF assms(1)])
  ultimately show ?thesis by simp
qed

section \<open>Instructions\<close>

datatype reg = RAX | RDI | RSI | RDX | R8 | R9 | R10 | R12 | R13 | R14 | R15 | RSP

datatype label = L_cases | L_cases_length | L_new_paths | L_start | L_end

text \<open>\<open>M\<close> has a memory operand (base, index, displacement), \<open>L\<close> a label, \<open>I\<close> an immediate value.\<close>

datatype instr =
    XOR_R reg reg
  | LEA_L reg label
  | JMP label
  | JB label
  | MOV_I reg u64
  | MOV_R reg reg
  | MOV_M reg reg reg u64
  | MOV_L reg label
  | ADD_M reg reg reg u64
  | ADD_I reg u64
  | SUB_I reg u64
  | CMP_R reg reg
  | SYSCALL
  | PUSH reg
  | POP reg
  | INT3
  | LABEL label

record 'w cpu =
  pc :: nat
  rf :: "reg \<Rightarrow> u64"
  carry :: bool
  mem :: "u64 \<Rightarrow> u8"
  os :: 'w

text \<open>The kernel: number, arguments, the memory it may read, and its own state.\<close>

type_synonym 'w kernel = "u64 \<Rightarrow> u64 list \<Rightarrow> (u64 \<Rightarrow> u8) \<Rightarrow> 'w \<Rightarrow> u64 \<times> 'w"

text \<open>How many arguments the calls of the replacers have: \<open>fcntl\<close>, \<open>open\<close>, \<open>lseek\<close>, \<open>dup2\<close>,
  \<open>close\<close>, \<open>munmap\<close>; \<open>mmap\<close> has six.\<close>

definition nargs :: "u64 \<Rightarrow> nat" where
  "nargs nr = (if nr = 0x48 \<or> nr = 2 \<or> nr = 8 then 3 else if nr = 0x21 \<or> nr = 0xB then 2 else if nr = 3 then 1 else 6)"

definition target :: "instr list \<Rightarrow> label \<Rightarrow> nat" where
  "target prog l = length (takeWhile (\<lambda>i. i \<noteq> LABEL l) prog)"

fun exec :: "'w kernel \<Rightarrow> (label \<Rightarrow> u64) \<Rightarrow> instr list \<Rightarrow> instr \<Rightarrow> 'w cpu \<Rightarrow> 'w cpu option" where
  "exec sys at prog (XOR_R d s) m = Some (m\<lparr>pc := pc m + 1, rf := (rf m)(d := rf m d XOR rf m s), carry := False\<rparr>)"
| "exec sys at prog (LEA_L d l) m = Some (m\<lparr>pc := pc m + 1, rf := (rf m)(d := at l)\<rparr>)"
| "exec sys at prog (JMP l) m = Some (m\<lparr>pc := target prog l\<rparr>)"
| "exec sys at prog (JB l) m = Some (m\<lparr>pc := (if carry m then target prog l else pc m + 1)\<rparr>)"
| "exec sys at prog (MOV_I d v) m = Some (m\<lparr>pc := pc m + 1, rf := (rf m)(d := v)\<rparr>)"
| "exec sys at prog (MOV_R d s) m = Some (m\<lparr>pc := pc m + 1, rf := (rf m)(d := rf m s)\<rparr>)"
| "exec sys at prog (MOV_M d b i v) m = Some (m\<lparr>pc := pc m + 1, rf := (rf m)(d := load64 (mem m) (rf m b + rf m i + v))\<rparr>)"
| "exec sys at prog (MOV_L d l) m = Some (m\<lparr>pc := pc m + 1, rf := (rf m)(d := load64 (mem m) (at l))\<rparr>)"
| "exec sys at prog (ADD_M d b i v) m =
     (let x = load64 (mem m) (rf m b + rf m i + v) in
      Some (m\<lparr>pc := pc m + 1, rf := (rf m)(d := rf m d + x), carry := (rf m d + x < x)\<rparr>))"
| "exec sys at prog (ADD_I d v) m = Some (m\<lparr>pc := pc m + 1, rf := (rf m)(d := rf m d + v), carry := (rf m d + v < v)\<rparr>)"
| "exec sys at prog (SUB_I d v) m = Some (m\<lparr>pc := pc m + 1, rf := (rf m)(d := rf m d - v), carry := (rf m d < v)\<rparr>)"
| "exec sys at prog (CMP_R a b) m = Some (m\<lparr>pc := pc m + 1, carry := (rf m a < rf m b)\<rparr>)"
| "exec sys at prog SYSCALL m =
     (let r = sys (rf m RAX) (take (nargs (rf m RAX)) (map (rf m) [RDI, RSI, RDX, R10, R8, R9])) (mem m) (os m) in
      Some (m\<lparr>pc := pc m + 1, rf := (rf m)(RAX := fst r), os := snd r\<rparr>))"
| "exec sys at prog (PUSH s) m =
     Some (m\<lparr>pc := pc m + 1, rf := (rf m)(RSP := rf m RSP - 8), mem := store64 (rf m RSP - 8) (rf m s) (mem m)\<rparr>)"
| "exec sys at prog (POP d) m =
     Some (m\<lparr>pc := pc m + 1, rf := (rf m)(RSP := rf m RSP + 8, d := load64 (mem m) (rf m RSP))\<rparr>)"
| "exec sys at prog INT3 m = None"
| "exec sys at prog (LABEL l) m = Some (m\<lparr>pc := pc m + 1\<rparr>)"

definition step :: "'w kernel \<Rightarrow> (label \<Rightarrow> u64) \<Rightarrow> instr list \<Rightarrow> 'w cpu \<Rightarrow> 'w cpu option" where
  "step sys at prog m = (if pc m < length prog then exec sys at prog (prog ! pc m) m else None)"

fun steps :: "'w kernel \<Rightarrow> (label \<Rightarrow> u64) \<Rightarrow> instr list \<Rightarrow> nat \<Rightarrow> 'w cpu \<Rightarrow> 'w cpu option" where
  "steps sys at prog 0 m = Some m"
| "steps sys at prog (Suc n) m = Option.bind (step sys at prog m) (steps sys at prog n)"

lemma steps_numeral:
  "steps sys at prog (numeral k) m = Option.bind (step sys at prog m) (steps sys at prog (pred_numeral k))"
  by (simp add: numeral_eq_Suc)

lemma steps_add:
  "steps sys at prog (n + k) m = Option.bind (steps sys at prog n m) (steps sys at prog k)"
proof (induction n arbitrary: m)
  case (Suc n)
  then show ?case by (cases "step sys at prog m") simp_all
qed simp

definition reaches :: "'w kernel \<Rightarrow> (label \<Rightarrow> u64) \<Rightarrow> instr list \<Rightarrow> 'w cpu \<Rightarrow> 'w cpu \<Rightarrow> bool" where
  "reaches sys at prog m m' \<longleftrightarrow> (\<exists>n. steps sys at prog n m = Some m')"

lemma reaches_refl: "reaches sys at prog m m"
  unfolding reaches_def by (intro exI [of _ 0]) simp

lemma reaches_trans:
  "reaches sys at prog m m' \<Longrightarrow> reaches sys at prog m' m'' \<Longrightarrow> reaches sys at prog m m''"
  unfolding reaches_def by (elim exE) (rule_tac x = "n + na" in exI, simp add: steps_add)

lemma reaches_steps: "steps sys at prog n m = Some m' \<Longrightarrow> reaches sys at prog m m'"
  unfolding reaches_def by blast

text \<open>The code stops in front of the trap instruction, which hands control back to the tracer.\<close>

definition trapped :: "instr list \<Rightarrow> 'w cpu \<Rightarrow> bool" where
  "trapped prog m \<longleftrightarrow> pc m < length prog \<and> prog ! pc m = INT3"

end
