(* ===== verification/Mmap_Code.thy ===== *)
theory Mmap_Code
  imports Machine
begin

text \<open>
  The code \<open>ProcessAccessor::run\<close> of \<open>src/replacer/mmap_replacer.rs\<close> runs inside the traced process: for
  each mapping of a file below the directory it unmaps the range, opens the new path and maps it
  again. It keeps the descriptor on the stack of the process.
\<close>

section \<open>Data and code\<close>

record RawReplaceCase =
  raw_memory_addr :: u64
  raw_length :: u64
  raw_prot :: u64
  raw_flags :: u64
  raw_new_path_offset :: u64
  raw_offset :: u64

definition RawReplaceCase_bytes :: "RawReplaceCase \<Rightarrow> u8 list" where
  "RawReplaceCase_bytes c =
     le_bytes 8 (raw_memory_addr c) @ le_bytes 8 (raw_length c) @ le_bytes 8 (raw_prot c) @
     le_bytes 8 (raw_flags c) @ le_bytes 8 (raw_new_path_offset c) @ le_bytes 8 (raw_offset c)"

definition RawReplaceCase_size :: nat where "RawReplaceCase_size = 48"

definition mmap_data :: "RawReplaceCase list \<Rightarrow> u8 list \<Rightarrow> u8 list" where
  "mmap_data cases new_paths =
     (let bytes = concat (map RawReplaceCase_bytes cases) in
      bytes @ le_bytes 8 (word_of_nat (length bytes)) @ new_paths @ [0x90, 0x90])"

definition mmap_labels :: "RawReplaceCase list \<Rightarrow> u64 \<Rightarrow> label \<Rightarrow> u64" where
  "mmap_labels cases addr l =
     (let n = word_of_nat (length (concat (map RawReplaceCase_bytes cases))) in
      case l of L_cases \<Rightarrow> addr | L_cases_length \<Rightarrow> addr + n | L_new_paths \<Rightarrow> addr + n + 8 | _ \<Rightarrow> 0)"

definition O_RDWR :: u64 where "O_RDWR = 2"

definition mmap_code :: "instr list" where
  "mmap_code =
     [XOR_R R15 R15,
      LEA_L R14 L_cases,
      JMP L_end,
      LABEL L_start,
      \<comment> \<open>munmap\<close>
      MOV_I RAX 0x0B,
      MOV_M RDI R14 R15 0,
      MOV_M RSI R14 R15 8,
      MOV_I RDX 0x0,
      SYSCALL,
      \<comment> \<open>open\<close>
      MOV_I RAX 0x2,
      LEA_L RDI L_new_paths,
      ADD_I R15 (8 * 4),
      ADD_M RDI R14 R15 0,
      SUB_I R15 (8 * 4),
      MOV_I RSI O_RDWR,
      MOV_I RDX 0x0,
      SYSCALL,
      PUSH RAX,
      MOV_R R8 RAX,
      \<comment> \<open>mmap\<close>
      MOV_I RAX 0x9,
      ADD_I R15 8,
      MOV_M RSI R14 R15 0,
      ADD_I R15 8,
      MOV_M RDX R14 R15 0,
      ADD_I R15 8,
      MOV_M R10 R14 R15 0,
      ADD_I R15 16,
      MOV_M R9 R14 R15 0,
      SYSCALL,
      SUB_I R15 (8 * 5),
      \<comment> \<open>close\<close>
      MOV_I RAX 0x3,
      POP RDI,
      SYSCALL,
      ADD_I R15 (word_of_nat RawReplaceCase_size),
      LABEL L_end,
      MOV_L R13 L_cases_length,
      CMP_R R15 R13,
      JB L_start,
      INT3]"

section \<open>What the code does\<close>

text \<open>
  The calls for one mapping. The first argument of \<open>mmap\<close> is still the path that was passed to
  \<open>open\<close>: the code never loads the old address of the mapping again.
\<close>

definition remap :: "'w kernel \<Rightarrow> (u64 \<Rightarrow> u8) \<Rightarrow> RawReplaceCase \<Rightarrow> u64 \<Rightarrow> 'w \<Rightarrow> 'w" where
  "remap sys m c path w =
     (let (_, w) = sys 0xB [raw_memory_addr c, raw_length c] m w;
          (fd, w) = sys 2 [path, O_RDWR, 0] m w;
          (_, w) = sys 9 [path, raw_length c, raw_prot c, raw_flags c, fd, raw_offset c] m w;
          (_, w) = sys 3 [fd] m w
      in w)"

text \<open>What stands in memory at a table entry.\<close>

definition entry_at :: "(u64 \<Rightarrow> u8) \<Rightarrow> u64 \<Rightarrow> RawReplaceCase \<Rightarrow> bool" where
  "entry_at m a c \<longleftrightarrow> load64 m a = raw_memory_addr c \<and> load64 m (a + 8) = raw_length c \<and>
     load64 m (a + 16) = raw_prot c \<and> load64 m (a + 24) = raw_flags c \<and>
     load64 m (a + 32) = raw_new_path_offset c \<and> load64 m (a + 40) = raw_offset c"

lemma load_store64: "load64 (store64 a v m) a = v"
proof -
  have "unat (a + word_of_nat i - a) = i" "a + word_of_nat i - a < 8" if "i < 8" for i
    using that by (simp_all add: word_less_nat_alt unat_of_nat)
  then have "map (\<lambda>i. store64 a v m (a + word_of_nat i)) [0..<8] = le_bytes 8 v"
    by (intro nth_equalityI) (simp_all add: store64_def)
  then show ?thesis by (simp add: load64_def)
qed

lemma mmap_to_push:
  assumes "pc m = 3" and "entry_at (mem m) (rf m R14 + rf m R15) c"
  shows "\<exists>m'. steps sys at mmap_code 15 m = Some m' \<and> pc m' = 18 \<and> rf m' R14 = rf m R14 \<and> rf m' R15 = rf m R15 \<and>
    rf m' RSP = rf m RSP - 8 \<and> rf m' RDI = at L_new_paths + raw_new_path_offset c \<and>
    (let w = snd (sys 0xB [raw_memory_addr c, raw_length c] (mem m) (os m));
         r = sys 2 [at L_new_paths + raw_new_path_offset c, O_RDWR, 0] (mem m) w in
     rf m' RAX = fst r \<and> os m' = snd r \<and> mem m' = store64 (rf m RSP - 8) (fst r) (mem m))"
  using assms
  by (simp add: steps_numeral step_def mmap_code_def Let_def nargs_def entry_at_def add.assoc)

lemma mmap_from_push:
  assumes "pc m = 18" and "entry_at (mem m) (rf m R14 + rf m R15) c" and "load64 (mem m) (rf m RSP) = rf m RAX"
  shows "\<exists>m'. steps sys at mmap_code 16 m = Some m' \<and> pc m' = 34 \<and> rf m' R14 = rf m R14 \<and> rf m' R15 = rf m R15 + 48 \<and>
    rf m' RSP = rf m RSP + 8 \<and> mem m' = mem m \<and>
    (let w = snd (sys 9 [rf m RDI, raw_length c, raw_prot c, raw_flags c, rf m RAX, raw_offset c] (mem m) (os m)) in
     os m' = snd (sys 3 [rf m RAX] (mem m) w))"
  using assms
  by (simp add: steps_numeral step_def mmap_code_def Let_def nargs_def entry_at_def RawReplaceCase_size_def add.assoc)

lemma mmap_test:
  assumes "pc m = 34"
  shows "\<exists>m'. steps sys at mmap_code 4 m = Some m' \<and>
    pc m' = (if rf m R15 < load64 (mem m) (at L_cases_length) then 3 else 38) \<and>
    rf m' R14 = rf m R14 \<and> rf m' R15 = rf m R15 \<and> rf m' RSP = rf m RSP \<and> mem m' = mem m \<and> os m' = os m"
  using assms by (simp add: steps_numeral step_def mmap_code_def target_def)

lemma mmap_start:
  assumes "pc m = 0"
  shows "\<exists>m'. steps sys at mmap_code 3 m = Some m' \<and> pc m' = 34 \<and> rf m' R14 = at L_cases \<and> rf m' R15 = 0 \<and>
    rf m' RSP = rf m RSP \<and> mem m' = mem m \<and> os m' = os m"
  using assms by (simp add: steps_numeral step_def mmap_code_def target_def)

section \<open>The loop\<close>

lemma RawReplaceCase_bytes_length: "length (RawReplaceCase_bytes c) = 48"
  by (simp add: RawReplaceCase_bytes_def)

lemmas mmap_concat = length_concat_fixed [OF RawReplaceCase_bytes_length]

lemma mmap_loads:
  assumes "bytes_at m addr (mmap_data cases new_paths)"
  shows "load64 m (mmap_labels cases addr L_cases_length) = word_of_nat (48 * length cases)"
    and "k < length cases \<Longrightarrow> entry_at m (addr + word_of_nat (48 * k)) (cases ! k)"
    and "bytes_at m (mmap_labels cases addr L_new_paths) new_paths"
proof -
  have b: "bytes_at m addr (concat (map RawReplaceCase_bytes cases))"
    "bytes_at m (addr + word_of_nat (48 * length cases)) (le_bytes 8 (word_of_nat (48 * length cases)))"
    "bytes_at m (addr + word_of_nat (48 * length cases) + 8) new_paths"
    using assms by (simp_all add: mmap_data_def Let_def bytes_at_append mmap_concat add.assoc)
  from b(2,3) show "load64 m (mmap_labels cases addr L_cases_length) = word_of_nat (48 * length cases)"
    "bytes_at m (mmap_labels cases addr L_new_paths) new_paths"
    by (simp_all add: mmap_labels_def Let_def mmap_concat bytes_at_load64)
  assume "k < length cases"
  from bytes_at_entry [OF RawReplaceCase_bytes_length this b(1)]
  show "entry_at m (addr + word_of_nat (48 * k)) (cases ! k)"
    by (simp add: RawReplaceCase_bytes_def bytes_at_append entry_at_def bytes_at_load64 ac_simps)
qed

text \<open>The word below the stack pointer lies outside the data of the code.\<close>

definition stack_apart :: "u64 \<Rightarrow> u64 \<Rightarrow> u8 list \<Rightarrow> bool" where
  "stack_apart sp addr img \<longleftrightarrow> (\<forall>i < length img. \<not> addr + word_of_nat i - (sp - 8) < 8)"

lemma bytes_at_push: "stack_apart sp addr img \<Longrightarrow> bytes_at m addr img \<Longrightarrow> bytes_at (store64 (sp - 8) v m) addr img"
  by (simp add: stack_apart_def bytes_at_def store64_def)

text \<open>
  What \<open>munmap\<close>, \<open>mmap\<close> and \<open>close\<close> do does not depend on the memory of the caller; \<open>open\<close> reads the
  path up to its zero.
\<close>

definition kernel_reads :: "'w kernel \<Rightarrow> bool" where
  "kernel_reads sys \<longleftrightarrow>
     (\<forall>nr args m m' w. nr = 0xB \<or> nr = 9 \<or> nr = 3 \<longrightarrow> sys nr args m w = sys nr args m' w) \<and>
     (\<forall>p flags mode s m m' w. bytes_at m p (s @ [0]) \<longrightarrow> bytes_at m' p (s @ [0]) \<longrightarrow>
        sys 2 [p, flags, mode] m w = sys 2 [p, flags, mode] m' w)"

lemma kernel_reads_calls:
  assumes "kernel_reads sys"
  shows "sys 0xB args m w = sys 0xB args m' w" and "sys 9 args m w = sys 9 args m' w" and "sys 3 args m w = sys 3 args m' w"
  using assms [unfolded kernel_reads_def, THEN conjunct1, rule_format, of _ args m w m'] by simp_all

lemma kernel_reads_open:
  assumes "kernel_reads sys" and "bytes_at m p (s @ [0])" and "bytes_at m' p (s @ [0])"
  shows "sys 2 [p, flags, mode] m w = sys 2 [p, flags, mode] m' w"
  using assms(1) [unfolded kernel_reads_def, THEN conjunct2, rule_format, OF assms(2,3)] .

text \<open>A case points at a path that ends within the data.\<close>

definition path_within :: "u64 \<Rightarrow> u8 list \<Rightarrow> u64 \<Rightarrow> bool" where
  "path_within addr img p \<longleftrightarrow> (\<exists>s. \<forall>m. bytes_at m addr img \<longrightarrow> bytes_at m p (s @ [0]))"

definition remap_all :: "'w kernel \<Rightarrow> (u64 \<Rightarrow> u8) \<Rightarrow> u64 \<Rightarrow> RawReplaceCase list \<Rightarrow> 'w \<Rightarrow> 'w" where
  "remap_all sys m base cases w = fold (\<lambda>c. remap sys m c (base + raw_new_path_offset c)) cases w"

lemma mmap_body:
  assumes "pc m = 3" and "entry_at (mem m) (rf m R14 + rf m R15) c" and "bytes_at (mem m) addr img"
    and "stack_apart (rf m RSP) addr img" and "kernel_reads sys" and "bytes_at m0 addr img"
    and "\<And>m'. bytes_at m' addr img \<Longrightarrow> entry_at m' (rf m R14 + rf m R15) c"
    and "path_within addr img (at L_new_paths + raw_new_path_offset c)"
  shows "\<exists>m'. reaches sys at mmap_code m m' \<and> pc m' = 34 \<and> rf m' R14 = rf m R14 \<and> rf m' R15 = rf m R15 + 48 \<and>
    rf m' RSP = rf m RSP \<and> bytes_at (mem m') addr img \<and>
    os m' = remap sys m0 c (at L_new_paths + raw_new_path_offset c) (os m)"
proof -
  obtain m1 where s1: "steps sys at mmap_code 15 m = Some m1" and m1: "pc m1 = 18" "rf m1 R14 = rf m R14" "rf m1 R15 = rf m R15"
      "rf m1 RSP = rf m RSP - 8" "rf m1 RDI = at L_new_paths + raw_new_path_offset c"
      "(rf m1 RAX, os m1) = sys 2 [at L_new_paths + raw_new_path_offset c, O_RDWR, 0] (mem m)
         (snd (sys 0xB [raw_memory_addr c, raw_length c] (mem m) (os m)))"
      "mem m1 = store64 (rf m RSP - 8) (rf m1 RAX) (mem m)"
    using mmap_to_push [OF assms(1,2), of sys at] by (auto simp: Let_def)
  have b1: "bytes_at (mem m1) addr img" using bytes_at_push [OF assms(4,3)] m1 by simp
  obtain m2 where s2: "steps sys at mmap_code 16 m1 = Some m2" and m2: "pc m2 = 34" "rf m2 R14 = rf m R14"
      "rf m2 R15 = rf m R15 + 48" "rf m2 RSP = rf m RSP" "mem m2 = mem m1"
      "os m2 = snd (sys 3 [rf m1 RAX] (mem m1) (snd (sys 9 [rf m1 RDI, raw_length c, raw_prot c, raw_flags c,
         rf m1 RAX, raw_offset c] (mem m1) (os m1))))"
    using mmap_from_push [OF m1(1), of c sys at] assms(7) [OF b1] m1 load_store64 by (auto simp: Let_def)
  let ?p = "at L_new_paths + raw_new_path_offset c"
  have k: "sys 0xB args (mem m) w = sys 0xB args m0 w" "sys 9 args (mem m1) w = sys 9 args m0 w"
    "sys 3 args (mem m1) w = sys 3 args m0 w" "sys 2 [?p, O_RDWR, 0] (mem m) w = sys 2 [?p, O_RDWR, 0] m0 w" for args w
    using assms(3,6,8) kernel_reads_calls [OF assms(5)] kernel_reads_open [OF assms(5)]
    unfolding path_within_def by metis+
  have "os m2 = remap sys m0 c (at L_new_paths + raw_new_path_offset c) (os m)"
    using m2(6) m1(5,6) by (simp add: k remap_def split_def prod_eq_iff Let_def)
  with m2 b1 reaches_trans [OF reaches_steps [OF s1] reaches_steps [OF s2]] show ?thesis by auto
qed

lemma mmap_loop:
  assumes "bytes_at (mem m) addr (mmap_data cases new_paths)" and "48 * length cases < 2 ^ 64"
    and "stack_apart (rf m RSP) addr (mmap_data cases new_paths)" and "kernel_reads sys"
    and "\<forall>c \<in> set cases. path_within addr (mmap_data cases new_paths) (mmap_labels cases addr L_new_paths + raw_new_path_offset c)"
    and "bytes_at m0 addr (mmap_data cases new_paths)"
    and "pc m = 34" and "rf m R14 = addr" and "rf m R15 = word_of_nat (48 * k)" and "k \<le> length cases"
  shows "\<exists>m'. reaches sys (mmap_labels cases addr) mmap_code m m' \<and> trapped mmap_code m' \<and>
    os m' = remap_all sys m0 (mmap_labels cases addr L_new_paths) (drop k cases) (os m)"
  using assms
proof (induction "length cases - k" arbitrary: k m)
  case 0
  let ?at = "mmap_labels cases addr"
  obtain m' where s: "steps sys ?at mmap_code 4 m = Some m'" and pc: "pc m' =
      (if rf m R15 < load64 (mem m) (?at L_cases_length) then 3 else 38)" and "os m' = os m"
    using mmap_test [OF 0(8)] by blast
  moreover have "k = length cases" using 0 by simp
  ultimately show ?case
    using 0 reaches_steps [OF s]
    by (intro exI [of _ m']) (simp add: mmap_loads trapped_def mmap_code_def remap_all_def)
next
  case (Suc n)
  let ?at = "mmap_labels cases addr" and ?img = "mmap_data cases new_paths"
  have k: "k < length cases" using Suc(2) by simp
  have "(word_of_nat (48 * k) :: u64) < word_of_nat (48 * length cases)"
    using k Suc(4) by (intro word_of_nat_less_u64) simp_all
  then obtain m1 where s1: "steps sys ?at mmap_code 4 m = Some m1" and m1: "pc m1 = 3" "rf m1 R14 = addr"
      "rf m1 R15 = word_of_nat (48 * k)" "rf m1 RSP = rf m RSP" "mem m1 = mem m" "os m1 = os m"
    using mmap_test [OF Suc(9), of sys ?at] Suc(3,10,11) by (auto simp: mmap_loads)
  let ?c = "cases ! k"
  obtain m2 where s2: "reaches sys ?at mmap_code m1 m2" and m2: "pc m2 = 34" "rf m2 R14 = addr"
      "rf m2 R15 = word_of_nat (48 * k) + 48" "rf m2 RSP = rf m RSP" "bytes_at (mem m2) addr ?img"
      "os m2 = remap sys m0 ?c (?at L_new_paths + raw_new_path_offset ?c) (os m)"
    using mmap_body [OF m1(1), of ?c addr ?img sys m0 ?at] m1 mmap_loads(2) [OF _ k] Suc(3,5,6,8) Suc(7) [rule_format, OF nth_mem [OF k]] by auto
  have "rf m2 R15 = word_of_nat (48 * Suc k)" using m2(3) by (simp add: algebra_simps)
  moreover have "n = length cases - Suc k" using Suc(2) by simp
  ultimately obtain m' where "reaches sys ?at mmap_code m2 m'" "trapped mmap_code m'"
      "os m' = remap_all sys m0 (?at L_new_paths) (drop (Suc k) cases) (os m2)"
    using Suc(1) [of "Suc k" m2] Suc(4-8) m2 k by auto
  moreover have "drop k cases = ?c # drop (Suc k) cases" using k by (simp add: Cons_nth_drop_Suc)
  ultimately show ?case
    using reaches_trans [OF reaches_steps [OF s1] reaches_trans [OF s2]] m2(6)
    by (auto simp: remap_all_def)
qed

end
