(* ===== verification/Fd_Code.thy ===== *)
theory Fd_Code
  imports Machine
begin

text \<open>
  The code \<open>ProcessAccessor::run\<close> of \<open>src/replacer/fd_replacer.rs\<close> runs inside the traced process: for
  each case it opens the new path with the flags of the old descriptor, moves to the same offset
  and puts the new file in the place of the old descriptor.
\<close>

section \<open>Data and code\<close>

record FdCase =
  case_fd :: u64
  case_new_path_offset :: u64

text \<open>\<open>repr(packed)\<close>, \<open>repr(C)\<close>: the two words one after the other.\<close>

definition FdCase_bytes :: "FdCase \<Rightarrow> u8 list" where
  "FdCase_bytes c = le_bytes 8 (case_fd c) @ le_bytes 8 (case_new_path_offset c)"

definition FdCase_size :: nat where "FdCase_size = 16"

text \<open>The bytes before the code: the cases, their length in bytes, the paths and two \<open>nop\<close>.\<close>

definition fd_data :: "FdCase list \<Rightarrow> u8 list \<Rightarrow> u8 list" where
  "fd_data cases new_paths =
     (let bytes = concat (map FdCase_bytes cases) in
      bytes @ le_bytes 8 (word_of_nat (length bytes)) @ new_paths @ [0x90, 0x90])"

definition fd_labels :: "FdCase list \<Rightarrow> u64 \<Rightarrow> label \<Rightarrow> u64" where
  "fd_labels cases addr l =
     (let n = word_of_nat (length (concat (map FdCase_bytes cases))) in
      case l of L_cases \<Rightarrow> addr | L_cases_length \<Rightarrow> addr + n | L_new_paths \<Rightarrow> addr + n + 8 | _ \<Rightarrow> 0)"

definition SEEK_SET :: u64 where "SEEK_SET = 0"
definition SEEK_CUR :: u64 where "SEEK_CUR = 1"

definition fd_code :: "instr list" where
  "fd_code =
     [XOR_R R15 R15,
      LEA_L R14 L_cases,
      JMP L_end,
      LABEL L_start,
      \<comment> \<open>fcntl\<close>
      MOV_I RAX 0x48,
      MOV_M RDI R14 R15 0,
      MOV_I RSI 0x3,
      MOV_I RDX 0x0,
      SYSCALL,
      MOV_R RSI RAX,
      \<comment> \<open>open\<close>
      MOV_I RAX 0x2,
      LEA_L RDI L_new_paths,
      ADD_M RDI R14 R15 8,
      MOV_I RDX 0x0,
      SYSCALL,
      MOV_R R12 RAX,
      \<comment> \<open>lseek\<close>
      MOV_I RAX 0x8,
      MOV_M RDI R14 R15 0,
      MOV_I RSI 0,
      MOV_I RDX SEEK_CUR,
      SYSCALL,
      MOV_R RDI R12,
      MOV_R RSI RAX,
      \<comment> \<open>lseek\<close>
      MOV_I RAX 0x8,
      MOV_I RDX SEEK_SET,
      SYSCALL,
      \<comment> \<open>dup2\<close>
      MOV_I RAX 0x21,
      MOV_R RDI R12,
      MOV_M RSI R14 R15 0,
      SYSCALL,
      \<comment> \<open>close\<close>
      MOV_I RAX 0x3,
      MOV_R RDI R12,
      SYSCALL,
      ADD_I R15 (word_of_nat FdCase_size),
      LABEL L_end,
      MOV_L R13 L_cases_length,
      CMP_R R15 R13,
      JB L_start,
      INT3]"

section \<open>What the code does\<close>

text \<open>The calls for one descriptor, on the memory \<open>m\<close> that holds the path.\<close>

definition reopen :: "'w kernel \<Rightarrow> (u64 \<Rightarrow> u8) \<Rightarrow> u64 \<Rightarrow> u64 \<Rightarrow> 'w \<Rightarrow> 'w" where
  "reopen sys m fd path w =
     (let (flags, w) = sys 0x48 [fd, 3, 0] m w;
          (new, w) = sys 2 [path, flags, 0] m w;
          (off, w) = sys 8 [fd, 0, SEEK_CUR] m w;
          (_, w) = sys 8 [new, off, SEEK_SET] m w;
          (_, w) = sys 0x21 [new, fd] m w;
          (_, w) = sys 3 [new] m w
      in w)"

lemma fd_targets: "target fd_code L_start = 3" "target fd_code L_end = 34"
  by (simp_all add: target_def fd_code_def)

lemma fd_body:
  assumes "pc m = 3" and "load64 (mem m) (rf m R14 + rf m R15) = fd" and "load64 (mem m) (rf m R14 + rf m R15 + 8) = off"
  shows "\<exists>m'. steps sys at fd_code 31 m = Some m' \<and> pc m' = 34 \<and> rf m' R14 = rf m R14 \<and> rf m' R15 = rf m R15 + 16 \<and>
    mem m' = mem m \<and> os m' = reopen sys (mem m) fd (at L_new_paths + off) (os m)"
  using assms
  by (simp add: steps_numeral step_def fd_code_def Let_def nargs_def FdCase_size_def reopen_def split_def)

lemma fd_test:
  assumes "pc m = 34"
  shows "\<exists>m'. steps sys at fd_code 4 m = Some m' \<and>
    pc m' = (if rf m R15 < load64 (mem m) (at L_cases_length) then 3 else 38) \<and>
    rf m' R14 = rf m R14 \<and> rf m' R15 = rf m R15 \<and> mem m' = mem m \<and> os m' = os m"
  using assms by (simp add: steps_numeral step_def fd_code_def fd_targets [unfolded fd_code_def])

lemma fd_start:
  assumes "pc m = 0"
  shows "\<exists>m'. steps sys at fd_code 3 m = Some m' \<and> pc m' = 34 \<and> rf m' R14 = at L_cases \<and> rf m' R15 = 0 \<and>
    mem m' = mem m \<and> os m' = os m"
  using assms by (simp add: steps_numeral step_def fd_code_def fd_targets [unfolded fd_code_def])

lemma FdCase_bytes_length: "length (FdCase_bytes c) = 16"
  by (simp add: FdCase_bytes_def)

lemmas fd_concat = length_concat_fixed [OF FdCase_bytes_length]

text \<open>The words the code reads.\<close>

lemma fd_loads:
  assumes "bytes_at m addr (fd_data cases new_paths)"
  shows "load64 m (fd_labels cases addr L_cases_length) = word_of_nat (16 * length cases)"
    and "k < length cases \<Longrightarrow> load64 m (addr + word_of_nat (16 * k)) = case_fd (cases ! k)"
    and "k < length cases \<Longrightarrow> load64 m (addr + word_of_nat (16 * k) + 8) = case_new_path_offset (cases ! k)"
    and "bytes_at m (fd_labels cases addr L_new_paths) new_paths"
proof -
  have b: "bytes_at m addr (concat (map FdCase_bytes cases))"
    "bytes_at m (addr + word_of_nat (16 * length cases)) (le_bytes 8 (word_of_nat (16 * length cases)))"
    "bytes_at m (addr + word_of_nat (16 * length cases) + 8) new_paths"
    using assms by (simp_all add: fd_data_def Let_def bytes_at_append fd_concat add.assoc)
  from b(2,3) show "load64 m (fd_labels cases addr L_cases_length) = word_of_nat (16 * length cases)"
    "bytes_at m (fd_labels cases addr L_new_paths) new_paths"
    by (simp_all add: fd_labels_def Let_def fd_concat bytes_at_load64)
  assume "k < length cases"
  from bytes_at_entry [OF FdCase_bytes_length this b(1)]
  show "load64 m (addr + word_of_nat (16 * k)) = case_fd (cases ! k)"
    "load64 m (addr + word_of_nat (16 * k) + 8) = case_new_path_offset (cases ! k)"
    by (simp_all add: FdCase_bytes_def bytes_at_append bytes_at_load64)
qed

text \<open>The reference: the descriptors are replaced one after the other.\<close>

definition reopen_all :: "'w kernel \<Rightarrow> (u64 \<Rightarrow> u8) \<Rightarrow> u64 \<Rightarrow> FdCase list \<Rightarrow> 'w \<Rightarrow> 'w" where
  "reopen_all sys m base cases w = fold (\<lambda>c. reopen sys m (case_fd c) (base + case_new_path_offset c)) cases w"

lemma fd_loop:
  assumes "bytes_at (mem m) addr (fd_data cases new_paths)" and "16 * length cases < 2 ^ 64"
    and "pc m = 34" and "rf m R14 = addr" and "rf m R15 = word_of_nat (16 * k)" and "k \<le> length cases"
  shows "\<exists>m'. reaches sys (fd_labels cases addr) fd_code m m' \<and> trapped fd_code m' \<and>
    os m' = reopen_all sys (mem m) (fd_labels cases addr L_new_paths) (drop k cases) (os m)"
  using assms
proof (induction "length cases - k" arbitrary: k m)
  case 0
  let ?at = "fd_labels cases addr"
  obtain m' where s: "steps sys ?at fd_code 4 m = Some m'" and pc: "pc m' =
      (if rf m R15 < load64 (mem m) (?at L_cases_length) then 3 else 38)" and "os m' = os m"
    using fd_test [OF 0(4)] by blast
  moreover have "k = length cases" using 0 by simp
  ultimately show ?case
    using 0 reaches_steps [OF s]
    by (intro exI [of _ m']) (simp add: fd_loads trapped_def fd_code_def reopen_all_def)
next
  case (Suc n)
  let ?at = "fd_labels cases addr"
  have k: "k < length cases" using Suc(2) by simp
  have "(word_of_nat (16 * k) :: u64) < word_of_nat (16 * length cases)"
    using k Suc(4) by (intro word_of_nat_less_u64) simp_all
  then obtain m1 where s1: "steps sys ?at fd_code 4 m = Some m1" and m1: "pc m1 = 3" "rf m1 R14 = addr"
      "rf m1 R15 = word_of_nat (16 * k)" "mem m1 = mem m" "os m1 = os m"
    using fd_test [OF Suc(5), of sys ?at] Suc(3,6,7) by (auto simp: fd_loads)
  let ?c = "cases ! k"
  obtain m2 where s2: "steps sys ?at fd_code 31 m1 = Some m2" and m2: "pc m2 = 34" "rf m2 R14 = addr"
      "rf m2 R15 = word_of_nat (16 * k) + 16" "mem m2 = mem m"
      "os m2 = reopen sys (mem m) (case_fd ?c) (?at L_new_paths + case_new_path_offset ?c) (os m)"
    using fd_body [OF m1(1), of "case_fd ?c" "case_new_path_offset ?c" sys ?at] m1 fd_loads(2,3) [OF Suc(3) k] by auto
  have "rf m2 R15 = word_of_nat (16 * Suc k)" using m2(3) by (simp add: algebra_simps)
  moreover have "n = length cases - Suc k" using Suc(2) by simp
  ultimately obtain m' where "reaches sys ?at fd_code m2 m'" "trapped fd_code m'"
      "os m' = reopen_all sys (mem m) (?at L_new_paths) (drop (Suc k) cases) (os m2)"
    using Suc(1) [of "Suc k" m2] Suc(3,4) m2 k by auto
  moreover have "drop k cases = ?c # drop (Suc k) cases" using k by (simp add: Cons_nth_drop_Suc)
  ultimately show ?case
    using reaches_trans [OF reaches_steps [OF s1] reaches_trans [OF reaches_steps [OF s2]]] m2(5)
    by (auto simp: reopen_all_def)
qed

end
