(* ===== verification/Accessors.thy ===== *)
theory Accessors
  imports Machine "HOL-Library.Sublist"
begin

text \<open>
  The builders of \<open>src/replacer/fd_replacer.rs\<close> and \<open>src/replacer/mmap_replacer.rs\<close>, which collect the
  cases of one process and the paths they refer to in one buffer. Both have the same shape, so
  what they promise to the injected code is a locale with the two builders as its instances.
\<close>

section \<open>Cursors\<close>

text \<open>\<open>std::io::Cursor\<close> over a vector: writing overwrites from the position on and extends the end.\<close>

record cursor =
  cur_pos :: nat
  cur_buf :: "u8 list"

definition Cursor_new :: "u8 list \<Rightarrow> cursor" where
  "Cursor_new buf = \<lparr>cur_pos = 0, cur_buf = buf\<rparr>"

definition Cursor_write_all :: "u8 list \<Rightarrow> cursor \<Rightarrow> cursor" where
  "Cursor_write_all bytes c =
     (let buf = cur_buf c @ replicate (cur_pos c - length (cur_buf c)) 0 in
      \<lparr>cur_pos = cur_pos c + length bytes,
       cur_buf = take (cur_pos c) buf @ bytes @ drop (cur_pos c + length bytes) buf\<rparr>)"

definition Cursor_read_to_end :: "cursor \<Rightarrow> u8 list" where
  "Cursor_read_to_end c = drop (cur_pos c) (cur_buf c)"

lemma write_all_at_end:
  "cur_pos c = length (cur_buf c) \<Longrightarrow>
   Cursor_write_all bytes c = \<lparr>cur_pos = length (cur_buf c @ bytes), cur_buf = cur_buf c @ bytes\<rparr>"
  by (simp add: Cursor_write_all_def Let_def)

section \<open>What the builders promise\<close>

record 'c ProcessAccessorBuilder =
  bld_cases :: "'c list"
  bld_new_paths :: cursor

definition ProcessAccessorBuilder_new :: "'c ProcessAccessorBuilder" where
  "ProcessAccessorBuilder_new = \<lparr>bld_cases = [], bld_new_paths = Cursor_new []\<rparr>"

text \<open>
  \<open>push\<close> adds one item: it fails without effect on a path that is not UTF-8, and otherwise adds the
  entry with the position the path starts at and the path with a terminating zero.
\<close>

locale accessor_builder =
  fixes push :: "'i \<Rightarrow> 'c ProcessAccessorBuilder \<Rightarrow> bool \<times> 'c ProcessAccessorBuilder"
    and path_of :: "'i \<Rightarrow> path"
    and entry :: "'i \<Rightarrow> u64 \<Rightarrow> 'c"
  assumes push_invalid: "to_str (path_of i) = None \<Longrightarrow> push i b = (False, b)"
    and push_valid: "to_str (path_of i) = Some s \<Longrightarrow> push i b =
      (True, \<lparr>bld_cases = bld_cases b @ [entry i (word_of_nat (cur_pos (bld_new_paths b)))],
              bld_new_paths = Cursor_write_all (bytes_of s @ [0]) (bld_new_paths b)\<rparr>)"
begin

text \<open>Every entry, in the order of the items, points at its own path in the buffer.\<close>

definition points :: "u8 list \<Rightarrow> 'i \<Rightarrow> 'c \<Rightarrow> bool" where
  "points buf i c \<longleftrightarrow> (\<exists>off s. to_str (path_of i) = Some s \<and> c = entry i (word_of_nat off) \<and>
     prefix (bytes_of s @ [0]) (drop off buf) \<and> off + length s < length buf)"

definition built :: "'i list \<Rightarrow> 'c ProcessAccessorBuilder \<Rightarrow> bool" where
  "built is b \<longleftrightarrow> cur_pos (bld_new_paths b) = length (cur_buf (bld_new_paths b)) \<and>
     list_all2 (points (cur_buf (bld_new_paths b))) (filter (\<lambda>i. to_str (path_of i) \<noteq> None) is) (bld_cases b)"

lemma points_append: "points buf i c \<Longrightarrow> points (buf @ ys) i c"
proof -
  assume "points buf i c"
  then obtain off s where o: "to_str (path_of i) = Some s" "c = entry i (word_of_nat off)"
    "prefix (bytes_of s @ [0]) (drop off buf)" "off + length s < length buf" unfolding points_def by blast
  moreover from o(3,4) have "prefix (bytes_of s @ [0]) (drop off (buf @ ys))" by (simp add: prefix_prefix)
  ultimately show ?thesis unfolding points_def by (intro exI [of _ off] exI [of _ s]) simp
qed

lemma built_push: "built is b \<Longrightarrow> built (is @ [i]) (snd (push i b))"
proof -
  assume b: "built is b"
  show ?thesis
  proof (cases "to_str (path_of i)")
    case None
    with b show ?thesis by (simp add: push_invalid built_def)
  next
    case (Some s)
    let ?buf = "cur_buf (bld_new_paths b)"
    have "points (?buf @ bytes_of s @ [0]) i (entry i (word_of_nat (length ?buf)))"
      unfolding points_def using Some by (intro exI [of _ "length ?buf"] exI [of _ s]) (simp add: bytes_of_def)
    moreover have "list_all2 (points (?buf @ bytes_of s @ [0])) (filter (\<lambda>i. to_str (path_of i) \<noteq> None) is) (bld_cases b)"
      using b unfolding built_def by (elim conjE) (erule list_all2_mono, erule points_append)
    ultimately show ?thesis
      using b Some by (simp add: built_def push_valid write_all_at_end list_all2_appendI)
  qed
qed

lemma built_collect: "built is (fold (\<lambda>i b. snd (push i b)) is ProcessAccessorBuilder_new)"
  by (induction "is" rule: rev_induct)
     (simp_all add: built_push, simp add: built_def ProcessAccessorBuilder_new_def Cursor_new_def)

end

end
