(* ===== verification/Fd_Replacer.thy ===== *)
theory Fd_Replacer
  imports Fd_Code Accessors
begin

text \<open>
  \<open>src/replacer/fd_replacer.rs\<close>: choosing the descriptors below a directory, collecting them per
  process, and running the code that reopens them.
\<close>

section \<open>The builder\<close>

definition FdBuilder_push_case ::
  "u64 \<Rightarrow> path \<Rightarrow> FdCase ProcessAccessorBuilder \<Rightarrow> bool \<times> FdCase ProcessAccessorBuilder" where
  "FdBuilder_push_case fd new_path b = (case to_str new_path of
       None \<Rightarrow> (False, b)
     | Some s \<Rightarrow>
         let new_path = bytes_of s @ [0];
             offset = word_of_nat (cur_pos (bld_new_paths b))
         in (True, b\<lparr>bld_new_paths := Cursor_write_all new_path (bld_new_paths b),
                     bld_cases := bld_cases b @ [\<lparr>case_fd = fd, case_new_path_offset = offset\<rparr>]\<rparr>))"

text \<open>\<open>FromIterator\<close>: an item that cannot be pushed is logged and left out.\<close>

definition FdBuilder_from_iter :: "(u64 \<times> path) list \<Rightarrow> FdCase ProcessAccessorBuilder" where
  "FdBuilder_from_iter items =
     fold (\<lambda>(fd, path) b. snd (FdBuilder_push_case fd path b)) items ProcessAccessorBuilder_new"

interpretation fd_builder: accessor_builder "\<lambda>i. FdBuilder_push_case (fst i) (snd i)" snd
  "\<lambda>i off. \<lparr>case_fd = fst i, case_new_path_offset = off\<rparr>"
  by unfold_locales (simp_all add: FdBuilder_push_case_def Let_def)

record ProcessAccessor =
  acc_process :: i32
  acc_cases :: "FdCase list"
  acc_new_paths :: cursor

definition FdBuilder_build :: "FdCase ProcessAccessorBuilder \<Rightarrow> i32 \<Rightarrow> ProcessAccessor" where
  "FdBuilder_build b process =
     \<lparr>acc_process = process, acc_cases = bld_cases b, acc_new_paths = bld_new_paths b\<rparr>"

section \<open>Running the code\<close>

text \<open>
  \<open>dynasm\<close> turns the instructions at an address into bytes, or fails. The offset of the code is
  the length of the data before it.
\<close>

type_synonym assembler = "u64 \<Rightarrow> (label \<Rightarrow> u64) \<Rightarrow> instr list \<Rightarrow> anyhow + u8 list"

definition fd_codes :: "assembler \<Rightarrow> ProcessAccessor \<Rightarrow> u64 \<Rightarrow> anyhow + u64 \<times> u8 list" where
  "fd_codes assemble acc addr =
     (let new_paths = Cursor_read_to_end ((acc_new_paths acc)\<lparr>cur_pos := 0\<rparr>);
          data = fd_data (acc_cases acc) new_paths;
          replace = word_of_nat (length data)
      in case assemble (addr + replace) (fd_labels (acc_cases acc) addr) fd_code of
           Inl e \<Rightarrow> Inl e
         | Inr code \<Rightarrow> Inr (replace, data @ code))"

definition FdAccessor_run :: "assembler \<Rightarrow> 'w tracee_calls \<Rightarrow> ProcessAccessor \<Rightarrow> ('w, unit) traced" where
  "FdAccessor_run assemble K acc = TracedProcess_run_codes K (acc_process acc) (fd_codes assemble acc)"

fun FdReplacer_run :: "assembler \<Rightarrow> 'w tracee_calls \<Rightarrow> ProcessAccessor list \<Rightarrow> ('w, unit) traced" where
  "FdReplacer_run assemble K [] = tr_return ()"
| "FdReplacer_run assemble K (acc # accs) =
     tr_then (FdAccessor_run assemble K acc) (\<lambda>_. FdReplacer_run assemble K accs)"

section \<open>Choosing the descriptors\<close>

datatype FDTarget = FD_Path path | FD_Other

text \<open>The descriptors of one process that lead below \<open>detect_path\<close>, with their new paths.\<close>

definition fd_items :: "path \<Rightarrow> path \<Rightarrow> (i32 \<times> FDTarget) list \<Rightarrow> (u64 \<times> path) list" where
  "fd_items detect_path new_path entries =
     List.map_filter (\<lambda>(fd, path).
         map_option (\<lambda>stripped_path. (fd, join new_path stripped_path)) (strip_prefix path detect_path))
       (filter (\<lambda>(fd, path). starts_with path detect_path)
         (List.map_filter (\<lambda>(fd, target). case target of FD_Path path \<Rightarrow> Some (scast fd, path) | FD_Other \<Rightarrow> None) entries))"

section \<open>Properties\<close>

text \<open>
  C28. The descriptors that are replaced: exactly those that lead to a path below the directory, in
  their order, and each with the path that has the same components below the new directory as
  the old one has below the old.
\<close>

theorem fd_items_moved:
  assumes "has_root detect_path" and "has_root new_path"
  shows "map (\<lambda>(fd, path). (fd, components path)) (fd_items detect_path new_path entries) =
    [(scast fd, components new_path @ drop (length (components detect_path)) (components path)).
       (fd, FD_Path path) \<leftarrow> entries, prefix (components detect_path) (components path)]"
proof (induction entries)
  case Nil
  show ?case by (simp add: fd_items_def)
next
  case (Cons e entries)
  obtain fd target where e: "e = (fd, target)" by fastforce
  show ?case
  proof (cases target)
    case (FD_Path path)
    with Cons e show ?thesis
      using components_moved [OF _ assms, of path] strip_prefix_exists [of path detect_path]
      by (auto simp: fd_items_def starts_with_prefix)
  qed (use Cons e in \<open>simp add: fd_items_def\<close>)
qed

lemma fd_items_moved_witness:
  "map (\<lambda>(fd, path). (fd, components path)) (fd_items ''/d'' ''/e'' [(3, FD_Path ''/d/a''), (4, FD_Path ''/dd''), (5, FD_Other)]) =
     [(3, [RootDir, Normal ''e'', Normal ''a''])]"
proof -
  have "has_root ''/d''" "has_root ''/e''" "components ''/d'' = [RootDir, Normal ''d'']" "components ''/e'' = [RootDir, Normal ''e'']"
    "components ''/d/a'' = [RootDir, Normal ''d'', Normal ''a'']" "components ''/dd'' = [RootDir, Normal ''dd'']"
    by code_simp+
  then show ?thesis using fd_items_moved [of "''/d''" "''/e''"] by simp
qed

lemma fold_reopen:
  "list_all2 (\<lambda>i c. case_fd c = fst i) items cases \<Longrightarrow>
   reopen_all sys m base cases w =
     fold (\<lambda>(i, p). reopen sys m (fst i) p) (zip items (map (\<lambda>c. base + case_new_path_offset c) cases)) w"
  unfolding reopen_all_def
  by (induction items cases arbitrary: w rule: list_all2_induct) auto

text \<open>
  C26. The injected code reopens every descriptor: put in memory with the cases and paths of a
  process, it runs to its trap for any number of cases, and on the way makes, for each descriptor
  whose new path is UTF-8, in order, exactly the calls that read its flags, open the new path
  with them, copy the offset, put the new file in its place and close the spare descriptor,
  where the pointer passed to \<open>open\<close> points to the new path with its terminating zero.
\<close>

theorem fd_accessor_correct:
  fixes m :: "'w cpu"
  assumes "acc = FdBuilder_build (FdBuilder_from_iter items) process" and "pc m = 0"
    and "new_paths = Cursor_read_to_end ((acc_new_paths acc)\<lparr>cur_pos := 0\<rparr>)"
    and "bytes_at (mem m) addr (fd_data (acc_cases acc) new_paths)"
    and "16 * length (acc_cases acc) < 2 ^ 64"
  shows "\<exists>m' ptrs. let valid = filter (\<lambda>i. to_str (snd i) \<noteq> None) items in
    reaches sys (fd_labels (acc_cases acc) addr) fd_code m m' \<and> trapped fd_code m' \<and>
    list_all2 (\<lambda>i p. bytes_at (mem m) p (bytes_of (snd i) @ [0])) valid ptrs \<and>
    os m' = fold (\<lambda>(i, p). reopen sys (mem m) (fst i) p) (zip valid ptrs) (os m)"
proof -
  let ?b = "FdBuilder_from_iter items" and ?at = "fd_labels (acc_cases acc) addr"
  let ?valid = "filter (\<lambda>i. to_str (snd i) \<noteq> None) items"
  let ?ptrs = "map (\<lambda>c. ?at L_new_paths + case_new_path_offset c) (acc_cases acc)"
  have "fd_builder.built items ?b"
    using fd_builder.built_collect [of items] by (simp add: FdBuilder_from_iter_def split_def)
  then have pts: "list_all2 (fd_builder.points new_paths) ?valid (acc_cases acc)"
    using assms(1,3) by (simp add: fd_builder.built_def FdBuilder_build_def Cursor_read_to_end_def)
  obtain m1 where s: "steps sys ?at fd_code 3 m = Some m1" and m1: "pc m1 = 34" "rf m1 R14 = addr" "rf m1 R15 = 0"
      "mem m1 = mem m" "os m1 = os m"
    using fd_start [OF assms(2), of sys ?at] by (auto simp: fd_labels_def Let_def)
  obtain m' where m': "reaches sys ?at fd_code m1 m'" "trapped fd_code m'"
      "os m' = reopen_all sys (mem m) (?at L_new_paths) (acc_cases acc) (os m)"
    using fd_loop [of m1 addr "acc_cases acc" new_paths 0 sys] assms(4,5) m1 by auto
  have "list_all2 (\<lambda>i p. bytes_at (mem m) p (bytes_of (snd i) @ [0])) ?valid ?ptrs"
    unfolding list.rel_map
    by (rule list_all2_mono [OF pts])
       (auto simp: fd_builder.points_def to_str_def split: if_splits
         intro!: bytes_at_prefix [OF fd_loads(4) [OF assms(4)]])
  moreover have "list_all2 (\<lambda>i c. case_fd c = fst i) ?valid (acc_cases acc)"
    by (rule list_all2_mono [OF pts]) (auto simp: fd_builder.points_def)
  ultimately show ?thesis
    using m' reaches_trans [OF reaches_steps [OF s] m'(1)]
    by (intro exI [of _ m'] exI [of _ ?ptrs]) (simp add: Let_def fold_reopen)
qed

text \<open>A process with one descriptor 5, whose new path is \<open>/a\<close>; the kernel logs its calls.\<close>

definition sample_kernel :: "(u64 \<times> u64 list) list kernel" where
  "sample_kernel nr args m w = (if nr = 2 then 9 else 0, w @ [(nr, args)])"

definition sample_acc :: ProcessAccessor where
  "sample_acc = FdBuilder_build (FdBuilder_from_iter [(5, ''/a'')]) 10"

definition sample_image :: "u8 list" where
  "sample_image = fd_data (acc_cases sample_acc) (Cursor_read_to_end ((acc_new_paths sample_acc)\<lparr>cur_pos := 0\<rparr>))"

definition sample_cpu :: "(u64 \<times> u64 list) list cpu" where
  "sample_cpu = \<lparr>pc = 0, rf = (\<lambda>_. 0), carry = False,
     mem = (\<lambda>a. if unat a < length sample_image then sample_image ! unat a else 0), os = []\<rparr>"

lemma sample_cases: "acc_cases sample_acc = [\<lparr>case_fd = 5, case_new_path_offset = 0\<rparr>]"
  by code_simp

lemma sample_image_length: "length sample_image = 29"
  by code_simp

lemma sample_bytes: "bytes_at (mem sample_cpu) 0 sample_image"
  by (auto simp: bytes_at_def sample_cpu_def sample_image_length unat_of_nat)

lemma fd_accessor_correct_witness:
  "\<exists>m' p. reaches sample_kernel (fd_labels (acc_cases sample_acc) 0) fd_code sample_cpu m' \<and> trapped fd_code m' \<and>
     bytes_at (mem sample_cpu) p [0x2F, 0x61, 0] \<and>
     os m' = [(0x48, [5, 3, 0]), (2, [p, 0, 0]), (8, [5, 0, 1]), (8, [9, 0, 0]), (0x21, [9, 5]), (3, [9])]"
proof -
  have pc: "pc sample_cpu = 0" by (simp add: sample_cpu_def)
  have valid: "filter (\<lambda>i. to_str (snd i) \<noteq> None) [(5 :: u64, ''/a'')] = [(5, ''/a'')]" "bytes_of ''/a'' = [0x2F, 0x61]"
    by code_simp+
  have len: "16 * length (acc_cases sample_acc) < 2 ^ 64" by (simp add: sample_cases)
  obtain m' ptrs where m': "reaches sample_kernel (fd_labels (acc_cases sample_acc) 0) fd_code sample_cpu m'" "trapped fd_code m'"
    and p: "list_all2 (\<lambda>i p. bytes_at (mem sample_cpu) p (bytes_of (snd i) @ [0])) [(5 :: u64, ''/a'')] ptrs"
    and os: "os m' = fold (\<lambda>(i, p). reopen sample_kernel (mem sample_cpu) (fst i) p) (zip [(5, ''/a'')] ptrs) (os sample_cpu)"
    using fd_accessor_correct [OF sample_acc_def pc refl sample_bytes [unfolded sample_image_def] len, of sample_kernel]
    unfolding valid(1) Let_def by blast
  from p obtain q where "ptrs = [q]" "bytes_at (mem sample_cpu) q [0x2F, 0x61, 0]"
    by (auto simp: list_all2_Cons1 valid(2))
  moreover from this os have "os m' = [(0x48, [5, 3, 0]), (2, [q, 0, 0]), (8, [5, 0, 1]), (8, [9, 0, 0]), (0x21, [9, 5]), (3, [9])]"
    by (simp add: reopen_def sample_kernel_def SEEK_CUR_def SEEK_SET_def) (simp add: sample_cpu_def)
  ultimately show ?thesis using m' by blast
qed

end
