(* ===== verification/Mmap_Replacer.thy ===== *)
theory Mmap_Replacer
  imports Mmap_Code Fd_Replacer
begin

text \<open>
  \<open>src/replacer/mmap_replacer.rs\<close>: choosing the file mappings below a directory, collecting them per
  process, and running the code that maps them again.
\<close>

section \<open>Permissions\<close>

text \<open>\<open>get_prot_and_flags_from_perms\<close>; \<open>None\<close> where an index is out of range and the call panics.\<close>

definition get_prot_and_flags_from_perms :: "string \<Rightarrow> (u64 \<times> u64) option" where
  "get_prot_and_flags_from_perms perms =
     (if length perms < 4 then None
      else
        let prot = 0;
            prot = (if perms ! 0 = CHR ''r'' then prot OR PROT_READ else prot);
            prot = (if perms ! 1 = CHR ''w'' then prot OR PROT_WRITE else prot);
            prot = (if perms ! 2 = CHR ''x'' then prot OR PROT_EXEC else prot);
            flags = (if perms ! 3 = CHR ''s'' then MAP_SHARED else MAP_PRIVATE)
        in Some (prot, flags))"

section \<open>The builder\<close>

record ReplaceCase =
  rc_memory_addr :: u64
  rc_length :: u64
  rc_prot :: u64
  rc_flags :: u64
  rc_path :: path
  rc_offset :: u64

definition MmapBuilder_push_case ::
  "u64 \<Rightarrow> u64 \<Rightarrow> u64 \<Rightarrow> u64 \<Rightarrow> path \<Rightarrow> u64 \<Rightarrow> RawReplaceCase ProcessAccessorBuilder \<Rightarrow>
   bool \<times> RawReplaceCase ProcessAccessorBuilder" where
  "MmapBuilder_push_case memory_addr len prot flags new_path offset b = (case to_str new_path of
       None \<Rightarrow> (False, b)
     | Some s \<Rightarrow>
         let new_path = bytes_of s @ [0];
             new_path_offset = word_of_nat (cur_pos (bld_new_paths b))
         in (True, b\<lparr>bld_new_paths := Cursor_write_all new_path (bld_new_paths b),
                     bld_cases := bld_cases b @
                       [\<lparr>raw_memory_addr = memory_addr, raw_length = len, raw_prot = prot, raw_flags = flags,
                         raw_new_path_offset = new_path_offset, raw_offset = offset\<rparr>]\<rparr>))"

abbreviation push_mapping :: "ReplaceCase \<Rightarrow> RawReplaceCase ProcessAccessorBuilder \<Rightarrow> bool \<times> RawReplaceCase ProcessAccessorBuilder" where
  "push_mapping c \<equiv> MmapBuilder_push_case (rc_memory_addr c) (rc_length c) (rc_prot c) (rc_flags c) (rc_path c) (rc_offset c)"

definition MmapBuilder_from_iter :: "ReplaceCase list \<Rightarrow> RawReplaceCase ProcessAccessorBuilder" where
  "MmapBuilder_from_iter items = fold (\<lambda>c b. snd (push_mapping c b)) items ProcessAccessorBuilder_new"

definition raw_case :: "ReplaceCase \<Rightarrow> u64 \<Rightarrow> RawReplaceCase" where
  "raw_case c off = \<lparr>raw_memory_addr = rc_memory_addr c, raw_length = rc_length c, raw_prot = rc_prot c,
     raw_flags = rc_flags c, raw_new_path_offset = off, raw_offset = rc_offset c\<rparr>"

interpretation mmap_builder: accessor_builder push_mapping rc_path raw_case
  by unfold_locales (simp_all add: MmapBuilder_push_case_def raw_case_def Let_def)

record MmapAccessor =
  macc_process :: i32
  macc_cases :: "RawReplaceCase list"
  macc_new_paths :: cursor

definition MmapBuilder_build :: "RawReplaceCase ProcessAccessorBuilder \<Rightarrow> i32 \<Rightarrow> MmapAccessor" where
  "MmapBuilder_build b process =
     \<lparr>macc_process = process, macc_cases = bld_cases b, macc_new_paths = bld_new_paths b\<rparr>"

section \<open>Running the code\<close>

definition mmap_codes :: "assembler \<Rightarrow> MmapAccessor \<Rightarrow> u64 \<Rightarrow> anyhow + u64 \<times> u8 list" where
  "mmap_codes assemble acc addr =
     (let new_paths = Cursor_read_to_end ((macc_new_paths acc)\<lparr>cur_pos := 0\<rparr>);
          data = mmap_data (macc_cases acc) new_paths;
          replace = word_of_nat (length data)
      in case assemble (addr + replace) (mmap_labels (macc_cases acc) addr) mmap_code of
           Inl e \<Rightarrow> Inl e
         | Inr code \<Rightarrow> Inr (replace, data @ code))"

definition MmapAccessor_run :: "assembler \<Rightarrow> 'w tracee_calls \<Rightarrow> MmapAccessor \<Rightarrow> ('w, unit) traced" where
  "MmapAccessor_run assemble K acc = TracedProcess_run_codes K (macc_process acc) (mmap_codes assemble acc)"

fun MmapReplacer_run :: "assembler \<Rightarrow> 'w tracee_calls \<Rightarrow> MmapAccessor list \<Rightarrow> ('w, unit) traced" where
  "MmapReplacer_run assemble K [] = tr_return ()"
| "MmapReplacer_run assemble K (acc # accs) =
     tr_then (MmapAccessor_run assemble K acc) (\<lambda>_. MmapReplacer_run assemble K accs)"

section \<open>Choosing the mappings\<close>

datatype MMapPath = MMap_Path path | MMap_Other

record MemoryMap =
  map_address :: "u64 \<times> u64"
  map_perms :: string
  map_offset :: u64
  map_pathname :: MMapPath

text \<open>One mapping; the outer \<open>None\<close> is the panic on short permissions.\<close>

definition mmap_case :: "MemoryMap \<Rightarrow> ReplaceCase option option" where
  "mmap_case e = (case map_pathname e of
       MMap_Other \<Rightarrow> Some None
     | MMap_Path path \<Rightarrow>
         (case get_prot_and_flags_from_perms (map_perms e) of
            None \<Rightarrow> None
          | Some (prot, flags) \<Rightarrow>
              Some (Some \<lparr>rc_memory_addr = fst (map_address e), rc_length = snd (map_address e) - fst (map_address e),
                          rc_prot = prot, rc_flags = flags, rc_path = path, rc_offset = map_offset e\<rparr>)))"

text \<open>The two filters and the new path.\<close>

definition mmap_item :: "path \<Rightarrow> path \<Rightarrow> ReplaceCase \<Rightarrow> ReplaceCase option" where
  "mmap_item detect_path new_path c =
     (if starts_with (rc_path c) detect_path
      then map_option (\<lambda>stripped_path. c\<lparr>rc_path := join new_path stripped_path\<rparr>) (strip_prefix (rc_path c) detect_path)
      else None)"

fun mmap_items :: "path \<Rightarrow> path \<Rightarrow> MemoryMap list \<Rightarrow> ReplaceCase list option" where
  "mmap_items detect_path new_path [] = Some []"
| "mmap_items detect_path new_path (e # es) = (case mmap_case e of
       None \<Rightarrow> None
     | Some None \<Rightarrow> mmap_items detect_path new_path es
     | Some (Some c) \<Rightarrow>
         (case mmap_item detect_path new_path c of
            None \<Rightarrow> mmap_items detect_path new_path es
          | Some c \<Rightarrow> map_option ((#) c) (mmap_items detect_path new_path es)))"

section \<open>Properties\<close>

text \<open>What stands in \<open>/proc/pid/maps\<close> for the protection and the kind of a mapping.\<close>

definition show_perms :: "bool \<Rightarrow> bool \<Rightarrow> bool \<Rightarrow> bool \<Rightarrow> string" where
  "show_perms r w x shared =
     [if r then CHR ''r'' else CHR ''-'', if w then CHR ''w'' else CHR ''-'', if x then CHR ''x'' else CHR ''-'',
      if shared then CHR ''s'' else CHR ''p'']"

text \<open>
  Permissions are read back: from the four letters the kernel shows for a mapping the
  protection has exactly the bits of the letters, and the flags say whether it is shared;
  fewer than four letters are a panic.
\<close>

lemma perms_read:
  "get_prot_and_flags_from_perms (show_perms r w x shared) =
     Some ((if r then PROT_READ else 0) + (if w then PROT_WRITE else 0) + (if x then PROT_EXEC else 0),
           if shared then MAP_SHARED else MAP_PRIVATE) \<and>
   get_prot_and_flags_from_perms (take 3 perms) = None"
  by (simp add: get_prot_and_flags_from_perms_def show_perms_def PROT_READ_def PROT_WRITE_def PROT_EXEC_def Let_def
      min_def)

text \<open>What is chosen for a mapping below the directory.\<close>

definition maps_to :: "path \<Rightarrow> path \<Rightarrow> MemoryMap \<Rightarrow> ReplaceCase \<Rightarrow> bool" where
  "maps_to detect_path new_path e c \<longleftrightarrow>
     map_address e = (rc_memory_addr c, rc_memory_addr c + rc_length c) \<and> map_offset e = rc_offset c \<and>
     get_prot_and_flags_from_perms (map_perms e) = Some (rc_prot c, rc_flags c) \<and>
     (\<exists>path. map_pathname e = MMap_Path path \<and>
        components (rc_path c) = components new_path @ drop (length (components detect_path)) (components path))"

definition maps_below :: "path \<Rightarrow> MemoryMap \<Rightarrow> bool" where
  "maps_below detect_path e \<longleftrightarrow> (case map_pathname e of
       MMap_Path path \<Rightarrow> prefix (components detect_path) (components path) | MMap_Other \<Rightarrow> False)"

text \<open>
  C29. The mappings that are replaced: with permissions of four letters, exactly those of files
  below the directory, in their order, each with its address range, its offset, the protection
  and flags of its letters, and the path that has the same components below the new directory.
\<close>

theorem mmap_items_moved:
  assumes "has_root detect_path" and "has_root new_path" and "\<forall>e \<in> set maps. 4 \<le> length (map_perms e)"
  shows "\<exists>items. mmap_items detect_path new_path maps = Some items \<and>
    list_all2 (maps_to detect_path new_path) (filter (maps_below detect_path) maps) items"
  using assms(3)
proof (induction maps)
  case (Cons e maps)
  then obtain items where items: "mmap_items detect_path new_path maps = Some items"
    "list_all2 (maps_to detect_path new_path) (filter (maps_below detect_path) maps) items" by auto
  show ?case
  proof (cases "map_pathname e")
    case (MMap_Path path)
    obtain prot flags where "get_prot_and_flags_from_perms (map_perms e) = Some (prot, flags)"
      using Cons(2) by (simp add: get_prot_and_flags_from_perms_def Let_def)
    then have c: "\<exists>c. mmap_case e = Some (Some c) \<and> rc_path c = path \<and>
      (\<forall>p. components p = components new_path @ drop (length (components detect_path)) (components path) \<longrightarrow>
         maps_to detect_path new_path e (c\<lparr>rc_path := p\<rparr>))"
      using MMap_Path by (simp add: mmap_case_def maps_to_def prod_eq_iff)
    have "maps_below detect_path e \<longleftrightarrow> starts_with path detect_path"
      using MMap_Path by (simp add: maps_below_def starts_with_prefix)
    with c items show ?thesis
      using components_moved [OF _ assms(1,2), of path] strip_prefix_exists [of path detect_path] by (auto simp: mmap_item_def)
  qed (use items in \<open>simp add: mmap_case_def maps_below_def [of _ e]\<close>)
qed simp

lemma mmap_items_moved_witness:
  "\<exists>c. mmap_items ''/d'' ''/e'' [\<lparr>map_address = (0x1000, 0x3000), map_perms = ''rw-s'', map_offset = 0, map_pathname = MMap_Path ''/d/a''\<rparr>,
       \<lparr>map_address = (0x8000, 0x9000), map_perms = ''rwxp'', map_offset = 0, map_pathname = MMap_Other\<rparr>] = Some [c] \<and>
     rc_memory_addr c = 0x1000 \<and> components (rc_path c) = [RootDir, Normal ''e'', Normal ''a'']"
  (is "\<exists>c. mmap_items _ _ ?maps = _ \<and> _")
proof -
  have p: "has_root ''/d''" "has_root ''/e''" "components ''/d'' = [RootDir, Normal ''d'']" "components ''/e'' = [RootDir, Normal ''e'']"
    "components ''/d/a'' = [RootDir, Normal ''d'', Normal ''a'']"
    by code_simp+
  then obtain items where "mmap_items ''/d'' ''/e'' ?maps = Some items"
      "list_all2 (maps_to ''/d'' ''/e'') (filter (maps_below ''/d'') ?maps) items"
    using mmap_items_moved [of "''/d''" "''/e''" ?maps] by auto
  with p show ?thesis by (auto simp: maps_below_def list_all2_Cons1 maps_to_def)
qed

text \<open>The calls for one mapping, from what was chosen.\<close>

abbreviation map_again :: "'w kernel \<Rightarrow> (u64 \<Rightarrow> u8) \<Rightarrow> ReplaceCase \<Rightarrow> u64 \<Rightarrow> 'w \<Rightarrow> 'w" where
  "map_again sys m i p w \<equiv>
     let (_, w) = sys 0xB [rc_memory_addr i, rc_length i] m w;
         (fd, w) = sys 2 [p, O_RDWR, 0] m w;
         (_, w) = sys 9 [p, rc_length i, rc_prot i, rc_flags i, fd, rc_offset i] m w
     in snd (sys 3 [fd] m w)"

lemma fold_remap:
  "list_all2 (\<lambda>i c. \<exists>off. c = raw_case i off) items cases \<Longrightarrow>
   remap_all sys m base cases w =
     fold (\<lambda>(i, p). map_again sys m i p) (zip items (map (\<lambda>c. base + raw_new_path_offset c) cases)) w"
  unfolding remap_all_def
  by (induction items cases arbitrary: w rule: list_all2_induct)
     (auto simp: raw_case_def remap_def split_def Let_def)

text \<open>Every pointer the code passes to \<open>open\<close> is that of a path in the data.\<close>

lemma points_bytes:
  assumes "mmap_builder.points new_paths i c" and "bytes_at m (mmap_labels cases addr L_new_paths) new_paths"
  shows "bytes_at m (mmap_labels cases addr L_new_paths + raw_new_path_offset c) (bytes_of (rc_path i) @ [0])"
  using assms(1) by (auto simp: mmap_builder.points_def to_str_def raw_case_def split: if_splits
    intro!: bytes_at_prefix [OF assms(2)])

lemma points_within:
  assumes "list_all2 (mmap_builder.points new_paths) is cases" and "c \<in> set cases"
  shows "path_within addr (mmap_data cases new_paths) (mmap_labels cases addr L_new_paths + raw_new_path_offset c)"
proof -
  from assms obtain i where "mmap_builder.points new_paths i c"
    by (metis in_set_conv_nth list_all2_conv_all_nth)
  then show ?thesis unfolding path_within_def using points_bytes mmap_loads(3) by blast
qed

text \<open>
  C27. The injected code maps every file again: put in memory with the cases and paths of a
  process, it runs to its trap for any number of cases, using one word of the stack, and on the
  way makes, for each mapping whose new path is UTF-8, in order, exactly these calls: it unmaps
  the old range, opens the new path for reading and writing, maps the new file with the length,
  protection, flags and offset of the old mapping, and closes the descriptor. The address it
  passes to \<open>mmap\<close> is the pointer to the path and not the address of the old mapping.
\<close>

theorem mmap_accessor_correct:
  fixes m :: "'w cpu"
  assumes "acc = MmapBuilder_build (MmapBuilder_from_iter items) process" and "pc m = 0"
    and "new_paths = Cursor_read_to_end ((macc_new_paths acc)\<lparr>cur_pos := 0\<rparr>)"
    and "bytes_at (mem m) addr (mmap_data (macc_cases acc) new_paths)"
    and "stack_apart (rf m RSP) addr (mmap_data (macc_cases acc) new_paths)"
    and "48 * length (macc_cases acc) < 2 ^ 64" and "kernel_reads sys"
  shows "\<exists>m' ptrs. let valid = filter (\<lambda>i. to_str (rc_path i) \<noteq> None) items in
    reaches sys (mmap_labels (macc_cases acc) addr) mmap_code m m' \<and> trapped mmap_code m' \<and>
    list_all2 (\<lambda>i p. bytes_at (mem m) p (bytes_of (rc_path i) @ [0])) valid ptrs \<and>
    os m' = fold (\<lambda>(i, p). map_again sys (mem m) i p) (zip valid ptrs) (os m)"
proof -
  let ?b = "MmapBuilder_from_iter items" and ?at = "mmap_labels (macc_cases acc) addr"
  let ?valid = "filter (\<lambda>i. to_str (rc_path i) \<noteq> None) items"
  let ?ptrs = "map (\<lambda>c. ?at L_new_paths + raw_new_path_offset c) (macc_cases acc)"
  have "mmap_builder.built items ?b"
    using mmap_builder.built_collect [of items] by (simp add: MmapBuilder_from_iter_def)
  then have pts: "list_all2 (mmap_builder.points new_paths) ?valid (macc_cases acc)"
    using assms(1,3) by (simp add: mmap_builder.built_def MmapBuilder_build_def Cursor_read_to_end_def)
  obtain m1 where s: "steps sys ?at mmap_code 3 m = Some m1" and m1: "pc m1 = 34" "rf m1 R14 = addr" "rf m1 R15 = 0"
      "rf m1 RSP = rf m RSP" "mem m1 = mem m" "os m1 = os m"
    using mmap_start [OF assms(2), of sys ?at] by (auto simp: mmap_labels_def Let_def)
  obtain m' where m': "reaches sys ?at mmap_code m1 m'" "trapped mmap_code m'"
      "os m' = remap_all sys (mem m) (?at L_new_paths) (macc_cases acc) (os m)"
    using mmap_loop [of m1 addr "macc_cases acc" new_paths sys "mem m" 0] points_within [OF pts] assms(4-7) m1 by auto
  have "list_all2 (\<lambda>i p. bytes_at (mem m) p (bytes_of (rc_path i) @ [0])) ?valid ?ptrs"
    unfolding list.rel_map
    by (rule list_all2_mono [OF pts]) (erule points_bytes, rule mmap_loads(3) [OF assms(4)])
  moreover have "list_all2 (\<lambda>i c. \<exists>off. c = raw_case i off) ?valid (macc_cases acc)"
    by (rule list_all2_mono [OF pts]) (auto simp: mmap_builder.points_def)
  ultimately show ?thesis
    using m' reaches_trans [OF reaches_steps [OF s] m'(1)]
    by (intro exI [of _ m'] exI [of _ ?ptrs]) (simp add: fold_remap Let_def)
qed

text \<open>A process with one private mapping of a file whose new path is \<open>/a\<close>.\<close>

definition sample_mapping :: ReplaceCase where
  "sample_mapping = \<lparr>rc_memory_addr = 0x7000, rc_length = 0x1000, rc_prot = 1, rc_flags = 2, rc_path = ''/a'', rc_offset = 0\<rparr>"

definition sample_macc :: MmapAccessor where
  "sample_macc = MmapBuilder_build (MmapBuilder_from_iter [sample_mapping]) 10"

definition sample_mimage :: "u8 list" where
  "sample_mimage = mmap_data (macc_cases sample_macc) (Cursor_read_to_end ((macc_new_paths sample_macc)\<lparr>cur_pos := 0\<rparr>))"

definition sample_mcpu :: "(u64 \<times> u64 list) list cpu" where
  "sample_mcpu = \<lparr>pc = 0, rf = (\<lambda>r. if r = RSP then 0x800 else 0), carry = False,
     mem = (\<lambda>a. if unat a < length sample_mimage then sample_mimage ! unat a else 0), os = []\<rparr>"

lemma sample_mcases: "macc_cases sample_macc = [raw_case sample_mapping 0]"
  by code_simp

lemma sample_mimage_length: "length sample_mimage = 61"
  by code_simp

lemma sample_mbytes: "bytes_at (mem sample_mcpu) 0 sample_mimage"
  by (auto simp: bytes_at_def sample_mcpu_def sample_mimage_length unat_of_nat)

lemma sample_stack_apart: "stack_apart (rf sample_mcpu RSP) 0 sample_mimage"
  unfolding stack_apart_def sample_mimage_length sample_mcpu_def
  by (simp add: All_less_Suc numeral_eq_Suc) code_simp

lemma mmap_accessor_correct_witness:
  "\<exists>m' p. reaches sample_kernel (mmap_labels (macc_cases sample_macc) 0) mmap_code sample_mcpu m' \<and> trapped mmap_code m' \<and>
     bytes_at (mem sample_mcpu) p [0x2F, 0x61, 0] \<and>
     os m' = [(0xB, [0x7000, 0x1000]), (2, [p, 2, 0]), (9, [p, 0x1000, 1, 2, 9, 0]), (3, [9])]"
proof -
  have pc: "pc sample_mcpu = 0" by (simp add: sample_mcpu_def)
  have valid: "filter (\<lambda>i. to_str (rc_path i) \<noteq> None) [sample_mapping] = [sample_mapping]"
    "bytes_of (rc_path sample_mapping) = [0x2F, 0x61]"
    by code_simp+
  have len: "48 * length (macc_cases sample_macc) < 2 ^ 64" by (simp add: sample_mcases)
  have k: "kernel_reads sample_kernel" by (simp add: kernel_reads_def sample_kernel_def)
  obtain m' ptrs where m': "reaches sample_kernel (mmap_labels (macc_cases sample_macc) 0) mmap_code sample_mcpu m'"
      "trapped mmap_code m'"
    and p: "list_all2 (\<lambda>i p. bytes_at (mem sample_mcpu) p (bytes_of (rc_path i) @ [0])) [sample_mapping] ptrs"
    and os: "os m' = fold (\<lambda>(i, p). map_again sample_kernel (mem sample_mcpu) i p) (zip [sample_mapping] ptrs) (os sample_mcpu)"
    using mmap_accessor_correct [OF sample_macc_def pc refl sample_mbytes [unfolded sample_mimage_def]
      sample_stack_apart [unfolded sample_mimage_def] len k]
    unfolding valid(1) Let_def by blast
  from p obtain q where "ptrs = [q]" "bytes_at (mem sample_mcpu) q [0x2F, 0x61, 0]"
    by (auto simp: list_all2_Cons1 valid(2))
  moreover from this os have "os m' = [(0xB, [0x7000, 0x1000]), (2, [q, 2, 0]), (9, [q, 0x1000, 1, 2, 9, 0]), (3, [9])]"
    by (simp add: sample_kernel_def O_RDWR_def sample_mapping_def) (simp add: sample_mcpu_def)
  ultimately show ?thesis using m' by blast
qed

end
