(* ===== verification/Replacers.thy ===== *)
theory Replacers
  imports Mmap_Replacer
begin

text \<open>
  \<open>src/replacer/\<close>: finding the processes that use the directory, tracing them, and running the
  three replacers one after the other. Handles of traced processes are taken and dropped in the
  order of the lazy iterators of \<open>prepare\<close>: a process is traced, its entries are cloned handles
  while they pass through, and one handle stays with the accessor. The process ids of one
  listing are distinct, so each process is one group. What \<open>procfs\<close> reads is a parameter.
\<close>

section \<open>Calls\<close>

record 'w proc_calls =
  proc_all :: "'w \<Rightarrow> i32 list option \<times> 'w"
  proc_cmdline :: "i32 \<Rightarrow> 'w \<Rightarrow> string list option \<times> 'w"
  proc_cwd :: "i32 \<Rightarrow> 'w \<Rightarrow> path option \<times> 'w"
  proc_fd :: "i32 \<Rightarrow> 'w \<Rightarrow> (i32 \<times> FDTarget) list option \<times> 'w"
  proc_maps :: "i32 \<Rightarrow> 'w \<Rightarrow> MemoryMap list option \<times> 'w"

text \<open>A computation on the world, and one on a traced process, next to the counters.\<close>

definition tr_world :: "('w \<Rightarrow> 'a \<times> 'w) \<Rightarrow> ('w tracer, 'a) traced" where
  "tr_world f = (\<lambda>m. case f (tracer_world m) of (a, w) \<Rightarrow> Some (Ok a, m\<lparr>tracer_world := w\<rparr>))"

definition on_tracee :: "('w, 'a) traced \<Rightarrow> ('w tracer, 'a) traced" where
  "on_tracee f = (\<lambda>m. map_option (\<lambda>(r, w). (r, m\<lparr>tracer_world := w\<rparr>)) (f (tracer_world m)))"

section \<open>Handles\<close>

definition tr_trace :: "'w ptrace_calls \<Rightarrow> i32 \<Rightarrow> ('w tracer, i32) traced" where
  "tr_trace K pid = (\<lambda>m. map_option (\<lambda>(r, m'). (case r of Inl e \<Rightarrow> Err e | Inr h \<Rightarrow> Ok h, m')) (PtraceManager_trace K pid m))"

definition tr_clone :: "'w ptrace_calls \<Rightarrow> i32 \<Rightarrow> ('w tracer, i32) traced" where
  "tr_clone K pid = (\<lambda>m. map_option (\<lambda>(r, m'). (case r of Inl _ \<Rightarrow> Panic | Inr h \<Rightarrow> Ok h, m')) (TracedProcess_clone K pid m))"

text \<open>\<open>ok()\<close>; a value that owns a handle while \<open>f\<close> runs and drops it on every way out; values
  that are dropped on every way out but the normal one.\<close>

definition tr_ok :: "('w, 'a) traced \<Rightarrow> ('w, 'a option) traced" where
  "tr_ok f = (\<lambda>w. map_option (\<lambda>(r, w'). (case r of Ok a \<Rightarrow> Ok (Some a) | Err _ \<Rightarrow> Ok None | Panic \<Rightarrow> Panic, w')) (f w))"

definition tr_panic :: "('w, 'a) traced" where
  "tr_panic = (\<lambda>w. Some (Panic, w))"

definition with_handle :: "'w ptrace_calls \<Rightarrow> i32 \<Rightarrow> ('w tracer, 'a) traced \<Rightarrow> ('w tracer, 'a) traced" where
  "with_handle K h f = (\<lambda>m. map_option (\<lambda>(r, m'). (r, TracedProcess_drop K h m')) (f m))"

definition unwinding :: "'w ptrace_calls \<Rightarrow> i32 list \<Rightarrow> ('w tracer, 'a) traced \<Rightarrow> ('w tracer, 'a) traced" where
  "unwinding K hs f = (\<lambda>m. map_option (\<lambda>(r, m'). (r, case r of Ok _ \<Rightarrow> m' | _ \<Rightarrow> fold (TracedProcess_drop K) hs m')) (f m))"

section \<open>Processes (replacer/utils.rs)\<close>

definition contains_toda :: "string \<Rightarrow> bool" where
  "contains_toda s = list_ex (prefix ''toda'') (suffixes s)"

definition all_processes :: "'w proc_calls \<Rightarrow> ('w tracer, i32 list) traced" where
  "all_processes P = tr_then (tr_world (proc_all P)) (\<lambda>r. case r of None \<Rightarrow> tr_raise From_proc | Some pids \<Rightarrow> tr_return pids)"

text \<open>The filter of \<open>all_processes\<close>, evaluated when the iterator reaches the process.\<close>

definition keep_process :: "'w proc_calls \<Rightarrow> i32 \<Rightarrow> ('w tracer, bool) traced" where
  "keep_process P pid = tr_then (tr_world (proc_cmdline P pid)) (\<lambda>r. tr_return
     (case r of None \<Rightarrow> True | Some cmdline \<Rightarrow> \<not> list_ex contains_toda cmdline))"

text \<open>Over the processes, collecting what a step makes; what is collected is dropped when a later
  step panics.\<close>

fun collect_processes ::
  "'w ptrace_calls \<Rightarrow> 'w proc_calls \<Rightarrow> ('b \<Rightarrow> i32) \<Rightarrow> (i32 \<Rightarrow> ('w tracer, 'b option) traced) \<Rightarrow> i32 list \<Rightarrow> ('w tracer, 'b list) traced" where
  "collect_processes K P handle visit [] = tr_return []"
| "collect_processes K P handle visit (pid # pids) =
     tr_then (keep_process P pid) (\<lambda>keep.
     tr_then (if keep then visit pid else tr_return None) (\<lambda>r.
     tr_then (unwinding K (map handle (case r of None \<Rightarrow> [] | Some b \<Rightarrow> [b])) (collect_processes K P handle visit pids)) (\<lambda>bs.
     tr_return ((case r of None \<Rightarrow> [] | Some b \<Rightarrow> [b]) @ bs))))"

section \<open>The descriptor replacer\<close>

text \<open>The other entries of a group: each is a cloned handle that is dropped when it is collected.\<close>

fun pass_items :: "'w ptrace_calls \<Rightarrow> i32 \<Rightarrow> 'i list \<Rightarrow> ('w tracer, unit) traced" where
  "pass_items K pid [] = tr_return ()"
| "pass_items K pid (i # is) =
     tr_then (tr_clone K pid) (\<lambda>h. tr_then (with_handle K h (tr_return ())) (\<lambda>_. pass_items K pid is))"

definition fd_group :: "'w ptrace_calls \<Rightarrow> i32 \<Rightarrow> (u64 \<times> path) list \<Rightarrow> ('w tracer, ProcessAccessor option) traced" where
  "fd_group K pid items = (case items of
       [] \<Rightarrow> tr_return None
     | i # is \<Rightarrow>
         tr_then (tr_clone K pid) (\<lambda>h.
         tr_then (with_handle K h (tr_ok (tr_trace K pid))) (\<lambda>process.
         tr_then (unwinding K (case process of None \<Rightarrow> [] | Some p \<Rightarrow> [p]) (pass_items K pid is)) (\<lambda>_.
         tr_return (map_option (FdBuilder_build (FdBuilder_from_iter items)) process)))))"

definition fd_process :: "'w ptrace_calls \<Rightarrow> 'w proc_calls \<Rightarrow> path \<Rightarrow> path \<Rightarrow> i32 \<Rightarrow> ('w tracer, ProcessAccessor option) traced" where
  "fd_process K P detect_path new_path pid =
     tr_then (tr_ok (tr_trace K pid)) (\<lambda>r. case r of
       None \<Rightarrow> tr_return None
     | Some traced_process \<Rightarrow>
         with_handle K traced_process
           (tr_then (tr_world (proc_fd P pid)) (\<lambda>fd. case fd of
              None \<Rightarrow> tr_return None
            | Some entries \<Rightarrow> fd_group K pid (fd_items detect_path new_path entries))))"

definition FdReplacer_prepare ::
  "'w ptrace_calls \<Rightarrow> 'w proc_calls \<Rightarrow> path \<Rightarrow> path \<Rightarrow> ('w tracer, ProcessAccessor list) traced" where
  "FdReplacer_prepare K P detect_path new_path =
     tr_then (all_processes P) (collect_processes K P acc_process (fd_process K P detect_path new_path))"

section \<open>The working directory replacer\<close>

record CwdReplacer =
  cwd_processes :: "i32 list"
  cwd_new_path :: path

definition cwd_process :: "'w ptrace_calls \<Rightarrow> 'w proc_calls \<Rightarrow> path \<Rightarrow> i32 \<Rightarrow> ('w tracer, i32 option) traced" where
  "cwd_process K P detect_path pid =
     tr_then (tr_world (proc_cwd P pid)) (\<lambda>r. case r of
       None \<Rightarrow> tr_return None
     | Some cwd \<Rightarrow> if starts_with cwd detect_path then tr_ok (tr_trace K pid) else tr_return None)"

definition CwdReplacer_prepare ::
  "'w ptrace_calls \<Rightarrow> 'w proc_calls \<Rightarrow> path \<Rightarrow> path \<Rightarrow> ('w tracer, CwdReplacer) traced" where
  "CwdReplacer_prepare K P detect_path new_path =
     tr_then (all_processes P) (\<lambda>pids.
     tr_then (collect_processes K P id (cwd_process K P detect_path) pids) (\<lambda>processes.
     tr_return \<lparr>cwd_processes = processes, cwd_new_path = new_path\<rparr>))"

fun chdir_all :: "'w tracee_calls \<Rightarrow> path \<Rightarrow> i32 list \<Rightarrow> ('w, unit) traced" where
  "chdir_all T new_path [] = tr_return ()"
| "chdir_all T new_path (process # processes) =
     tr_then (TracedProcess_chdir T process new_path) (\<lambda>_. chdir_all T new_path processes)"

definition CwdReplacer_run :: "'w tracee_calls \<Rightarrow> CwdReplacer \<Rightarrow> ('w, unit) traced" where
  "CwdReplacer_run T r = chdir_all T (cwd_new_path r) (cwd_processes r)"

section \<open>The mapping replacer\<close>

text \<open>
  Every mapping of a file is a cloned handle, dropped again where the mapping is not below the
  directory. The first one below it starts the group, \<open>grp\<close> being the result of tracing for it.
\<close>

fun mmap_group ::
  "'w ptrace_calls \<Rightarrow> i32 \<Rightarrow> path \<Rightarrow> path \<Rightarrow> i32 option option \<Rightarrow> ReplaceCase list \<Rightarrow> MemoryMap list \<Rightarrow>
   ('w tracer, MmapAccessor option) traced" where
  "mmap_group K pid detect_path new_path grp items [] =
     tr_return (map_option (MmapBuilder_build (MmapBuilder_from_iter items)) (Option.bind grp id))"
| "mmap_group K pid detect_path new_path grp items (e # es) = (case mmap_case e of
       None \<Rightarrow> tr_panic
     | Some None \<Rightarrow> mmap_group K pid detect_path new_path grp items es
     | Some (Some c) \<Rightarrow>
         tr_then (tr_clone K pid) (\<lambda>h. case mmap_item detect_path new_path c of
             None \<Rightarrow> tr_then (with_handle K h (tr_return ())) (\<lambda>_. mmap_group K pid detect_path new_path grp items es)
           | Some c \<Rightarrow>
               (case grp of
                  Some _ \<Rightarrow> tr_then (with_handle K h (tr_return ())) (\<lambda>_.
                    mmap_group K pid detect_path new_path grp (items @ [c]) es)
                | None \<Rightarrow> tr_then (with_handle K h (tr_ok (tr_trace K pid))) (\<lambda>process.
                    unwinding K (case process of None \<Rightarrow> [] | Some p \<Rightarrow> [p])
                      (mmap_group K pid detect_path new_path (Some process) (items @ [c]) es)))))"

definition mmap_process :: "'w ptrace_calls \<Rightarrow> 'w proc_calls \<Rightarrow> path \<Rightarrow> path \<Rightarrow> i32 \<Rightarrow> ('w tracer, MmapAccessor option) traced" where
  "mmap_process K P detect_path new_path pid =
     tr_then (tr_ok (tr_trace K pid)) (\<lambda>r. case r of
       None \<Rightarrow> tr_return None
     | Some traced_process \<Rightarrow>
         with_handle K traced_process
           (tr_then (tr_world (proc_maps P pid)) (\<lambda>maps. case maps of
              None \<Rightarrow> tr_return None
            | Some entries \<Rightarrow> mmap_group K pid detect_path new_path None [] entries)))"

definition MmapReplacer_prepare ::
  "'w ptrace_calls \<Rightarrow> 'w proc_calls \<Rightarrow> path \<Rightarrow> path \<Rightarrow> ('w tracer, MmapAccessor list) traced" where
  "MmapReplacer_prepare K P detect_path new_path =
     tr_then (all_processes P) (collect_processes K P macc_process (mmap_process K P detect_path new_path))"

section \<open>The union of the replacers (replacer/mod.rs)\<close>

datatype replacer = R_Fd "ProcessAccessor list" | R_Cwd CwdReplacer | R_Mmap "MmapAccessor list"

fun replacer_handles :: "replacer \<Rightarrow> i32 list" where
  "replacer_handles (R_Fd processes) = map acc_process processes"
| "replacer_handles (R_Cwd r) = cwd_processes r"
| "replacer_handles (R_Mmap processes) = map macc_process processes"

fun Replacer_run :: "assembler \<Rightarrow> 'w tracee_calls \<Rightarrow> replacer \<Rightarrow> ('w, unit) traced" where
  "Replacer_run assemble T (R_Fd processes) = FdReplacer_run assemble T processes"
| "Replacer_run assemble T (R_Cwd r) = CwdReplacer_run T r"
| "Replacer_run assemble T (R_Mmap processes) = MmapReplacer_run assemble T processes"

type_synonym UnionReplacer = "replacer list"

definition UnionReplacer_new :: UnionReplacer where "UnionReplacer_new = []"

abbreviation union_handles :: "UnionReplacer \<Rightarrow> i32 list" where
  "union_handles u \<equiv> concat (map replacer_handles u)"

definition push_replacer :: "('a \<Rightarrow> replacer) \<Rightarrow> 'a option \<Rightarrow> UnionReplacer \<Rightarrow> UnionReplacer" where
  "push_replacer f r u = (case r of None \<Rightarrow> u | Some a \<Rightarrow> u @ [f a])"

definition UnionReplacer_prepare ::
  "'w ptrace_calls \<Rightarrow> 'w proc_calls \<Rightarrow> path \<Rightarrow> path \<Rightarrow> UnionReplacer \<Rightarrow> ('w tracer, UnionReplacer) traced" where
  "UnionReplacer_prepare K P detect_path new_path u =
     tr_then (unwinding K (union_handles u) (tr_ok (FdReplacer_prepare K P detect_path new_path))) (\<lambda>r.
     let u = push_replacer R_Fd r u in
     tr_then (unwinding K (union_handles u) (tr_ok (CwdReplacer_prepare K P detect_path new_path))) (\<lambda>r.
     let u = push_replacer R_Cwd r u in
     tr_then (unwinding K (union_handles u) (tr_ok (MmapReplacer_prepare K P detect_path new_path))) (\<lambda>r.
     tr_return (push_replacer R_Mmap r u))))"

fun UnionReplacer_run :: "assembler \<Rightarrow> 'w tracee_calls \<Rightarrow> UnionReplacer \<Rightarrow> ('w, unit) traced" where
  "UnionReplacer_run assemble T [] = tr_return ()"
| "UnionReplacer_run assemble T (r # u) = tr_then (Replacer_run assemble T r) (\<lambda>_. UnionReplacer_run assemble T u)"

definition UnionReplacer_drop :: "'w ptrace_calls \<Rightarrow> UnionReplacer \<Rightarrow> 'w tracer \<Rightarrow> 'w tracer" where
  "UnionReplacer_drop K u m = fold (TracedProcess_drop K) (union_handles u) m"

end
