(* ===== verification/Replacer_Handles.thy ===== *)
theory Replacer_Handles
  imports Replacers
begin

text \<open>
  The handles of the replacers: a small logic for computations that take and drop handles, and
  with it that \<open>prepare\<close> leaves one handle with each accessor and no other, returns, and that
  dropping the replacers lets go of every process.
\<close>

section \<open>Owning handles\<close>

text \<open>
  From live handles \<open>H\<close>, a run of \<open>f\<close> leaves \<open>Q a\<close> where it returns \<open>a\<close> and \<open>E\<close> where it ends
  otherwise; unless \<open>loose\<close>, it returns and does not panic.
\<close>

definition holds :: "bool \<Rightarrow> i32 multiset \<Rightarrow> ('w tracer, 'a) traced \<Rightarrow> ('a \<Rightarrow> i32 multiset) \<Rightarrow> i32 multiset \<Rightarrow> bool" where
  "holds loose H f Q E \<longleftrightarrow> (\<forall>m. counts_handles H m \<longrightarrow> (case f m of
       None \<Rightarrow> loose
     | Some (Ok a, m') \<Rightarrow> counts_handles (Q a) m'
     | Some (Err _, m') \<Rightarrow> counts_handles E m'
     | Some (Panic, m') \<Rightarrow> loose \<and> counts_handles E m'))"

lemma holds_cases:
  assumes "holds loose H f Q E" and "counts_handles H m"
  obtains "f m = None" and loose | a m' where "f m = Some (Ok a, m')" and "counts_handles (Q a) m'"
  | e m' where "f m = Some (Err e, m')" and "counts_handles E m'"
  | m' where "f m = Some (Panic, m')" and loose and "counts_handles E m'"
proof -
  from assms have f: "case f m of None \<Rightarrow> loose | Some (Ok a, m') \<Rightarrow> counts_handles (Q a) m'
     | Some (Err _, m') \<Rightarrow> counts_handles E m' | Some (Panic, m') \<Rightarrow> loose \<and> counts_handles E m'"
    unfolding holds_def by blast
  show ?thesis
  proof (cases "f m")
    case (Some p)
    obtain r m' where "p = (r, m')" by fastforce
    with Some f that show ?thesis by (cases r) auto
  qed (use f that in simp)
qed

text \<open>There is room for \<open>n\<close> more handles of each process.\<close>

definition fits :: "nat \<Rightarrow> i32 multiset \<Rightarrow> bool" where
  "fits n H \<longleftrightarrow> (\<forall>pid. count H pid + n < 2 ^ 31)"

lemma fits_less: "fits n H \<Longrightarrow> k \<le> n \<Longrightarrow> fits k H"
  unfolding fits_def by (meson add_le_mono le_less_trans order_refl)

lemma fits_add: "fits n H \<Longrightarrow> k < n \<Longrightarrow> fits k (add_mset h H)"
  unfolding fits_def
proof (intro allI)
  fix pid assume a: "\<forall>pid. count H pid + n < 2 ^ 31" and k: "k < n"
  from a have "count H pid + n < 2 ^ 31" by blast
  with k show "count (add_mset h H) pid + k < 2 ^ 31" by (cases "h = pid") simp_all
qed

lemma holds_return: "Q a = H \<Longrightarrow> holds loose H (tr_return a) Q E"
  by (simp add: holds_def tr_return_def)

lemma holds_raise: "holds loose H (tr_raise e) Q H"
  by (simp add: holds_def tr_raise_def)

lemma holds_panic: "holds True H tr_panic Q H"
  by (simp add: holds_def tr_panic_def)

lemma holds_then:
  assumes "holds loose H f Q E" and "\<And>a. holds loose (Q a) (g a) R E"
  shows "holds loose H (tr_then f g) R E"
  unfolding holds_def [of _ _ "tr_then f g"]
proof (intro allI impI, erule holds_cases [OF assms(1)])
  fix a m m' assume "f m = Some (Ok a, m')" "counts_handles (Q a) m'"
  with assms(2) show "case tr_then f g m of None \<Rightarrow> loose | Some (Ok a, m') \<Rightarrow> counts_handles (R a) m'
     | Some (Err _, m') \<Rightarrow> counts_handles E m' | Some (Panic, m') \<Rightarrow> loose \<and> counts_handles E m'"
    unfolding holds_def by (simp add: tr_then_def)
qed (simp_all add: tr_then_def)

lemma holds_world: "holds loose H (tr_world f) (\<lambda>_. H) E"
  by (simp add: holds_def tr_world_def counts_handles_def split: prod.split)

lemma holds_tracee: "holds True H (on_tracee f) (\<lambda>_. H) H"
  by (auto simp: holds_def on_tracee_def counts_handles_def split: option.split outcome.split prod.split)

lemma holds_ok: "holds loose H f Q E \<Longrightarrow> holds loose H (tr_ok f) (\<lambda>r. case r of None \<Rightarrow> E | Some a \<Rightarrow> Q a) E"
  unfolding holds_def [of _ _ "tr_ok f"]
  by (intro allI impI) (erule (1) holds_cases; simp add: tr_ok_def)

lemma counts_drop:
  "counts_handles (add_mset h H) m \<Longrightarrow> counts_handles H (TracedProcess_drop K h m)"
  using drop_result(1) [of "add_mset h H" m h K] by simp

lemma counts_drops:
  "counts_handles (H + mset hs) m \<Longrightarrow> counts_handles H (fold (TracedProcess_drop K) hs m)"
  by (induction hs arbitrary: m) (auto intro: counts_drop)

lemma holds_handle:
  "holds loose H f (\<lambda>a. add_mset h (Q a)) (add_mset h E) \<Longrightarrow> holds loose H (with_handle K h f) Q E"
  unfolding holds_def [of _ _ "with_handle K h f"]
  by (intro allI impI) (erule (1) holds_cases; simp add: with_handle_def counts_drop)

lemma holds_unwinding:
  "holds loose H f Q (E + mset hs) \<Longrightarrow> holds loose H (unwinding K hs f) Q E"
  unfolding holds_def [of _ _ "unwinding K hs f"]
  by (intro allI impI) (erule (1) holds_cases; simp add: unwinding_def counts_drops)

lemma trace_counts:
  assumes "counts_handles H m" and "fits 1 H" and "PtraceManager_trace K pid m = Some (r, m')"
  shows "(r = Inr pid \<and> counts_handles (add_mset pid H) m') \<or> (\<exists>e. r = Inl e \<and> counts_handles H m' \<and> pid \<notin># H)"
proof (cases r)
  case (Inl e)
  with assms trace_result(2) [of K pid m e m'] show ?thesis by (auto simp: counts_handles_def split: if_splits)
next
  case (Inr h)
  with assms trace_result(1) [of K pid m h m'] counts_handles_add [OF assms(1), of pid m'] show ?thesis
    by (auto simp: fits_def)
qed

lemma trace_returns: "PtraceManager_trace K pid m \<noteq> None"
proof -
  have "lists_within K pid UNIV" by (simp add: lists_within_def)
  from attach_loop_ends [OF this, of 2 "{}" "tracer_world m"] show ?thesis
    by (auto simp: PtraceManager_trace_def split: sum.splits option.splits)
qed

lemma ok_trace_cases:
  assumes "counts_handles H m" and "fits 1 H"
  obtains m' where "tr_ok (tr_trace K pid) m = Some (Ok (Some pid), m')" and "counts_handles (add_mset pid H) m'"
  | m' where "tr_ok (tr_trace K pid) m = Some (Ok None, m')" and "counts_handles H m'" and "pid \<notin># H"
proof -
  obtain r m' where "PtraceManager_trace K pid m = Some (r, m')" using trace_returns by fastforce
  with trace_counts [OF assms, of K pid r m'] that show ?thesis by (auto simp: tr_ok_def tr_trace_def)
qed

lemma holds_trace:
  assumes "fits 1 H" and "holds loose (add_mset pid H) (g (Some pid)) R E" and "pid \<notin># H \<Longrightarrow> holds loose H (g None) R E"
  shows "holds loose H (tr_then (tr_ok (tr_trace K pid)) g) R E"
  unfolding holds_def
proof (intro allI impI)
  fix m :: "'a tracer" assume m: "counts_handles H m"
  show "case tr_then (tr_ok (tr_trace K pid)) g m of None \<Rightarrow> loose | Some (Ok a, m') \<Rightarrow> counts_handles (R a) m'
     | Some (Err _, m') \<Rightarrow> counts_handles E m' | Some (Panic, m') \<Rightarrow> loose \<and> counts_handles E m'"
    using assms(2,3) by (cases rule: ok_trace_cases [OF m assms(1), of K pid]) (auto simp: tr_then_def holds_def)
qed

text \<open>A live handle can be cloned, and its process traced again.\<close>

lemma holds_clone:
  assumes "fits 1 H" and "pid \<in># H" and "holds loose (add_mset pid H) (g pid) R E"
  shows "holds loose H (tr_then (tr_clone K pid) g) R E"
  unfolding holds_def
proof (intro allI impI)
  fix m :: "'a tracer" assume m: "counts_handles H m"
  obtain r m' where r: "PtraceManager_trace K pid m = Some (r, m')" using trace_returns by fastforce
  with trace_counts [OF m assms(1) r] assms(2)
  have "tr_clone K pid m = Some (Ok pid, m')" "counts_handles (add_mset pid H) m'"
    by (auto simp: tr_clone_def TracedProcess_clone_def)
  with assms(3) show "case tr_then (tr_clone K pid) g m of None \<Rightarrow> loose | Some (Ok a, m') \<Rightarrow> counts_handles (R a) m'
     | Some (Err _, m') \<Rightarrow> counts_handles E m' | Some (Panic, m') \<Rightarrow> loose \<and> counts_handles E m'"
    by (simp add: tr_then_def holds_def)
qed

lemma holds_pass:
  assumes "holds loose H (g ()) R E"
  shows "holds loose (add_mset h H) (tr_then (with_handle K h (tr_return ())) g) R E"
  by (rule holds_then [where Q = "\<lambda>_. H"]) (use assms in \<open>auto intro!: holds_handle holds_return\<close>)

lemma holds_regroup:
  assumes "fits 1 H" and "pid \<in># H" and "holds loose H (g (Some pid)) R E"
  shows "holds loose H (tr_then (with_handle K pid (tr_ok (tr_trace K pid))) g) R E"
  unfolding holds_def
proof (intro allI impI)
  fix m :: "'a tracer" assume m: "counts_handles H m"
  from assms show "case tr_then (with_handle K pid (tr_ok (tr_trace K pid))) g m of None \<Rightarrow> loose
     | Some (Ok a, m') \<Rightarrow> counts_handles (R a) m'
     | Some (Err _, m') \<Rightarrow> counts_handles E m' | Some (Panic, m') \<Rightarrow> loose \<and> counts_handles E m'"
    by (cases rule: ok_trace_cases [OF m assms(1), of K pid])
       (auto simp: tr_then_def with_handle_def holds_def intro: counts_drop)
qed

section \<open>The replacers\<close>

abbreviation opt_handles :: "('b \<Rightarrow> i32) \<Rightarrow> 'b option \<Rightarrow> i32 multiset" where
  "opt_handles handle r \<equiv> mset (map handle (case r of None \<Rightarrow> [] | Some b \<Rightarrow> [b]))"

lemma holds_pass_items: "fits 1 H \<Longrightarrow> pid \<in># H \<Longrightarrow> holds loose H (pass_items K pid is) (\<lambda>_. H) E"
  by (induction "is") (auto intro!: holds_return holds_clone holds_pass)

lemma holds_fd_group:
  assumes "fits 2 H" and "pid \<in># H"
  shows "holds loose H (fd_group K pid items) (\<lambda>r. H + opt_handles acc_process r) H"
proof (cases items)
  case (Cons i "is")
  have f: "fits 1 H" "fits 1 (add_mset pid H)" using assms(1) by (simp_all add: fits_add fits_less)
  have "holds loose (add_mset pid H) (unwinding K [pid] (pass_items K pid is)) (\<lambda>_. add_mset pid H) H"
    by (rule holds_unwinding) (use f in \<open>simp add: holds_pass_items\<close>)
  then show ?thesis
    unfolding fd_group_def Cons list.case
    by (intro holds_clone [OF f(1) assms(2)] holds_regroup [OF f(2)])
       (auto intro!: holds_then holds_return simp: FdBuilder_build_def)
qed (simp add: fd_group_def holds_return)

text \<open>A process is traced, its entries are read, and a group is made of them.\<close>

lemma holds_process:
  fixes rd :: "'w \<Rightarrow> 'x option \<times> 'w"
  assumes "fits 3 H" and "\<And>x. ok x \<Longrightarrow> holds loose (add_mset pid H) (f x) (\<lambda>r. add_mset pid H + opt_handles handle r) (add_mset pid H)"
    and "\<And>w x w'. rd w = (Some x, w') \<Longrightarrow> ok x"
  shows "holds loose H (tr_then (tr_ok (tr_trace K pid)) (\<lambda>r. case r of
       None \<Rightarrow> tr_return None
     | Some p \<Rightarrow> with_handle K p (tr_then (tr_world rd) (\<lambda>x. case x of None \<Rightarrow> tr_return None | Some x \<Rightarrow> f x))))
     (\<lambda>r. H + opt_handles handle r) H"
proof (rule holds_trace)
  show "fits 1 H" using assms(1) by (rule fits_less) simp
  let ?f = "tr_then (tr_world rd) (\<lambda>x. case x of None \<Rightarrow> tr_return None | Some x \<Rightarrow> f x)"
  let ?H = "add_mset pid H" and ?Q = "\<lambda>r. add_mset pid (H + opt_handles handle r)"
  have g: "holds loose ?H (case x of None \<Rightarrow> tr_return None | Some x \<Rightarrow> f x) ?Q ?H" if "\<forall>y. x = Some y \<longrightarrow> ok y" for x
    using that assms(2) by (cases x) (auto intro: holds_return)
  have "holds loose ?H ?f ?Q ?H"
    unfolding holds_def
  proof (intro allI impI)
    fix m :: "'w tracer" assume m: "counts_handles ?H m"
    obtain x w where x: "rd (tracer_world m) = (x, w)" by fastforce
    have "counts_handles ?H (m\<lparr>tracer_world := w\<rparr>)" using m by (simp add: counts_handles_def)
    with g [of x] assms(3) x show "case ?f m of None \<Rightarrow> loose | Some (Ok a, m') \<Rightarrow> counts_handles (?Q a) m'
       | Some (Err _, m') \<Rightarrow> counts_handles ?H m' | Some (Panic, m') \<Rightarrow> loose \<and> counts_handles ?H m'"
      unfolding holds_def by (auto simp: tr_then_def tr_world_def)
  qed
  then show "holds loose ?H (case Some pid of None \<Rightarrow> tr_return None | Some p \<Rightarrow> with_handle K p ?f)
      (\<lambda>r. H + opt_handles handle r) H"
    by (auto intro: holds_handle)
qed (auto intro: holds_return)

lemma holds_fd_process:
  assumes "fits 3 H"
  shows "holds loose H (fd_process K P detect_path new_path pid) (\<lambda>r. H + opt_handles acc_process r) H"
  unfolding fd_process_def
  by (rule holds_process [OF assms, where ok = "\<lambda>_. True"], rule holds_fd_group)
     (use assms in \<open>simp_all add: fits_add\<close>)

lemma holds_cwd_process:
  assumes "fits 3 H"
  shows "holds loose H (cwd_process K P detect_path pid) (\<lambda>r. H + opt_handles id r) H"
proof -
  have "holds loose H (tr_then (tr_ok (tr_trace K pid)) tr_return) (\<lambda>r. H + opt_handles id r) H"
    by (rule holds_trace) (use assms fits_less [of 3 H 1] in \<open>auto intro: holds_return\<close>)
  moreover have "tr_then (tr_ok (tr_trace K pid)) tr_return = tr_ok (tr_trace K pid)"
    by (auto simp: tr_then_def tr_return_def fun_eq_iff split: option.split outcome.split)
  ultimately show ?thesis
    unfolding cwd_process_def
    by (intro holds_then [OF holds_world]) (auto intro: holds_return split: option.split)
qed

lemma holds_mmap_group:
  assumes "fits 2 H" and "pid \<in># H" and "loose \<or> (\<forall>e \<in> set es. 4 \<le> length (map_perms e))"
    and "grp = None \<or> grp = Some None \<or> grp = Some (Some pid)"
  shows "holds loose (H + opt_handles id (Option.bind grp id)) (mmap_group K pid detect_path new_path grp items es)
    (\<lambda>r. H + opt_handles macc_process r) (H + opt_handles id (Option.bind grp id))"
  using assms(3,4)
proof (induction es arbitrary: grp items)
  case Nil
  then show ?case by (auto intro!: holds_return simp: MmapBuilder_build_def)
next
  case (Cons e es)
  let ?b = "Option.bind grp id"
  let ?G = "H + opt_handles id ?b" and ?R = "\<lambda>r. H + opt_handles macc_process r"
  have G: "fits 1 ?G" "pid \<in># ?G" using Cons(3) assms(1,2) by (auto simp: fits_add fits_less)
  show ?case
  proof (cases "mmap_case e")
    case None
    then have "\<not> 4 \<le> length (map_perms e)"
      by (auto simp: mmap_case_def get_prot_and_flags_from_perms_def Let_def split: MMapPath.splits option.splits if_splits)
    with Cons(2) None show ?thesis by (auto intro: holds_panic)
  next
    case (Some x)
    have IH: "holds loose ?G (mmap_group K pid detect_path new_path grp its es) ?R ?G" for its
      by (rule Cons(1)) (use Cons(2,3) in auto)
    show ?thesis
    proof (cases "x = None \<or> mmap_item detect_path new_path (the x) = None \<or> grp \<noteq> None")
      case True
      show ?thesis
      proof (cases x)
        case None
        with Some have its: "mmap_group K pid detect_path new_path grp items (e # es) =
            mmap_group K pid detect_path new_path grp items es" by simp
        show ?thesis unfolding its by (rule IH)
      next
        case c: (Some c)
        with True Some have "\<exists>its. mmap_group K pid detect_path new_path grp items (e # es) = tr_then (tr_clone K pid) (\<lambda>h.
            tr_then (with_handle K h (tr_return ())) (\<lambda>_. mmap_group K pid detect_path new_path grp its es))"
          by (cases "mmap_item detect_path new_path c"; cases grp) auto
        then obtain its where its: "mmap_group K pid detect_path new_path grp items (e # es) = tr_then (tr_clone K pid) (\<lambda>h.
            tr_then (with_handle K h (tr_return ())) (\<lambda>_. mmap_group K pid detect_path new_path grp its es))" by blast
        show ?thesis unfolding its by (rule holds_clone [OF G], rule holds_pass, rule IH)
      qed
    next
      case False
      then obtain c c' where c: "x = Some c" "mmap_item detect_path new_path c = Some c'" "grp = None" by auto
      from Cons(1) [of "Some (Some pid)" "items @ [c']"] Cons(2)
      have "holds loose (add_mset pid H) (unwinding K [pid] (mmap_group K pid detect_path new_path (Some (Some pid)) (items @ [c']) es)) ?R H"
        by (intro holds_unwinding) auto
      then have "holds loose H (tr_then (tr_clone K pid) (\<lambda>h. tr_then (with_handle K h (tr_ok (tr_trace K pid))) (\<lambda>process.
          unwinding K (case process of None \<Rightarrow> [] | Some p \<Rightarrow> [p])
            (mmap_group K pid detect_path new_path (Some process) (items @ [c']) es)))) ?R H"
        using assms(1,2) by (intro holds_clone holds_regroup) (simp_all add: fits_add fits_less)
      with c Some show ?thesis by simp
    qed
  qed
qed

lemma holds_mmap_process:
  assumes "fits 3 H" and "loose \<or> (\<forall>w maps w'. proc_maps P pid w = (Some maps, w') \<longrightarrow> (\<forall>e \<in> set maps. 4 \<le> length (map_perms e)))"
  shows "holds loose H (mmap_process K P detect_path new_path pid) (\<lambda>r. H + opt_handles macc_process r) H"
  unfolding mmap_process_def
proof (rule holds_process [OF assms(1), where ok = "\<lambda>maps :: MemoryMap list. loose \<or> (\<forall>e \<in> set maps. 4 \<le> length (map_perms e))"])
  fix maps :: "MemoryMap list" assume "loose \<or> (\<forall>e \<in> set maps. 4 \<le> length (map_perms e))"
  from holds_mmap_group [OF _ _ this, of "add_mset pid H" pid None] assms(1)
  show "holds loose (add_mset pid H) (mmap_group K pid detect_path new_path None [] maps)
    (\<lambda>r. add_mset pid H + opt_handles macc_process r) (add_mset pid H)" by (simp add: fits_add)
qed (use assms(2) in blast)

lemma holds_keep: "holds loose H (keep_process P pid) (\<lambda>_. H) E"
  unfolding keep_process_def by (intro holds_then [OF holds_world] holds_return refl)

lemma holds_collect:
  assumes "\<And>H pid. fits 3 H \<Longrightarrow> holds loose H (visit pid) (\<lambda>r. H + opt_handles handle r) H"
    and "fits (3 + length pids) H"
  shows "holds loose H (collect_processes K P handle visit pids) (\<lambda>bs. H + mset (map handle bs)) H"
  using assms(2)
proof (induction pids arbitrary: H)
  case (Cons pid pids)
  let ?l = "\<lambda>r. case r of None \<Rightarrow> [] | Some b \<Rightarrow> [b]"
  have v: "holds loose H (if keep then visit pid else tr_return None) (\<lambda>r. H + opt_handles handle r) H" for keep
    using assms(1) [OF fits_less [OF Cons(2)]] by (auto intro: holds_return)
  have "holds loose (H + opt_handles handle r) (tr_then (unwinding K (map handle (?l r)) (collect_processes K P handle visit pids))
      (\<lambda>bs. tr_return (?l r @ bs))) (\<lambda>bs. H + mset (map handle bs)) H" for r
  proof (rule holds_then)
    have "fits (3 + length pids) (H + opt_handles handle r)"
      using Cons(2) by (cases r) (simp_all add: fits_add fits_less)
    from Cons(1) [OF this]
    show "holds loose (H + opt_handles handle r) (unwinding K (map handle (?l r)) (collect_processes K P handle visit pids))
      (\<lambda>bs. H + opt_handles handle r + mset (map handle bs)) H"
      by (rule holds_unwinding)
  qed (auto intro!: holds_return)
  then show ?case
    by (auto intro!: holds_then [OF holds_keep] holds_then [OF v])
qed (simp add: holds_return)

text \<open>No listing of the processes is longer than \<open>n\<close>.\<close>

definition processes_within :: "'w proc_calls \<Rightarrow> nat \<Rightarrow> bool" where
  "processes_within P n \<longleftrightarrow> (\<forall>w pids w'. proc_all P w = (Some pids, w') \<longrightarrow> length pids \<le> n)"

lemma holds_all:
  assumes "processes_within P n" and "\<And>pids. length pids \<le> n \<Longrightarrow> holds loose H (g pids) R H"
  shows "holds loose H (tr_then (all_processes P) g) R H"
  unfolding holds_def
proof (intro allI impI)
  fix m :: "'a tracer" assume m: "counts_handles H m"
  obtain x w where x: "proc_all P (tracer_world m) = (x, w)" by fastforce
  have w: "counts_handles H (m\<lparr>tracer_world := w\<rparr>)" using m by (simp add: counts_handles_def)
  show "case tr_then (all_processes P) g m of None \<Rightarrow> loose | Some (Ok a, m') \<Rightarrow> counts_handles (R a) m'
     | Some (Err _, m') \<Rightarrow> counts_handles H m' | Some (Panic, m') \<Rightarrow> loose \<and> counts_handles H m'"
  proof (cases x)
    case None
    with x w show ?thesis by (simp add: tr_then_def all_processes_def tr_world_def tr_raise_def)
  next
    case (Some pids)
    with x assms(1) have "length pids \<le> n" unfolding processes_within_def by blast
    with assms(2) w have "case g pids (m\<lparr>tracer_world := w\<rparr>) of None \<Rightarrow> loose | Some (Ok a, m') \<Rightarrow> counts_handles (R a) m'
       | Some (Err _, m') \<Rightarrow> counts_handles H m' | Some (Panic, m') \<Rightarrow> loose \<and> counts_handles H m'"
      unfolding holds_def by blast
    with Some x show ?thesis by (simp add: tr_then_def all_processes_def tr_world_def tr_return_def)
  qed
qed

text \<open>The permissions of a mapping are four letters.\<close>

definition perms_shown :: "'w proc_calls \<Rightarrow> bool" where
  "perms_shown P \<longleftrightarrow>
     (\<forall>pid w maps w'. proc_maps P pid w = (Some maps, w') \<longrightarrow> (\<forall>e \<in> set maps. 4 \<le> length (map_perms e)))"

lemma holds_prepare:
  assumes "loose \<or> perms_shown P" and "processes_within P n" and "fits (3 + n) H"
  shows "holds loose H (FdReplacer_prepare K P d p) (\<lambda>accs. H + mset (map acc_process accs)) H"
    and "holds loose H (CwdReplacer_prepare K P d p) (\<lambda>r. H + mset (cwd_processes r)) H"
    and "holds loose H (MmapReplacer_prepare K P d p) (\<lambda>accs. H + mset (map macc_process accs)) H"
proof -
  have q: "loose \<or> (\<forall>w maps w'. proc_maps P pid w = (Some maps, w') \<longrightarrow> (\<forall>e \<in> set maps. 4 \<le> length (map_perms e)))" for pid
    using assms(1) unfolding perms_shown_def by metis
  have f: "fits (3 + length pids) H" if "length pids \<le> n" for pids :: "i32 list"
    using fits_less [OF assms(3)] that by simp
  show "holds loose H (FdReplacer_prepare K P d p) (\<lambda>accs. H + mset (map acc_process accs)) H"
    unfolding FdReplacer_prepare_def
    by (intro holds_all [OF assms(2)] holds_collect holds_fd_process f)
  show "holds loose H (CwdReplacer_prepare K P d p) (\<lambda>r. H + mset (cwd_processes r)) H"
    unfolding CwdReplacer_prepare_def
    by (intro holds_all [OF assms(2)] holds_then [OF holds_collect [OF holds_cwd_process]] holds_return f) simp_all
  show "holds loose H (MmapReplacer_prepare K P d p) (\<lambda>accs. H + mset (map macc_process accs)) H"
    unfolding MmapReplacer_prepare_def
    by (intro holds_all [OF assms(2)] holds_collect holds_mmap_process f q)
qed

section \<open>All three together\<close>

text \<open>What is known of the value may be used for what follows.\<close>

lemma holds_then_value:
  assumes "holds loose H f Q E" and "\<And>m a m'. f m = Some (Ok a, m') \<Longrightarrow> V a" and "\<And>a. V a \<Longrightarrow> holds loose (Q a) (g a) R E"
  shows "holds loose H (tr_then f g) R E"
  unfolding holds_def [of _ _ "tr_then f g"]
proof (intro allI impI, erule holds_cases [OF assms(1)])
  fix a m m' assume "f m = Some (Ok a, m')" "counts_handles (Q a) m'"
  with assms(2,3) show "case tr_then f g m of None \<Rightarrow> loose | Some (Ok a, m') \<Rightarrow> counts_handles (R a) m'
     | Some (Err _, m') \<Rightarrow> counts_handles E m' | Some (Panic, m') \<Rightarrow> loose \<and> counts_handles E m'"
    unfolding holds_def by (simp add: tr_then_def)
qed (simp_all add: tr_then_def)

lemma then_Ok:
  "tr_then f g m = Some (Ok b, m') \<longleftrightarrow> (\<exists>a m1. f m = Some (Ok a, m1) \<and> g a m1 = Some (Ok b, m'))"
  by (auto simp: tr_then_def split: option.splits outcome.splits)

lemma unwinding_Ok: "unwinding K hs f m = Some (Ok a, m') \<longleftrightarrow> f m = Some (Ok a, m')"
  by (cases "f m"; cases "fst (the (f m))") (auto simp: unwinding_def)

lemma return_Ok: "tr_return a m = Some (Ok b, m') \<longleftrightarrow> b = a \<and> m' = m"
  by (auto simp: tr_return_def)

lemma ok_Ok: "tr_ok f m = Some (Ok (Some a), m') \<longleftrightarrow> f m = Some (Ok a, m')"
  by (cases "f m"; cases "fst (the (f m))") (auto simp: tr_ok_def)

lemmas traced_Ok = then_Ok unwinding_Ok return_Ok ok_Ok

lemma collect_length: "collect_processes K P handle visit pids m = Some (Ok bs, m') \<Longrightarrow> length bs \<le> length pids"
  by (induction pids arbitrary: m bs m') (fastforce simp: traced_Ok split: option.splits)+

lemma all_processes_Ok: "all_processes P m = Some (Ok pids, m') \<Longrightarrow> processes_within P n \<Longrightarrow> length pids \<le> n"
  unfolding all_processes_def processes_within_def
  by (auto simp: traced_Ok tr_world_def tr_raise_def split: option.splits prod.splits)

lemma prepare_length:
  assumes "processes_within P n"
  shows "FdReplacer_prepare K P d p m = Some (Ok accs, m') \<Longrightarrow> length accs \<le> n"
    and "CwdReplacer_prepare K P d p m = Some (Ok r, m') \<Longrightarrow> length (cwd_processes r) \<le> n"
  using assms unfolding FdReplacer_prepare_def CwdReplacer_prepare_def
  by (auto simp: traced_Ok dest!: collect_length all_processes_Ok)

lemma fits_more: "fits (n + length hs) H \<Longrightarrow> fits n (H + mset hs)"
proof (induction hs arbitrary: H)
  case (Cons h hs)
  from Cons(1) [OF fits_add [OF Cons(2)]] show ?case by simp
qed simp

lemma holds_push:
  assumes "holds loose (H + mset (union_handles u)) f (\<lambda>a. H + mset (union_handles u) + mset (replacer_handles (c a)))
      (H + mset (union_handles u))"
    and "\<And>m a m'. f m = Some (Ok a, m') \<Longrightarrow> V a"
    and "\<And>r. (\<And>a. r = Some a \<Longrightarrow> V a) \<Longrightarrow> holds loose (H + mset (union_handles (push_replacer c r u))) (g r) R H"
  shows "holds loose (H + mset (union_handles u)) (tr_then (unwinding K (union_handles u) (tr_ok f)) g) R H"
proof (rule holds_then_value [where V = "\<lambda>r. \<forall>a. r = Some a \<longrightarrow> V a"])
  have q: "(case r of None \<Rightarrow> H + mset (union_handles u) | Some a \<Rightarrow> H + mset (union_handles u) + mset (replacer_handles (c a))) =
      H + mset (union_handles (push_replacer c r u))" for r
    by (cases r) (simp_all add: push_replacer_def)
  show "holds loose (H + mset (union_handles u)) (unwinding K (union_handles u) (tr_ok f))
      (\<lambda>r. H + mset (union_handles (push_replacer c r u))) H"
    using holds_ok [OF assms(1)] unfolding q by (rule holds_unwinding)
  fix m r m' assume "unwinding K (union_handles u) (tr_ok f) m = Some (Ok r, m')"
  then show "\<forall>a. r = Some a \<longrightarrow> V a" using assms(2) by (auto simp: traced_Ok)
qed (use assms(3) in blast)

lemma holds_union:
  assumes "loose \<or> perms_shown P" and "processes_within P n" and "fits (3 + 3 * n) H"
  shows "holds loose H (UnionReplacer_prepare K P d p UnionReplacer_new) (\<lambda>u. H + mset (union_handles u)) H"
proof -
  note prep = holds_prepare [OF assms(1,2)] and len = prepare_length [OF assms(2)]
  let ?H = "\<lambda>u. H + mset (union_handles u)"
  have 3: "holds loose (?H u) (tr_then (unwinding K (union_handles u) (tr_ok (MmapReplacer_prepare K P d p))) (\<lambda>r.
      tr_return (push_replacer R_Mmap r u))) ?H H" if "fits (3 + n) (?H u)" for u
    by (rule holds_push [where V = "\<lambda>_. True" and c = R_Mmap]) (use prep(3) [OF that] in \<open>simp_all add: holds_return\<close>)
  have 2: "holds loose (?H u) (tr_then (unwinding K (union_handles u) (tr_ok (CwdReplacer_prepare K P d p))) (\<lambda>r.
      let u = push_replacer R_Cwd r u in
      tr_then (unwinding K (union_handles u) (tr_ok (MmapReplacer_prepare K P d p))) (\<lambda>r.
      tr_return (push_replacer R_Mmap r u)))) ?H H" if f: "fits (3 + n + n) (?H u)" for u
  proof (rule holds_push [where V = "\<lambda>r :: CwdReplacer. length (cwd_processes r) \<le> n" and c = R_Cwd])
    show "holds loose (?H u) (CwdReplacer_prepare K P d p) (\<lambda>a. ?H u + mset (replacer_handles (R_Cwd a))) (?H u)"
      using prep(2) [OF fits_less [OF f]] by simp
    fix r :: "CwdReplacer option" assume r: "\<And>a. r = Some a \<Longrightarrow> length (cwd_processes a) \<le> n"
    have "fits (3 + n) (?H (push_replacer R_Cwd r u))"
    proof (cases r)
      case (Some a)
      have "fits (3 + n + length (cwd_processes a)) (?H u)" by (rule fits_less [OF f]) (use r Some in simp)
      from fits_more [OF this] Some show ?thesis by (simp add: push_replacer_def add.assoc)
    qed (use fits_less [OF f] in \<open>simp add: push_replacer_def\<close>)
    from 3 [OF this] show "holds loose (?H (push_replacer R_Cwd r u)) (let u = push_replacer R_Cwd r u in
      tr_then (unwinding K (union_handles u) (tr_ok (MmapReplacer_prepare K P d p))) (\<lambda>r.
      tr_return (push_replacer R_Mmap r u))) ?H H" by (simp add: Let_def)
  qed (rule len(2))
  have "holds loose (?H []) (UnionReplacer_prepare K P d p []) ?H H"
    unfolding UnionReplacer_prepare_def
  proof (rule holds_push [where V = "\<lambda>accs. length accs \<le> n" and c = R_Fd])
    show "holds loose (?H []) (FdReplacer_prepare K P d p) (\<lambda>a. ?H [] + mset (replacer_handles (R_Fd a))) (?H [])"
      using prep(1) [OF fits_less [OF assms(3)]] by simp
    fix r :: "ProcessAccessor list option" assume r: "\<And>a. r = Some a \<Longrightarrow> length a \<le> n"
    have "fits (3 + n + n) (?H (push_replacer R_Fd r []))"
    proof (cases r)
      case (Some a)
      have "fits (3 + n + n + length (map acc_process a)) H" by (rule fits_less [OF assms(3)]) (use r Some in simp)
      from fits_more [OF this] Some show ?thesis by (simp add: push_replacer_def add.assoc)
    qed (use fits_less [OF assms(3)] in \<open>simp add: push_replacer_def\<close>)
    from 2 [OF this] show "holds loose (?H (push_replacer R_Fd r [])) (let u = push_replacer R_Fd r [] in
      tr_then (unwinding K (union_handles u) (tr_ok (CwdReplacer_prepare K P d p))) (\<lambda>r.
      let u = push_replacer R_Cwd r u in
      tr_then (unwinding K (union_handles u) (tr_ok (MmapReplacer_prepare K P d p))) (\<lambda>r.
      tr_return (push_replacer R_Mmap r u)))) ?H H" by (simp only: Let_def)
  qed (rule len(1))
  then show ?thesis by (simp add: UnionReplacer_new_def)
qed

lemma union_returns:
  assumes "holds False H (UnionReplacer_prepare K P d p u0) Q E" and "counts_handles H m"
  shows "\<exists>u m1. UnionReplacer_prepare K P d p u0 m = Some (Ok u, m1) \<and> counts_handles (Q u) m1"
proof -
  have "UnionReplacer_prepare K P d p u0 m \<noteq> Some (Err e, m')" for e m'
    by (auto simp: UnionReplacer_prepare_def tr_then_def unwinding_def tr_ok_def tr_return_def Let_def
        split: option.splits outcome.splits)
  then show ?thesis by (cases rule: holds_cases [OF assms]) auto
qed

text \<open>
  C7. Preparing, running and dropping the replacers lets go of every process: from any live
  handles, with fewer than \<open>2 ^ 31\<close> to come and permissions of four letters, \<open>prepare\<close> returns without
  a panic, whatever \<open>procfs\<close> and \<open>ptrace\<close> answer; then exactly the handles the replacers own are
  alive in addition; and when the replacers are dropped after a run that returned, failed or
  panicked, the counters are those of the handles from before.
\<close>

theorem replacers_detach:
  assumes "counts_handles H m" and "processes_within P n" and "\<forall>pid. count H pid + (3 + 3 * n) < 2 ^ 31"
    and "perms_shown P"
  shows "\<exists>u m1. UnionReplacer_prepare K P detect_path new_path UnionReplacer_new m = Some (Ok u, m1) \<and>
    counts_handles (H + mset (union_handles u)) m1 \<and>
    (\<forall>r m2. on_tracee (UnionReplacer_run assemble T u) m1 = Some (r, m2) \<longrightarrow> counts_handles H (UnionReplacer_drop K u m2))"
proof -
  have "holds False H (UnionReplacer_prepare K P detect_path new_path UnionReplacer_new) (\<lambda>u. H + mset (union_handles u)) H"
    using holds_union [OF _ assms(2)] assms(3,4) by (simp add: fits_def)
  from union_returns [OF this assms(1)] obtain u m1 where
    u: "UnionReplacer_prepare K P detect_path new_path UnionReplacer_new m = Some (Ok u, m1)"
      "counts_handles (H + mset (union_handles u)) m1" by blast
  moreover have "counts_handles H (UnionReplacer_drop K u m2)"
    if "on_tracee (UnionReplacer_run assemble T u) m1 = Some (r, m2)" for r m2
    unfolding UnionReplacer_drop_def
    by (rule counts_drops) (use that u(2) in \<open>auto simp: on_tracee_def counts_handles_def\<close>)
  ultimately show ?thesis by blast
qed

text \<open>One process with a descriptor, a working directory and a mapping below \<open>/d\<close>.\<close>

definition sample_proc :: "(nat \<times> i32 list) proc_calls" where
  "sample_proc =
     \<lparr>proc_all = (\<lambda>w. (Some [10], w)), proc_cmdline = (\<lambda>pid w. (Some [''sh''], w)), proc_cwd = (\<lambda>pid w. (Some ''/d/x'', w)),
      proc_fd = (\<lambda>pid w. (Some [(3, FD_Path ''/d/a'')], w)),
      proc_maps = (\<lambda>pid w. (Some [\<lparr>map_address = (0x1000, 0x2000), map_perms = ''rw-s'', map_offset = 0,
        map_pathname = MMap_Path ''/d/a''\<rparr>], w))\<rparr>"

text \<open>A process that is gone when the replacers run.\<close>

definition gone_tracee :: "'w tracee_calls" where
  "gone_tracee =
     \<lparr>pt_getregs = (\<lambda>pid w. (Inl (nix_Sys ESRCH), w)), pt_setregs = (\<lambda>pid r w. (Inl (nix_Sys ESRCH), w)),
      pt_read = (\<lambda>pid a w. (Inl (nix_Sys ESRCH), w)), pt_write = (\<lambda>pid a v w. (Inl (nix_Sys ESRCH), w)),
      pt_step = (\<lambda>pid w. (Inl (nix_Sys ESRCH), w)), pt_cont = (\<lambda>pid w. (Inl (nix_Sys ESRCH), w)),
      pt_waitpid = (\<lambda>pid w. (Inl (nix_Sys ESRCH), w)), vm_writev = (\<lambda>pid a bs w. (Inl (nix_Sys ESRCH), w))\<rparr>"

lemma sample_proc_ok:
  "counts_handles {#} sample_tracer" "processes_within sample_proc 1" "perms_shown sample_proc"
  by (simp_all add: counts_handles_def sample_tracer_def processes_within_def perms_shown_def sample_proc_def)

lemma sample_prepared:
  "\<exists>u m1. UnionReplacer_prepare sample_ptrace sample_proc ''/d'' ''/e'' UnionReplacer_new sample_tracer = Some (Ok u, m1)"
proof -
  have "holds False {#} (UnionReplacer_prepare sample_ptrace sample_proc ''/d'' ''/e'' UnionReplacer_new)
      (\<lambda>u. {#} + mset (union_handles u)) {#}"
    by (rule holds_union) (use sample_proc_ok in \<open>auto simp: fits_def\<close>)
  from union_returns [OF this sample_proc_ok(1)] show ?thesis by blast
qed

lemma replacers_detach_witness:
  "\<exists>u m1. UnionReplacer_prepare sample_ptrace sample_proc ''/d'' ''/e'' UnionReplacer_new sample_tracer = Some (Ok u, m1) \<and>
     counts_handles (mset (union_handles u)) m1 \<and>
     (\<forall>r m2. on_tracee (UnionReplacer_run (\<lambda>_ _ _. Inr []) gone_tracee u) m1 = Some (r, m2) \<longrightarrow>
        counts_handles {#} (UnionReplacer_drop sample_ptrace u m2))"
proof -
  show ?thesis
    using sample_proc_ok replacers_detach [of "{#}" sample_tracer sample_proc 1 sample_ptrace "''/d''" "''/e''" "\<lambda>_ _ _. Inr []" gone_tracee]
    by simp
qed

section \<open>What is prepared\<close>

text \<open>
  The iteration over the process ids \<open>pids\<close> from the state \<open>m\<close> comes to the process \<open>pid\<close> in the
  state \<open>n\<close>, with the processes before it filtered and visited.
\<close>

inductive comes_to ::
  "'w proc_calls \<Rightarrow> (i32 \<Rightarrow> ('w tracer, 'b option) traced) \<Rightarrow> i32 list \<Rightarrow> 'w tracer \<Rightarrow> i32 \<Rightarrow> 'w tracer \<Rightarrow> bool"
  for P visit where
  here: "comes_to P visit (pid # pids) m pid m"
| later: "keep_process P q m = Some (Ok keep, m1) \<Longrightarrow>
    (if keep then visit q else tr_return None) m1 = Some (Ok r, m2) \<Longrightarrow>
    comes_to P visit pids m2 pid n \<Longrightarrow> comes_to P visit (q # pids) m pid n"

lemma collect_members:
  assumes "collect_processes K P handle visit pids m = Some (Ok bs, m')" and "b \<in> set bs"
  shows "\<exists>pid n m2 m3. comes_to P visit pids m pid n \<and> keep_process P pid n = Some (Ok True, m2) \<and>
    visit pid m2 = Some (Ok (Some b), m3)"
  using assms
proof (induction pids arbitrary: m bs m')
  case (Cons pid pids)
  then obtain keep r cs m1 m2 m3 where k: "keep_process P pid m = Some (Ok keep, m1)"
    "(if keep then visit pid else tr_return None) m1 = Some (Ok r, m2)"
    "collect_processes K P handle visit pids m2 = Some (Ok cs, m3)" "bs = (case r of None \<Rightarrow> [] | Some b \<Rightarrow> [b]) @ cs"
    by (auto simp: traced_Ok)
  show ?case
  proof (cases "b \<in> set cs")
    case True
    from Cons(1) [OF k(3) this] comes_to.later [where visit = visit, OF k(1,2)] show ?thesis by metis
  next
    case False
    with k(4) Cons(3) have "r = Some b" by (auto split: option.splits)
    with k(1,2) have "keep" "visit pid m1 = Some (Ok (Some b), m2)" by (auto simp: tr_return_def split: if_splits)
    with k(1) comes_to.here show ?thesis by metis
  qed
qed (simp add: traced_Ok)

lemma world_Ok: "tr_world f m = Some (Ok a, m') \<longleftrightarrow> (\<exists>w. f (tracer_world m) = (a, w) \<and> m' = m\<lparr>tracer_world := w\<rparr>)"
  by (auto simp: tr_world_def split: prod.split)

lemma handle_Ok: "with_handle K h f m = Some (Ok a, m') \<longleftrightarrow> (\<exists>m1. f m = Some (Ok a, m1) \<and> m' = TracedProcess_drop K h m1)"
  by (auto simp: with_handle_def)

lemma trace_Ok: "tr_trace K pid m = Some (Ok h, m') \<Longrightarrow> h = pid"
  by (cases "PtraceManager_trace K pid m"; cases "fst (the (PtraceManager_trace K pid m))")
     (auto simp: tr_trace_def dest: trace_result(1))

text \<open>
  A replacer that starts in the state \<open>m\<close> lists the processes there and comes to \<open>pid\<close>, whose command
  line is then read; the process passes the filter when no argument contains the word toda, or when
  the command line cannot be read. \<open>n\<close> is the state after that reading.
\<close>

definition kept ::
  "'w proc_calls \<Rightarrow> (i32 \<Rightarrow> ('w tracer, 'b option) traced) \<Rightarrow> 'w tracer \<Rightarrow> i32 \<Rightarrow> 'w tracer \<Rightarrow> bool" where
  "kept P visit m pid n \<longleftrightarrow> (\<exists>pids w n0 r v. proc_all P (tracer_world m) = (Some pids, w) \<and>
     comes_to P visit pids (m\<lparr>tracer_world := w\<rparr>) pid n0 \<and>
     proc_cmdline P pid (tracer_world n0) = (r, v) \<and> n = n0\<lparr>tracer_world := v\<rparr> \<and>
     (\<forall>cmdline. r = Some cmdline \<longrightarrow> \<not> list_ex contains_toda cmdline))"

lemma keep_Ok: "keep_process P pid m = Some (Ok True, m') \<Longrightarrow>
  \<exists>r v. proc_cmdline P pid (tracer_world m) = (r, v) \<and> m' = m\<lparr>tracer_world := v\<rparr> \<and>
    (\<forall>cmdline. r = Some cmdline \<longrightarrow> \<not> list_ex contains_toda cmdline)"
  unfolding keep_process_def by (auto simp: traced_Ok world_Ok split: option.splits)

lemma collect_kept:
  assumes "tr_then (all_processes P) (collect_processes K P handle visit) m = Some (Ok bs, m')" and "b \<in> set bs"
  shows "\<exists>pid n n'. kept P visit m pid n \<and> visit pid n = Some (Ok (Some b), n')"
proof -
  from assms(1) obtain pids w where p: "proc_all P (tracer_world m) = (Some pids, w)"
    and c: "collect_processes K P handle visit pids (m\<lparr>tracer_world := w\<rparr>) = Some (Ok bs, m')"
    by (auto simp: all_processes_def traced_Ok world_Ok tr_raise_def split: option.splits)
  from collect_members [OF c assms(2)] obtain pid n0 m2 m3 where
    "comes_to P visit pids (m\<lparr>tracer_world := w\<rparr>) pid n0" "keep_process P pid n0 = Some (Ok True, m2)"
    "visit pid m2 = Some (Ok (Some b), m3)" by blast
  with p keep_Ok show ?thesis unfolding kept_def by metis
qed

lemma fd_process_Ok:
  assumes "fd_process K P detect_path new_path pid m = Some (Ok (Some acc), m')"
  shows "\<exists>m1 entries w. tr_trace K pid m = Some (Ok pid, m1) \<and> proc_fd P pid (tracer_world m1) = (Some entries, w) \<and>
    fd_items detect_path new_path entries \<noteq> [] \<and>
    acc = FdBuilder_build (FdBuilder_from_iter (fd_items detect_path new_path entries)) pid"
proof -
  from assms obtain h0 m1 m2 entries w where t: "tr_trace K pid m = Some (Ok h0, m1)"
    and r: "proc_fd P pid (tracer_world m1) = (Some entries, w)"
    and g: "fd_group K pid (fd_items detect_path new_path entries) (m1\<lparr>tracer_world := w\<rparr>) = Some (Ok (Some acc), m2)"
    unfolding fd_process_def by (auto simp: traced_Ok world_Ok handle_Ok split: option.splits)
  from g obtain m3 h m4 where "fd_items detect_path new_path entries \<noteq> []"
      "tr_trace K pid m3 = Some (Ok h, m4)" "acc = FdBuilder_build (FdBuilder_from_iter (fd_items detect_path new_path entries)) h"
    unfolding fd_group_def by (auto simp: traced_Ok handle_Ok eq_commute [of "Some acc"] split: list.splits)
  with r t trace_Ok show ?thesis by metis
qed

lemma cwd_process_Ok:
  assumes "cwd_process K P detect_path pid m = Some (Ok (Some h), m')"
  shows "h = pid \<and> (\<exists>cwd w. proc_cwd P pid (tracer_world m) = (Some cwd, w) \<and> starts_with cwd detect_path)"
  using assms trace_Ok unfolding cwd_process_def
  by (auto simp: traced_Ok world_Ok split: option.splits if_splits) blast+

lemma mmap_group_Ok:
  "mmap_group K pid d p grp items es m = Some (Ok (Some acc), m') \<Longrightarrow>
   \<exists>its. mmap_items d p es = Some its \<and> (grp = None \<longrightarrow> its \<noteq> []) \<and> (\<forall>g. grp = Some g \<longrightarrow> g \<noteq> None) \<and>
     acc = MmapBuilder_build (MmapBuilder_from_iter (items @ its)) (case Option.bind grp id of None \<Rightarrow> pid | Some h \<Rightarrow> h)"
proof (induction es arbitrary: grp items m)
  case Nil
  then obtain h where "grp = Some (Some h)" "acc = MmapBuilder_build (MmapBuilder_from_iter items) h"
    by (cases grp; cases "the grp") (auto simp: traced_Ok)
  then show ?case by simp
next
  case (Cons e es)
  obtain x where x: "mmap_case e = Some x" using Cons(2) by (cases "mmap_case e") (auto simp: tr_panic_def)
  show ?case
  proof (cases x)
    case None
    with x Cons show ?thesis by simp
  next
    case (Some c)
    show ?thesis
    proof (cases "mmap_item d p c")
      case None
      with x Some Cons(2) obtain m1 where "mmap_group K pid d p grp items es m1 = Some (Ok (Some acc), m')"
        by (auto simp: traced_Ok handle_Ok)
      from Cons(1) [OF this] x Some None show ?thesis by simp
    next
      case c: (Some c')
      with x Some Cons(2) obtain g m1 m2 m3 where
        g: "mmap_group K pid d p (Some g) (items @ [c']) es m1 = Some (Ok (Some acc), m')"
        and "grp = Some g \<or> grp = None \<and> tr_ok (tr_trace K pid) m2 = Some (Ok g, m3)"
        by (cases grp) (auto simp: traced_Ok handle_Ok)
      moreover from Cons(1) [OF g] obtain h where "g = Some h" by auto
      ultimately have "grp = Some (Some h) \<or> grp = None \<and> h = pid" using trace_Ok by (auto simp: traced_Ok)
      with Cons(1) [OF g] x Some c \<open>g = Some h\<close> show ?thesis by auto
    qed
  qed
qed

lemma mmap_process_Ok:
  assumes "mmap_process K P detect_path new_path pid m = Some (Ok (Some acc), m')"
  shows "\<exists>m1 maps w items. tr_trace K pid m = Some (Ok pid, m1) \<and> proc_maps P pid (tracer_world m1) = (Some maps, w) \<and>
    mmap_items detect_path new_path maps = Some items \<and> items \<noteq> [] \<and> acc = MmapBuilder_build (MmapBuilder_from_iter items) pid"
proof -
  from assms obtain h m1 m2 maps w where "tr_trace K pid m = Some (Ok h, m1)" "proc_maps P pid (tracer_world m1) = (Some maps, w)"
    and "mmap_group K pid detect_path new_path None [] maps (m1\<lparr>tracer_world := w\<rparr>) = Some (Ok (Some acc), m2)"
    unfolding mmap_process_def by (auto simp: traced_Ok world_Ok handle_Ok split: option.splits)
  from this(1,2) mmap_group_Ok [OF this(3)] trace_Ok show ?thesis by fastforce
qed

text \<open>What a replacer that started in the state \<open>m\<close> has prepared.\<close>

definition fd_prepared ::
  "'w ptrace_calls \<Rightarrow> 'w proc_calls \<Rightarrow> path \<Rightarrow> path \<Rightarrow> 'w tracer \<Rightarrow> ProcessAccessor \<Rightarrow> bool" where
  "fd_prepared K P d p m acc \<longleftrightarrow> (\<exists>pid n n1 entries w. kept P (fd_process K P d p) m pid n \<and>
     tr_trace K pid n = Some (Ok pid, n1) \<and> proc_fd P pid (tracer_world n1) = (Some entries, w) \<and>
     fd_items d p entries \<noteq> [] \<and> acc = FdBuilder_build (FdBuilder_from_iter (fd_items d p entries)) pid)"

definition cwd_prepared :: "'w ptrace_calls \<Rightarrow> 'w proc_calls \<Rightarrow> path \<Rightarrow> 'w tracer \<Rightarrow> i32 \<Rightarrow> bool" where
  "cwd_prepared K P d m pid \<longleftrightarrow> (\<exists>n cwd w. kept P (cwd_process K P d) m pid n \<and>
     proc_cwd P pid (tracer_world n) = (Some cwd, w) \<and> starts_with cwd d)"

definition mmap_prepared ::
  "'w ptrace_calls \<Rightarrow> 'w proc_calls \<Rightarrow> path \<Rightarrow> path \<Rightarrow> 'w tracer \<Rightarrow> MmapAccessor \<Rightarrow> bool" where
  "mmap_prepared K P d p m acc \<longleftrightarrow> (\<exists>pid n n1 maps w items. kept P (mmap_process K P d p) m pid n \<and>
     tr_trace K pid n = Some (Ok pid, n1) \<and> proc_maps P pid (tracer_world n1) = (Some maps, w) \<and>
     mmap_items d p maps = Some items \<and> items \<noteq> [] \<and> acc = MmapBuilder_build (MmapBuilder_from_iter items) pid)"

lemma prepare_Ok:
  shows "FdReplacer_prepare K P d p m = Some (Ok accs, m') \<Longrightarrow> acc \<in> set accs \<Longrightarrow> fd_prepared K P d p m acc"
    and "CwdReplacer_prepare K P d p m = Some (Ok r, m') \<Longrightarrow>
      cwd_new_path r = p \<and> (\<forall>pid \<in> set (cwd_processes r). cwd_prepared K P d m pid)"
    and "MmapReplacer_prepare K P d p m = Some (Ok maccs, m') \<Longrightarrow> macc \<in> set maccs \<Longrightarrow> mmap_prepared K P d p m macc"
proof -
  assume "FdReplacer_prepare K P d p m = Some (Ok accs, m')" "acc \<in> set accs"
  from collect_kept [OF this [unfolded FdReplacer_prepare_def]] fd_process_Ok show "fd_prepared K P d p m acc"
    unfolding fd_prepared_def by metis
next
  assume "CwdReplacer_prepare K P d p m = Some (Ok r, m')"
  then have r: "cwd_new_path r = p" and c: "tr_then (all_processes P) (collect_processes K P id (cwd_process K P d)) m =
      Some (Ok (cwd_processes r), m')"
    unfolding CwdReplacer_prepare_def by (auto simp: traced_Ok)
  have "cwd_prepared K P d m pid" if "pid \<in> set (cwd_processes r)" for pid
    using collect_kept [OF c that] cwd_process_Ok unfolding cwd_prepared_def by metis
  with r show "cwd_new_path r = p \<and> (\<forall>pid \<in> set (cwd_processes r). cwd_prepared K P d m pid)" by blast
next
  assume "MmapReplacer_prepare K P d p m = Some (Ok maccs, m')" "macc \<in> set maccs"
  from collect_kept [OF this [unfolded MmapReplacer_prepare_def]] mmap_process_Ok show "mmap_prepared K P d p m macc"
    unfolding mmap_prepared_def by metis
qed

text \<open>
  C22. What is prepared, in terms of what the run itself reads: each replacer lists the processes in
  the state the one before it left, and every process that is going to be changed is one the
  listing came to and whose command line, read then, has no argument with the word toda in it or
  could not be read. A descriptor accessor is the one built from all chosen descriptors that were
  read of its process right after it was traced, a mapping accessor the one built from all chosen
  mappings read there, and neither is empty; a working directory is changed only where the one
  read lies below the directory, and always to the new path itself.
\<close>

theorem union_prepared:
  assumes "UnionReplacer_prepare K P d p UnionReplacer_new m = Some (Ok u, m')"
  shows "\<exists>f c g m1 m2. tr_ok (FdReplacer_prepare K P d p) m = Some (Ok f, m1) \<and>
    tr_ok (CwdReplacer_prepare K P d p) m1 = Some (Ok c, m2) \<and>
    tr_ok (MmapReplacer_prepare K P d p) m2 = Some (Ok g, m') \<and>
    u = push_replacer R_Mmap g (push_replacer R_Cwd c (push_replacer R_Fd f [])) \<and>
    (\<forall>accs. f = Some accs \<longrightarrow> (\<forall>acc \<in> set accs. fd_prepared K P d p m acc)) \<and>
    (\<forall>r. c = Some r \<longrightarrow> cwd_new_path r = p \<and> (\<forall>pid \<in> set (cwd_processes r). cwd_prepared K P d m1 pid)) \<and>
    (\<forall>accs. g = Some accs \<longrightarrow> (\<forall>acc \<in> set accs. mmap_prepared K P d p m2 acc))"
proof -
  obtain f c g m1 m2 where u: "u = push_replacer R_Mmap g (push_replacer R_Cwd c (push_replacer R_Fd f []))"
    and o: "tr_ok (FdReplacer_prepare K P d p) m = Some (Ok f, m1)" "tr_ok (CwdReplacer_prepare K P d p) m1 = Some (Ok c, m2)"
      "tr_ok (MmapReplacer_prepare K P d p) m2 = Some (Ok g, m')"
    using assms unfolding UnionReplacer_prepare_def UnionReplacer_new_def Let_def
    by (auto simp: traced_Ok)
  have "f = Some accs \<Longrightarrow> FdReplacer_prepare K P d p m = Some (Ok accs, m1)"
    "c = Some r \<Longrightarrow> CwdReplacer_prepare K P d p m1 = Some (Ok r, m2)"
    "g = Some maccs \<Longrightarrow> MmapReplacer_prepare K P d p m2 = Some (Ok maccs, m')" for accs r maccs
    using o by (auto simp: ok_Ok)
  note p = this(1) [THEN prepare_Ok(1)] this(2) [THEN prepare_Ok(2)] this(3) [THEN prepare_Ok(3)]
  show ?thesis
    using u o p by (intro exI [of _ f] exI [of _ c] exI [of _ g] exI [of _ m1] exI [of _ m2]) blast
qed

lemma sample_trace:
  "PtraceManager_trace sample_ptrace 10 sample_tracer = Some (Inr 10, \<lparr>counter = [10 \<mapsto> 1], tracer_world = (4, [11, 10])\<rparr>)"
  "PtraceManager_trace sample_ptrace 10 \<lparr>counter = [10 \<mapsto> n], tracer_world = w\<rparr> =
     Some (Inr 10, \<lparr>counter = [10 \<mapsto> n + 1], tracer_world = w\<rparr>)"
  by (simp_all add: PtraceManager_trace_def sample_tracer_def sample_attach)

lemma sample_drop:
  "TracedProcess_drop sample_ptrace 10 \<lparr>counter = [10 \<mapsto> 2], tracer_world = w\<rparr> = \<lparr>counter = [10 \<mapsto> 1], tracer_world = w\<rparr>"
  "TracedProcess_drop sample_ptrace 10 \<lparr>counter = [10 \<mapsto> 3], tracer_world = w\<rparr> = \<lparr>counter = [10 \<mapsto> 2], tracer_world = w\<rparr>"
  by (simp_all add: TracedProcess_drop_def PtraceManager_detach_def Let_def)

lemma sample_fd:
  "FdReplacer_prepare sample_ptrace sample_proc ''/d'' ''/e'' sample_tracer =
     Some (Ok [FdBuilder_build (FdBuilder_from_iter [(3, ''/e/a'')]) 10], \<lparr>counter = [10 \<mapsto> 1], tracer_world = (4, [11, 10])\<rparr>)"
proof -
  have i: "fd_items ''/d'' ''/e'' [(3, FD_Path ''/d/a'')] = [(3, ''/e/a'')]" "contains_toda ''sh'' = False" by code_simp+
  have t: "sample_tracer\<lparr>tracer_world := tracer_world sample_tracer\<rparr> = sample_tracer" by simp
  show ?thesis
    using i by (simp add: FdReplacer_prepare_def all_processes_def keep_process_def fd_process_def fd_group_def sample_proc_def
        tr_then_def tr_world_def tr_return_def tr_ok_def tr_trace_def tr_clone_def TracedProcess_clone_def with_handle_def
        unwinding_def sample_trace sample_drop t)
qed

lemma union_prepared_witness:
  "\<exists>u m1. UnionReplacer_prepare sample_ptrace sample_proc ''/d'' ''/e'' UnionReplacer_new sample_tracer = Some (Ok u, m1) \<and>
     R_Fd [FdBuilder_build (FdBuilder_from_iter [(3, ''/e/a'')]) 10] \<in> set u \<and>
     fd_prepared sample_ptrace sample_proc ''/d'' ''/e'' sample_tracer (FdBuilder_build (FdBuilder_from_iter [(3, ''/e/a'')]) 10)"
proof -
  obtain u m1 where u: "UnionReplacer_prepare sample_ptrace sample_proc ''/d'' ''/e'' UnionReplacer_new sample_tracer = Some (Ok u, m1)"
    using sample_prepared by blast
  have "tr_ok (FdReplacer_prepare sample_ptrace sample_proc ''/d'' ''/e'') sample_tracer =
      Some (Ok (Some [FdBuilder_build (FdBuilder_from_iter [(3, ''/e/a'')]) 10]), \<lparr>counter = [10 \<mapsto> 1], tracer_world = (4, [11, 10])\<rparr>)"
    by (simp add: tr_ok_def sample_fd)
  with union_prepared [OF u] u show ?thesis by (auto simp: push_replacer_def split: option.splits)
qed

end
