(* ===== verification/Program.thy ===== *)
theory Program
  imports Replacer_Handles Mount_Injector
begin

text \<open>
  \<open>src/main.rs\<close>: the whole program. \<open>inject\<close> mounts the file system and moves the processes that
  use the directory onto it, \<open>resume\<close> takes both back, and \<open>main\<close> waits for a signal in between.
  The state is the process itself: the world, the slot of the runtime and the counters of the
  \<open>ptrace\<close> manager.
\<close>

section \<open>State and calls\<close>

record 'v toda =
  td_host :: "'v host"
  td_counter :: "i32 \<rightharpoonup> i32"

text \<open>
  Everything outside: the calls of the parts, \<open>canonicalize\<close>, and the signal pipe. Reading from it
  blocks while it is empty; \<open>None\<close> where nothing is ever written.
\<close>

record 'v os_env =
  sys_mounts :: "'v mount_calls"
  sys_ptrace :: "'v ptrace_calls"
  sys_proc :: "'v proc_calls"
  sys_tracee :: "'v tracee_calls"
  sys_assemble :: assembler
  sys_canonicalize :: "path \<Rightarrow> 'v \<Rightarrow> path option \<times> 'v"
  sys_pipe :: "'v \<Rightarrow> (nix_error + unit) \<times> 'v"
  sys_signal :: "nat \<Rightarrow> 'v \<Rightarrow> (nix_error + unit) \<times> 'v"
  sys_write_signal :: "u8 list \<Rightarrow> 'v \<Rightarrow> (nix_error + nat) \<times> 'v"
  sys_read_signal :: "nat \<Rightarrow> 'v \<Rightarrow> ((nix_error + u8 list) \<times> 'v) option"

record Options =
  opt_path :: path
  opt_mount_only :: bool

definition on_process :: "('v host, anyhow, 'a) prog \<Rightarrow> ('v toda, 'a) traced" where
  "on_process m = (\<lambda>s. case m (td_host s) of (r, h) \<Rightarrow> Some (r, s\<lparr>td_host := h\<rparr>))"

definition to_tracer :: "'v toda \<Rightarrow> 'v tracer" where
  "to_tracer s = \<lparr>counter = td_counter s, tracer_world = host_world (td_host s)\<rparr>"

definition of_tracer :: "'v tracer \<Rightarrow> 'v toda \<Rightarrow> 'v toda" where
  "of_tracer m s = s\<lparr>td_host := (td_host s)\<lparr>host_world := tracer_world m\<rparr>, td_counter := counter m\<rparr>"

definition on_tracer :: "('v tracer, 'a) traced \<Rightarrow> ('v toda, 'a) traced" where
  "on_tracer f = (\<lambda>s. map_option (\<lambda>(r, m). (r, of_tracer m s)) (f (to_tracer s)))"

abbreviation on_world :: "('v, anyhow, 'a) prog \<Rightarrow> ('v toda, 'a) traced" where
  "on_world m \<equiv> on_process (on_host m)"

section \<open>inject and resume\<close>

definition canonicalize :: "'v os_env \<Rightarrow> path \<Rightarrow> ('v, anyhow, path) prog" where
  "canonicalize S path = (\<lambda>w. case sys_canonicalize S path w of
       (None, w') \<Rightarrow> (Err From_io, w')
     | (Some p, w') \<Rightarrow> (Ok p, w'))"

text \<open>\<open>mount\<close> with the \<open>unwrap_or_else\<close> that panics.\<close>

definition mount_or_panic :: "'v os_env \<Rightarrow> path option \<Rightarrow> path \<Rightarrow> ms_flag \<Rightarrow> ('v, anyhow, unit) prog" where
  "mount_or_panic S src tgt flag = (\<lambda>w. case os_mount (sys_mounts S) src tgt flag w of
       (Inl _, w') \<Rightarrow> (Panic, w')
     | (Inr _, w') \<Rightarrow> (Ok (), w'))"

text \<open>An error that is only logged.\<close>

definition logged :: "('s, 'a) traced \<Rightarrow> ('s, unit) traced" where
  "logged f = tr_then (tr_ok f) (\<lambda>_. tr_return ())"

definition prepare_replacer :: "'v os_env \<Rightarrow> Options \<Rightarrow> path \<Rightarrow> path \<Rightarrow> ('v toda, UnionReplacer option) traced" where
  "prepare_replacer S opts detect_path new_path =
     (if \<not> opt_mount_only opts
      then tr_then (on_tracer (UnionReplacer_prepare (sys_ptrace S) (sys_proc S) detect_path new_path UnionReplacer_new))
             (\<lambda>replacer. tr_return (Some replacer))
      else tr_return None)"

definition run_replacer :: "'v os_env \<Rightarrow> UnionReplacer option \<Rightarrow> ('v toda, unit) traced" where
  "run_replacer S r = (case r of
       None \<Rightarrow> tr_return ()
     | Some replacer \<Rightarrow> on_tracer (on_tracee (UnionReplacer_run (sys_assemble S) (sys_tracee S) replacer)))"

text \<open>The replacers are dropped on every way out of the code that holds them.\<close>

definition with_replacer :: "'v os_env \<Rightarrow> UnionReplacer option \<Rightarrow> ('v toda, 'a) traced \<Rightarrow> ('v toda, 'a) traced" where
  "with_replacer S r f = (\<lambda>s. map_option (\<lambda>(x, s').
     (x, case r of None \<Rightarrow> s' | Some u \<Rightarrow> of_tracer (UnionReplacer_drop (sys_ptrace S) u (to_tracer s')) s')) (f s))"

definition toda_inject ::
  "('w, 'f, 'd) env \<Rightarrow> 'v os_env \<Rightarrow> Options \<Rightarrow> InjectorConfig list \<Rightarrow> ('v toda, ('f, 'd) MountInjectionGuard) traced" where
  "toda_inject E S opts injector_config =
     tr_then (on_world (canonicalize S (opt_path opts))) (\<lambda>path.
     tr_then (on_world (mount_or_panic S None path MS_PRIVATE)) (\<lambda>_.
     tr_then (on_world (mount_or_panic S (Some path) path MS_BIND)) (\<lambda>_.
     tr_then (prepare_replacer S opts path path) (\<lambda>replacer.
     tr_then (with_replacer S replacer
       (tr_then (logged (on_world (mkfuse_node (sys_mounts S)))) (\<lambda>_.
        case MountInjector_create_injection (opt_path opts) injector_config of
          Inl e \<Rightarrow> tr_raise e
        | Inr injection \<Rightarrow>
            tr_then (on_process (MountInjector_mount E (sys_mounts S) injection)) (\<lambda>mount_guard.
            tr_then (run_replacer S replacer) (\<lambda>_.
            tr_return mount_guard))))) (\<lambda>mount_guard.
     tr_return (MountInjectionGuard_enable_injection mount_guard))))))"

definition toda_resume :: "'v os_env \<Rightarrow> Options \<Rightarrow> ('f, 'd) MountInjectionGuard \<Rightarrow> ('v toda, unit) traced" where
  "toda_resume S opts mount_guard =
     (let mount_guard = MountInjectionGuard_disable_injection mount_guard in
      tr_then (on_world (canonicalize S (opt_path opts))) (\<lambda>path.
      case encode_path path of
        Inl e \<Rightarrow> tr_raise e
      | Inr (_, new_path) \<Rightarrow>
          tr_then (prepare_replacer S opts path new_path) (\<lambda>replacer.
          with_replacer S replacer
            (tr_then (logged (run_replacer S replacer)) (\<lambda>_.
             on_process (MountInjectionGuard_recover_mount (sys_mounts S) mount_guard))))))"

section \<open>main\<close>

definition SIGNAL_MSG :: "u8 list" where
  "SIGNAL_MSG = bytes_of ''SIGNAL''"

text \<open>The handler of both signals; \<open>unwrap\<close> panics where the write fails.\<close>

definition signal_handler :: "'v os_env \<Rightarrow> ('v, anyhow, unit) prog" where
  "signal_handler S = (\<lambda>w. case sys_write_signal S SIGNAL_MSG w of
       (Inl _, w') \<Rightarrow> (Panic, w')
     | (Inr _, w') \<Rightarrow> (Ok (), w'))"

text \<open>
  The server thread that \<open>main\<close> starts works on the shared file system only; what it and the
  requests do meanwhile happens while \<open>wait_for_signal\<close> blocks. What it reads is thrown away.
\<close>

definition wait_for_signal :: "'v os_env \<Rightarrow> ('v toda, unit) traced" where
  "wait_for_signal S = (\<lambda>s. case sys_read_signal S 6 (host_world (td_host s)) of
       None \<Rightarrow> None
     | Some (r, w) \<Rightarrow>
         Some (case r of Inl e \<Rightarrow> Err (From_nix e) | Inr _ \<Rightarrow> Ok (), s\<lparr>td_host := (td_host s)\<lparr>host_world := w\<rparr>\<rparr>))"

definition toda_main :: "('w, 'f, 'd) env \<Rightarrow> 'v os_env \<Rightarrow> Options \<Rightarrow> ('v toda, unit) traced" where
  "toda_main E S opts =
     tr_then (on_world (nix_result (sys_pipe S))) (\<lambda>_.
     tr_then (on_world (nix_result (sys_signal S 2))) (\<lambda>_.
     tr_then (on_world (nix_result (sys_signal S 15))) (\<lambda>_.
     tr_then (tr_ok (toda_inject E S opts [])) (\<lambda>mount_injector.
     tr_then (wait_for_signal S) (\<lambda>_.
     case mount_injector of
       None \<Rightarrow> tr_return ()
     | Some v \<Rightarrow> toda_resume S opts v)))))"

end
