(* ===== verification/Returns.thy ===== *)
theory Returns
  imports Program
begin

text \<open>
  Whether the program returns. Attaching to a process always does; waiting for the trap of a
  stopped process does as long as only finitely many other signals are pending for it; and \<open>main\<close>
  does once a signal is written to its pipe.
\<close>

section \<open>Computations that return\<close>

definition returns :: "('w, 'a) traced \<Rightarrow> bool" where
  "returns f \<longleftrightarrow> (\<forall>w. f w \<noteq> None)"

lemma returns_simple:
  "returns (tr_return a)" "returns (tr_raise e)" "returns tr_panic" "returns (tr_call c)" "returns (tr_world g)"
  "returns (on_process p)"
  by (simp_all add: returns_def tr_return_def tr_raise_def tr_panic_def tr_call_def tr_world_def on_process_def split: prod.split)

lemma returns_then: "returns f \<Longrightarrow> (\<And>a. returns (g a)) \<Longrightarrow> returns (tr_then f g)"
  by (auto simp: returns_def tr_then_def split: option.split outcome.split)

lemma returns_wrapped:
  "returns f \<Longrightarrow> returns (tr_ok f)" "returns g \<Longrightarrow> returns (with_handle K h g)" "returns g \<Longrightarrow> returns (unwinding K hs g)"
  "returns k \<Longrightarrow> returns (on_tracee k)" "returns g \<Longrightarrow> returns (on_tracer g)" "returns l \<Longrightarrow> returns (with_replacer S r l)"
  "returns f \<Longrightarrow> returns (logged f)"
  by (simp_all add: returns_def tr_ok_def with_handle_def unwinding_def on_tracee_def on_tracer_def with_replacer_def logged_def
      tr_then_def tr_return_def split: option.split outcome.split)

lemma returns_case:
  "(\<And>a. x = Inl a \<Longrightarrow> returns (f a)) \<Longrightarrow> (\<And>b. x = Inr b \<Longrightarrow> returns (g b)) \<Longrightarrow> returns (case x of Inl a \<Rightarrow> f a | Inr b \<Rightarrow> g b)"
  "returns h \<Longrightarrow> (\<And>c. returns (k c)) \<Longrightarrow> returns (case y of None \<Rightarrow> h | Some c \<Rightarrow> k c)"
  "returns h \<Longrightarrow> returns h' \<Longrightarrow> returns (if c then h else h')"
  by (simp_all split: sum.split option.split)

lemma returns_trace: "returns (tr_trace K pid)" "returns (tr_clone K pid)"
  using trace_returns by (auto simp: returns_def tr_trace_def tr_clone_def TracedProcess_clone_def)

lemmas returns_intros = returns_simple returns_then returns_wrapped returns_case returns_trace

section \<open>The traced process\<close>

text \<open>
  A stop that is not the trap delivers a pending signal of the traced process; only finitely many
  are pending, and the other calls add none.
\<close>

definition signals_run_out :: "('w \<Rightarrow> nat) \<Rightarrow> 'w tracee_calls \<Rightarrow> bool" where
  "signals_run_out pending T \<longleftrightarrow>
     (\<forall>pid w w'. pt_waitpid T pid w = (Inr Wait_other, w') \<longrightarrow> pending w' < pending w) \<and>
     (\<forall>pid w. pending (snd (pt_step T pid w)) \<le> pending w) \<and> (\<forall>pid w. pending (snd (pt_cont T pid w)) \<le> pending w) \<and>
     (\<forall>pid w. pending (snd (pt_getregs T pid w)) \<le> pending w)"

lemma signals_run_outD:
  assumes "signals_run_out pending T"
  shows "pt_waitpid T pid w = (Inr Wait_other, w') \<Longrightarrow> pending w' < pending w"
    and "pt_step T pid w = (x, w') \<Longrightarrow> pending w' \<le> pending w" and "pt_cont T pid w = (x, w') \<Longrightarrow> pending w' \<le> pending w"
    and "pt_getregs T pid w = (y, w') \<Longrightarrow> pending w' \<le> pending w"
  using assms unfolding signals_run_out_def by (blast | metis snd_conv)+

lemma wait_trap_returns:
  assumes "signals_run_out pending T"
  shows "returns (wait_trap T pid)"
proof -
  have "wait_trap T pid w \<noteq> None" for w
  proof (induction "pending w" arbitrary: w rule: less_induct)
    case less
    obtain x w1 where x: "pt_waitpid T pid w = (x, w1)" by fastforce
    obtain z w2 where z: "pt_step T pid w1 = (z, w2)" by fastforce
    have "x = Inr Wait_other \<Longrightarrow> pending w2 < pending w"
      using signals_run_outD(1) [OF assms, of pid w w1] signals_run_outD(2) [OF assms z] x by simp
    with less [of w2] x z show ?case
      by (subst wait_trap.simps) (auto split: sum.split wait_status.split)
  qed
  then show ?thesis by (simp add: returns_def)
qed

lemma cont_trap_returns:
  assumes "signals_run_out pending T"
  shows "returns (cont_trap T pid)"
proof -
  have "cont_trap T pid w \<noteq> None" for w
  proof (induction "pending w" arbitrary: w rule: less_induct)
    case less
    obtain x w1 where x: "pt_cont T pid w = (x, w1)" by fastforce
    obtain y w2 where y: "pt_waitpid T pid w1 = (y, w2)" by fastforce
    obtain z w3 where z: "pt_getregs T pid w2 = (z, w3)" by fastforce
    have "y = Inr Wait_other \<Longrightarrow> pending w3 < pending w"
      using signals_run_outD(1) [OF assms, of pid w1 w2] signals_run_outD(3) [OF assms x] signals_run_outD(4) [OF assms z] y
      by simp
    with less [of w3] x y z show ?case
      by (subst cont_trap.simps) (auto split: sum.split wait_status.split)
  qed
  then show ?thesis by (simp add: returns_def)
qed

lemma protect_returns: "returns f \<Longrightarrow> returns (with_protect T pid f)"
  unfolding with_protect_def TracedProcess_protect_def
  by (intro returns_intros) (auto simp: returns_def split: option.split prod.split bool.split)

lemma syscall_returns:
  assumes "signals_run_out pending T"
  shows "returns (TracedProcess_syscall T pid ident args)"
  unfolding TracedProcess_syscall_def Let_def
  by (intro protect_returns returns_intros wait_trap_returns [OF assms])

lemma with_mmap_returns:
  assumes "signals_run_out pending T" and "\<And>addr. returns (f addr)"
  shows "returns (with_mmap T pid len f)"
  unfolding with_mmap_def TracedProcess_mmap_def TracedProcess_munmap_def Let_def
  by (intro returns_intros syscall_returns [OF assms(1)] assms(2))

lemma union_run_returns:
  assumes "signals_run_out pending T"
  shows "returns (UnionReplacer_run assemble T u)"
proof -
  have code: "returns (TracedProcess_run_codes T pid codes)" for pid codes
    unfolding TracedProcess_run_codes_def TracedProcess_write_mem_def split_def
    by (intro returns_intros with_mmap_returns [OF assms] protect_returns cont_trap_returns [OF assms])
  have "returns (TracedProcess_chdir T pid filename)" for pid filename
    unfolding TracedProcess_chdir_def TracedProcess_write_mem_def Let_def
    by (intro returns_intros syscall_returns [OF assms] with_mmap_returns [OF assms])
  then have "returns (chdir_all T p ps)" for p ps
    by (induction ps) (auto intro: returns_intros)
  moreover have "returns (FdReplacer_run assemble T accs)" for accs
    by (induction accs) (auto simp: FdAccessor_run_def intro: returns_intros code)
  moreover have "returns (MmapReplacer_run assemble T accs)" for accs
    by (induction accs) (auto simp: MmapAccessor_run_def intro: returns_intros code)
  ultimately have "returns (Replacer_run assemble T r)" for r
    by (cases r) (simp_all add: CwdReplacer_run_def)
  then show ?thesis by (induction u) (auto intro: returns_intros)
qed

section \<open>Preparing\<close>

lemma prepare_returns: "returns (UnionReplacer_prepare K P d p u)"
proof -
  have keep: "returns (keep_process P pid)" for pid
    unfolding keep_process_def by (intro returns_intros)
  have collect: "returns (collect_processes K P handle visit pids)"
    if "\<And>pid. returns (visit pid)" for handle and visit :: "i32 \<Rightarrow> ('a tracer, 'x option) traced" and pids
    by (induction pids) (auto intro!: returns_intros keep that)
  have pass: "returns (pass_items K pid is)" for pid and "is" :: "'x list"
    by (induction "is") (auto intro!: returns_intros)
  have "returns (fd_group K pid items)" for pid items
    unfolding fd_group_def by (cases items) (auto intro!: returns_intros pass)
  then have fd: "returns (fd_process K P d p pid)" for pid
    unfolding fd_process_def by (intro returns_intros)
  have "returns (mmap_group K pid d p grp items es)" for pid grp items es
    by (induction es arbitrary: grp items) (auto intro!: returns_intros split: option.split)
  then have mmap: "returns (mmap_process K P d p pid)" for pid
    unfolding mmap_process_def by (intro returns_intros)
  have cwd: "returns (cwd_process K P d pid)" for pid
    unfolding cwd_process_def by (intro returns_intros)
  show ?thesis
    unfolding UnionReplacer_prepare_def Let_def FdReplacer_prepare_def CwdReplacer_prepare_def MmapReplacer_prepare_def
      all_processes_def
    by (intro returns_intros collect cwd fd mmap)
qed

section \<open>The program\<close>

lemma main_returns:
  assumes "signals_run_out pending (sys_tracee S)" and "\<forall>w. sys_read_signal S 6 w \<noteq> None"
  shows "returns (toda_main E S opts)"
proof -
  have prepare: "returns (prepare_replacer S opts d p)" for d p
    unfolding prepare_replacer_def by (intro returns_intros prepare_returns)
  have run: "returns (run_replacer S r)" for r
    unfolding run_replacer_def by (intro returns_intros union_run_returns [OF assms(1)])
  have "returns (wait_for_signal S)"
    using assms(2) by (auto simp: returns_def wait_for_signal_def split: option.split)
  moreover have "returns (toda_inject E S opts cfg)" for cfg
    unfolding toda_inject_def by (intro returns_intros prepare run)
  moreover have "returns (toda_resume S opts g)" for g :: "('x, 'y) MountInjectionGuard"
    unfolding toda_resume_def Let_def split_def by (intro returns_intros prepare run)
  ultimately show ?thesis
    unfolding toda_main_def by (intro returns_intros)
qed

text \<open>
  The signal pipe, as \<open>pipe(7)\<close> describes it: what is written is appended, a read returns as soon
  as something is there. A signal that arrived, no matter when, ends the wait.
\<close>

definition pipe_ok :: "('v \<Rightarrow> u8 list) \<Rightarrow> 'v os_env \<Rightarrow> bool" where
  "pipe_ok buffered S \<longleftrightarrow>
     (\<forall>bs n w w'. sys_write_signal S bs w = (Inr n, w') \<longrightarrow> buffered w' = buffered w @ bs) \<and>
     (\<forall>n w. 0 < n \<and> buffered w \<noteq> [] \<longrightarrow> (\<exists>bs w'. sys_read_signal S n w = Some (Inr bs, w')))"

lemma signal_ends_wait:
  assumes "pipe_ok buffered S" and "signal_handler S w = (Ok (), w')" and "prefix (buffered w') (buffered (host_world (td_host s)))"
  shows "\<exists>s'. wait_for_signal S s = Some (Ok (), s')"
proof -
  have "buffered w' = buffered w @ SIGNAL_MSG"
    using assms(1,2) by (auto simp: pipe_ok_def signal_handler_def split: prod.splits sum.splits)
  then have "buffered (host_world (td_host s)) \<noteq> []"
    using assms(3) by (auto simp: SIGNAL_MSG_def bytes_of_def prefix_def)
  then obtain bs w2 where "sys_read_signal S 6 (host_world (td_host s)) = Some (Inr bs, w2)"
    using assms(1) unfolding pipe_ok_def by (metis zero_less_numeral)
  then show ?thesis by (simp add: wait_for_signal_def)
qed

end
