(* ===== verification/Quiet.thy ===== *)
theory Quiet
  imports Replacers
begin

text \<open>
  The replacers and a part of the world they leave alone: if no single call of \<open>ptrace\<close>,
  \<open>procfs\<close> or the traced process changes a view of the world (for instance the mounts), then
  neither does preparing, running and dropping the replacers.
\<close>

section \<open>Calls and computations that keep a view\<close>

definition still :: "('w \<Rightarrow> 'v) \<Rightarrow> ('w, 'a) traced \<Rightarrow> bool" where
  "still view f \<longleftrightarrow> (\<forall>w r w'. f w = Some (r, w') \<longrightarrow> view w' = view w)"

definition ptrace_quiet :: "('w \<Rightarrow> 'v) \<Rightarrow> 'w ptrace_calls \<Rightarrow> bool" where
  "ptrace_quiet view K \<longleftrightarrow>
     (\<forall>pid w. view (snd (Process_new K pid w)) = view w) \<and> (\<forall>pid w. view (snd (Process_tasks K pid w)) = view w) \<and>
     (\<forall>pid w. view (snd (pt_attach K pid w)) = view w) \<and> (\<forall>pid w. view (snd (pt_detach K pid w)) = view w) \<and>
     (\<forall>pid w. view (pt_wait_wall K pid w) = view w) \<and>
     (\<forall>ms n f w. (\<forall>w. view (snd (f w)) = view w) \<longrightarrow> view (snd (pt_retry K ms n f w)) = view w)"

definition proc_quiet :: "('w \<Rightarrow> 'v) \<Rightarrow> 'w proc_calls \<Rightarrow> bool" where
  "proc_quiet view P \<longleftrightarrow>
     (\<forall>w. view (snd (proc_all P w)) = view w) \<and> (\<forall>pid w. view (snd (proc_cmdline P pid w)) = view w) \<and>
     (\<forall>pid w. view (snd (proc_cwd P pid w)) = view w) \<and> (\<forall>pid w. view (snd (proc_fd P pid w)) = view w) \<and>
     (\<forall>pid w. view (snd (proc_maps P pid w)) = view w)"

definition tracee_quiet :: "('w \<Rightarrow> 'v) \<Rightarrow> 'w tracee_calls \<Rightarrow> bool" where
  "tracee_quiet view T \<longleftrightarrow>
     (\<forall>pid w. view (snd (pt_getregs T pid w)) = view w) \<and> (\<forall>pid r w. view (snd (pt_setregs T pid r w)) = view w) \<and>
     (\<forall>pid a w. view (snd (pt_read T pid a w)) = view w) \<and> (\<forall>pid a v w. view (snd (pt_write T pid a v w)) = view w) \<and>
     (\<forall>pid w. view (snd (pt_step T pid w)) = view w) \<and> (\<forall>pid w. view (snd (pt_cont T pid w)) = view w) \<and>
     (\<forall>pid w. view (snd (pt_waitpid T pid w)) = view w) \<and> (\<forall>pid a bs w. view (snd (vm_writev T pid a bs w)) = view w)"

lemma still_return: "still view (tr_return a)" "still view (tr_raise e)" "still view tr_panic"
  by (simp_all add: still_def tr_return_def tr_raise_def tr_panic_def)

lemma still_then: "still view f \<Longrightarrow> (\<And>a. still view (g a)) \<Longrightarrow> still view (tr_then f g)"
  unfolding still_def tr_then_def by (fastforce split: option.splits outcome.splits)

lemma still_call:
  assumes "\<And>w. view (snd (f w)) = view w"
  shows "still view (tr_call f)"
  unfolding still_def
proof (intro allI impI)
  fix w r w' assume "tr_call f w = Some (r, w')"
  with assms [of w] show "view w' = view w"
    by (cases "f w"; cases "fst (f w)") (auto simp: tr_call_def nix_result_def)
qed

lemma still_ok: "still view f \<Longrightarrow> still view (tr_ok f)"
  by (auto simp: still_def tr_ok_def)

lemma still_case:
  "(\<And>a. x = Inl a \<Longrightarrow> still view (f a)) \<Longrightarrow> (\<And>b. x = Inr b \<Longrightarrow> still view (g b)) \<Longrightarrow> still view (case x of Inl a \<Rightarrow> f a | Inr b \<Rightarrow> g b)"
  "still view h \<Longrightarrow> (\<And>c. still view (k c)) \<Longrightarrow> still view (case y of None \<Rightarrow> h | Some c \<Rightarrow> k c)"
  "still view h \<Longrightarrow> still view h' \<Longrightarrow> still view (if c then h else h')"
  by (simp_all split: sum.split option.split)

lemmas still_intros = still_return still_then still_call still_ok still_case

section \<open>The traced process\<close>

lemma tracee_quietD:
  assumes "tracee_quiet view T"
  shows "pt_getregs T pid w = (x, w') \<Longrightarrow> view w' = view w" and "pt_step T pid w = (y, w') \<Longrightarrow> view w' = view w"
    and "pt_cont T pid w = (y, w') \<Longrightarrow> view w' = view w" and "pt_waitpid T pid w = (z, w') \<Longrightarrow> view w' = view w"
    and "pt_write T pid a v w = (y, w') \<Longrightarrow> view w' = view w" and "pt_setregs T pid r w = (y, w') \<Longrightarrow> view w' = view w"
  using assms unfolding tracee_quiet_def by (elim conjE, metis snd_conv)+

lemma wait_trap_quiet: "tracee_quiet view T \<Longrightarrow> still view (wait_trap T pid)"
proof -
  have "tracee_quiet view T \<longrightarrow> view (snd y) = view w" if "wait_trap T pid w = Some y" for w y
  proof (rule wait_trap.raw_induct [where P = "\<lambda>T pid w y. tracee_quiet view T \<longrightarrow> view (snd y) = view w", OF _ that], intro impI)
    fix f T pid w y
    assume IH: "\<And>T pid w y. f T pid w = Some y \<Longrightarrow> tracee_quiet view T \<longrightarrow> view (snd y) = view w" and q: "tracee_quiet view T"
      and y: "(case pt_waitpid T pid w of (Inl e, w) \<Rightarrow> Some (Err (From_nix e), w) | (Inr Stopped_SIGTRAP, w) \<Rightarrow> Some (Ok (), w)
        | (Inr Wait_other, w) \<Rightarrow> (case pt_step T pid w of (Inl e, w) \<Rightarrow> Some (Err (From_nix e), w) | (Inr x, w) \<Rightarrow> f T pid w)) = Some y"
    obtain x w1 where x: "pt_waitpid T pid w = (x, w1)" by fastforce
    obtain z w2 where z: "pt_step T pid w1 = (z, w2)" by fastforce
    from y x z IH [of T pid w2 y] q tracee_quietD(2,4) [OF q] show "view (snd y) = view w"
      by (auto split: sum.splits wait_status.splits)
  qed
  moreover assume "tracee_quiet view T"
  ultimately show ?thesis unfolding still_def by fastforce
qed

lemma cont_trap_quiet: "tracee_quiet view T \<Longrightarrow> still view (cont_trap T pid)"
proof -
  have "tracee_quiet view T \<longrightarrow> view (snd y) = view w" if "cont_trap T pid w = Some y" for w y
  proof (rule cont_trap.raw_induct [where P = "\<lambda>T pid w y. tracee_quiet view T \<longrightarrow> view (snd y) = view w", OF _ that], intro impI)
    fix f T pid w y
    assume IH: "\<And>T pid w y. f T pid w = Some y \<Longrightarrow> tracee_quiet view T \<longrightarrow> view (snd y) = view w" and q: "tracee_quiet view T"
      and y: "(case pt_cont T pid w of (Inl e, w) \<Rightarrow> Some (Err (From_nix e), w) | (Inr x, w) \<Rightarrow>
        (case pt_waitpid T pid w of (Inl e, w) \<Rightarrow> Some (Err (From_nix e), w) | (Inr status, w) \<Rightarrow>
          (case pt_getregs T pid w of (Inl e, w) \<Rightarrow> Some (Err (From_nix e), w) | (Inr x, w) \<Rightarrow>
            (case status of Stopped_SIGTRAP \<Rightarrow> Some (Ok (), w) | Wait_other \<Rightarrow> f T pid w)))) = Some y"
    obtain x w1 where x: "pt_cont T pid w = (x, w1)" by fastforce
    obtain z w2 where z: "pt_waitpid T pid w1 = (z, w2)" by fastforce
    obtain v w3 where v: "pt_getregs T pid w2 = (v, w3)" by fastforce
    from y x z v IH [of T pid w3 y] q tracee_quietD(1,3,4) [OF q] show "view (snd y) = view w"
      by (auto split: sum.splits wait_status.splits)
  qed
  moreover assume "tracee_quiet view T"
  ultimately show ?thesis unfolding still_def by fastforce
qed

lemma protect_quiet:
  assumes "tracee_quiet view T" and "still view f"
  shows "still view (with_protect T pid f)"
proof -
  have d: "ThreadGuard_drop T g w = (b, w') \<Longrightarrow> view w' = view w" for g w b w'
    unfolding ThreadGuard_drop_def
    by (auto split: prod.splits sum.splits dest!: tracee_quietD(5,6) [OF assms(1)])
  have "still view (\<lambda>w. case f w of None \<Rightarrow> None | Some (r, w) \<Rightarrow>
      (case ThreadGuard_drop T g w of (True, w) \<Rightarrow> Some (r, w) | (False, w) \<Rightarrow> Some (Panic, w)))" for g
    using assms(2) unfolding still_def by (fastforce split: option.splits prod.splits bool.splits dest: d)
  moreover have "still view (TracedProcess_protect T pid)"
    unfolding TracedProcess_protect_def using assms(1) by (intro still_intros) (simp_all add: tracee_quiet_def)
  ultimately show ?thesis unfolding with_protect_def by (intro still_then)
qed

lemma syscall_quiet:
  assumes "tracee_quiet view T"
  shows "still view (TracedProcess_syscall T pid ident args)"
  unfolding TracedProcess_syscall_def Let_def
  by (intro protect_quiet [OF assms] still_intros wait_trap_quiet [OF assms])
     (use assms in \<open>simp_all add: tracee_quiet_def\<close>)

lemma mmap_quiet:
  assumes "tracee_quiet view T" and "\<And>addr. still view (f addr)"
  shows "still view (with_mmap T pid len f)"
  unfolding with_mmap_def TracedProcess_mmap_def TracedProcess_munmap_def Let_def
  by (intro still_intros syscall_quiet [OF assms(1)] assms(2))

lemma chdir_quiet:
  assumes "tracee_quiet view T"
  shows "still view (TracedProcess_chdir T pid filename)"
  unfolding TracedProcess_chdir_def TracedProcess_write_mem_def Let_def
  by (intro still_intros syscall_quiet [OF assms] mmap_quiet [OF assms])
     (use assms in \<open>simp_all add: tracee_quiet_def\<close>)

lemma run_codes_quiet:
  assumes "tracee_quiet view T"
  shows "still view (TracedProcess_run_codes T pid codes)"
  unfolding TracedProcess_run_codes_def TracedProcess_write_mem_def split_def
  by (intro still_intros mmap_quiet [OF assms] protect_quiet [OF assms] cont_trap_quiet [OF assms])
     (use assms in \<open>simp_all add: tracee_quiet_def\<close>)

lemma union_run_quiet:
  assumes "tracee_quiet view T"
  shows "still view (UnionReplacer_run assemble T u)"
proof -
  have "still view (chdir_all T p ps)" for p ps
    by (induction ps) (auto intro: still_intros chdir_quiet [OF assms])
  moreover have "still view (FdReplacer_run assemble T accs)" for accs
    by (induction accs) (auto simp: FdAccessor_run_def intro: still_intros run_codes_quiet [OF assms])
  moreover have "still view (MmapReplacer_run assemble T accs)" for accs
    by (induction accs) (auto simp: MmapAccessor_run_def intro: still_intros run_codes_quiet [OF assms])
  ultimately have "still view (Replacer_run assemble T r)" for r
    by (cases r) (simp_all add: CwdReplacer_run_def)
  then show ?thesis by (induction u) (auto intro: still_intros)
qed

section \<open>The manager\<close>

lemma ptrace_quietD:
  assumes "ptrace_quiet view K"
  shows "Process_new K pid w = (x, w') \<Longrightarrow> view w' = view w" and "Process_tasks K pid w = (y, w') \<Longrightarrow> view w' = view w"
    and "pt_attach K pid w = (z, w') \<Longrightarrow> view w' = view w" and "pt_detach K pid w = (z, w') \<Longrightarrow> view w' = view w"
    and "view (pt_wait_wall K pid w) = view w"
    and "(\<And>w. view (snd (f w)) = view w) \<Longrightarrow> view (snd (pt_retry K ms n f w)) = view w"
  using assms unfolding ptrace_quiet_def by (elim conjE, metis snd_conv)+

lemma attach_task_quiet:
  assumes "ptrace_quiet view K" and "attach_task K tid w = (b, w')"
  shows "view w' = view w"
proof -
  obtain x w1 where x: "Process_new K tid w = (x, w1)" by fastforce
  obtain y w2 where y: "pt_attach K tid w1 = (y, w2)" by fastforce
  note q = ptrace_quietD [OF assms(1)]
  have "w' = w1 \<or> w' = w2 \<or> w' = pt_wait_wall K tid w2"
    using assms(2) x y by (auto simp: attach_task_def split: sum.splits nix_error.splits if_splits)
  with q(1) [OF x] q(3) [OF y] q(5) show ?thesis by auto
qed

lemma attach_round_quiet:
  "ptrace_quiet view K \<Longrightarrow> attach_round K tasks traced w = (new, traced', w') \<Longrightarrow> view w' = view w"
proof (induction K tasks traced w arbitrary: new traced' rule: attach_round.induct)
  case (3 K tid tasks traced w)
  obtain b w1 where b: "attach_task K tid w = (b, w1)" by fastforce
  obtain n t w2 where r: "attach_round K tasks (insert tid traced) w1 = (n, t, w2)" by (metis prod_cases3)
  from 3 b r attach_task_quiet [OF 3(4) b] show ?case by (auto split: if_splits bool.splits)
qed simp_all

lemma attach_loop_quiet:
  assumes "ptrace_quiet view K" and "attach_loop K pid iterations traced w = Some (r, w')"
  shows "view w' = view w"
proof -
  have "ptrace_quiet view K \<longrightarrow> view (snd (r, w')) = view w"
  proof (rule attach_loop.raw_induct [where P = "\<lambda>K pid i t w y. ptrace_quiet view K \<longrightarrow> view (snd y) = view w", OF _ assms(2)], intro impI)
    fix f K pid i t w y
    assume IH: "\<And>K pid i t w y. f K pid i t w = Some y \<Longrightarrow> ptrace_quiet view K \<longrightarrow> view (snd y) = view w"
      and q: "ptrace_quiet view K"
      and y: "(if i = 0 then Some (Inr t, w) else case Process_new K pid w of (Inl _, w) \<Rightarrow> Some (Inl From_proc, w)
        | (Inr _, w) \<Rightarrow> (case Process_tasks K pid w of (Inl _, w) \<Rightarrow> Some (Inl From_proc, w) | (Inr tasks, w) \<Rightarrow>
            (case attach_round K tasks t w of (new, t, w) \<Rightarrow> f K pid (if \<not> new then i - 1 else i) t w))) = Some y"
    obtain x w1 where x: "Process_new K pid w = (x, w1)" by fastforce
    obtain z w2 where z: "Process_tasks K pid w1 = (z, w2)" by fastforce
    note v = ptrace_quietD(1) [OF q x] ptrace_quietD(2) [OF q z]
    show "view (snd y) = view w"
    proof (cases "\<exists>s tasks. i \<noteq> 0 \<and> x = Inr s \<and> z = Inr tasks")
      case True
      then obtain s tasks where t: "i \<noteq> 0" "x = Inr s" "z = Inr tasks" by blast
      obtain n t' w3 where a: "attach_round K tasks t w2 = (n, t', w3)" by (metis prod_cases3)
      from attach_round_quiet [OF q a] IH [of K pid "if \<not> n then i - 1 else i" t' w3 y] y x z t a v q show ?thesis by simp
    qed (use y x z v in \<open>auto split: if_splits sum.splits\<close>)
  qed
  with assms(1) show ?thesis by simp
qed

lemma detach_tasks_quiet: "ptrace_quiet view K \<Longrightarrow> view (detach_tasks K tasks w) = view w"
  by (induction K tasks w rule: detach_tasks.induct) (auto dest: ptrace_quietD(4) simp: ptrace_quiet_def)

lemma detach_attempt_quiet:
  assumes "ptrace_quiet view K"
  shows "view (snd (detach_attempt K pid w)) = view w"
proof -
  obtain x w1 where x: "Process_new K pid w = (x, w1)" by fastforce
  obtain z w2 where z: "Process_tasks K pid w1 = (z, w2)" by fastforce
  from x z ptrace_quietD(1) [OF assms x] ptrace_quietD(2) [OF assms z] detach_tasks_quiet [OF assms] show ?thesis
    by (auto simp: detach_attempt_def split: sum.splits proc_error.splits)
qed

abbreviation tracer_view :: "('w \<Rightarrow> 'v) \<Rightarrow> 'w tracer \<Rightarrow> 'v" where
  "tracer_view view m \<equiv> view (tracer_world m)"

lemma trace_quiet:
  assumes "ptrace_quiet view K" and "PtraceManager_trace K pid m = Some (r, m')"
  shows "tracer_view view m' = tracer_view view m"
  using assms(2) attach_loop_quiet [OF assms(1)]
  by (auto simp: PtraceManager_trace_def split: option.splits sum.splits prod.splits)

lemma drop_quiet:
  assumes "ptrace_quiet view K"
  shows "tracer_view view (TracedProcess_drop K pid m) = tracer_view view m"
proof -
  obtain r w where r: "pt_retry K 500 20 (detach_attempt K pid) (tracer_world m) = (r, w)" by fastforce
  have "view (snd (pt_retry K 500 20 (detach_attempt K pid) (tracer_world m))) = view (tracer_world m)"
    by (rule ptrace_quietD(6) [OF assms]) (rule detach_attempt_quiet [OF assms])
  with r have "view w = view (tracer_world m)" by simp
  with r show ?thesis
    by (cases "counter m pid") (simp_all add: TracedProcess_drop_def PtraceManager_detach_def Let_def)
qed

lemma drops_quiet: "ptrace_quiet view K \<Longrightarrow> tracer_view view (fold (TracedProcess_drop K) hs m) = tracer_view view m"
  by (induction hs arbitrary: m) (simp_all add: drop_quiet)

section \<open>Preparing\<close>

lemma handle_quiet:
  assumes "ptrace_quiet view K"
  shows "still (tracer_view view) (tr_trace K pid)" and "still (tracer_view view) (tr_clone K pid)"
    and "still (tracer_view view) f \<Longrightarrow> still (tracer_view view) (with_handle K h f)"
  using trace_quiet [OF assms] drop_quiet [OF assms]
  by (auto simp: still_def tr_trace_def tr_clone_def TracedProcess_clone_def with_handle_def)

lemma unwinding_quiet:
  assumes "ptrace_quiet view K" and "still (tracer_view view) f"
  shows "still (tracer_view view) (unwinding K hs f)"
  unfolding still_def
proof (intro allI impI)
  fix m r m' assume r: "unwinding K hs f m = Some (r, m')"
  then obtain m1 where "f m = Some (r, m1)" "m' = m1 \<or> m' = fold (TracedProcess_drop K) hs m1"
    by (cases r) (auto simp: unwinding_def)
  with assms(2) drops_quiet [OF assms(1)] show "tracer_view view m' = tracer_view view m"
    unfolding still_def by metis
qed

lemma world_quiet: "(\<And>w. view (snd (f w)) = view w) \<Longrightarrow> still (tracer_view view) (tr_world f)"
  by (auto simp: still_def tr_world_def split: prod.splits) (metis snd_conv)

lemma tracee_quiet_lift: "still view f \<Longrightarrow> still (tracer_view view) (on_tracee f)"
  by (auto simp: still_def on_tracee_def)

lemmas prepare_intros = still_intros handle_quiet unwinding_quiet

lemma proc_quiet_world:
  assumes "proc_quiet view P"
  shows "still (tracer_view view) (tr_world (proc_all P))" "still (tracer_view view) (tr_world (proc_cmdline P pid))"
    "still (tracer_view view) (tr_world (proc_cwd P pid))" "still (tracer_view view) (tr_world (proc_fd P pid))"
    "still (tracer_view view) (tr_world (proc_maps P pid))"
  using assms by (auto simp: proc_quiet_def intro!: world_quiet)

lemma fd_process_quiet:
  assumes "ptrace_quiet view K" and "proc_quiet view P"
  shows "still (tracer_view view) (fd_process K P d p pid)"
proof -
  have pass: "still (tracer_view view) (pass_items K pid is)" for "is" :: "'x list"
    by (induction "is") (auto intro!: prepare_intros assms(1))
  have "still (tracer_view view) (fd_group K pid items)" for items
    unfolding fd_group_def
    by (cases items) (auto intro!: prepare_intros assms(1) pass)
  then show ?thesis
    unfolding fd_process_def by (intro prepare_intros assms proc_quiet_world)
qed

lemma mmap_process_quiet:
  assumes "ptrace_quiet view K" and "proc_quiet view P"
  shows "still (tracer_view view) (mmap_process K P d p pid)"
proof -
  have "still (tracer_view view) (mmap_group K pid d p grp items es)" for grp items es
    by (induction es arbitrary: grp items) (auto intro!: prepare_intros assms(1) split: option.split)
  then show ?thesis
    unfolding mmap_process_def by (intro prepare_intros assms proc_quiet_world)
qed

lemma prepare_quiet:
  assumes "ptrace_quiet view K" and "proc_quiet view P"
  shows "still (tracer_view view) (UnionReplacer_prepare K P d p u)"
proof -
  note q = proc_quiet_world [OF assms(2)]
  have all: "still (tracer_view view) (all_processes P)" and keep: "still (tracer_view view) (keep_process P pid)" for pid
    unfolding all_processes_def keep_process_def by (intro prepare_intros assms q)+
  have collect: "still (tracer_view view) (collect_processes K P handle visit pids)"
    if "\<And>pid. still (tracer_view view) (visit pid)" for handle and visit :: "i32 \<Rightarrow> ('a tracer, 'x option) traced" and pids
    by (induction pids) (auto intro!: prepare_intros assms(1) keep that)
  have cwd: "still (tracer_view view) (cwd_process K P d pid)" for pid
    unfolding cwd_process_def by (intro prepare_intros assms q)
  show ?thesis
    unfolding UnionReplacer_prepare_def Let_def FdReplacer_prepare_def CwdReplacer_prepare_def MmapReplacer_prepare_def
    by (intro prepare_intros all collect cwd fd_process_quiet mmap_process_quiet assms)
qed

end
