(* ===== verification/Program_Runs.thy ===== *)
theory Program_Runs
  imports Returns Quiet
begin

text \<open>
  What the whole program does to its surroundings: no process is left traced, and the mounts
  after \<open>inject\<close> and after \<open>resume\<close> are known.
\<close>

section \<open>Letting go of processes\<close>

definition owns :: "i32 multiset \<Rightarrow> 'v toda \<Rightarrow> bool" where
  "owns H s \<longleftrightarrow> counts_handles H (to_tracer s)"

definition keeps_handles :: "i32 multiset \<Rightarrow> ('v toda, 'a) traced \<Rightarrow> bool" where
  "keeps_handles H f \<longleftrightarrow> (\<forall>s r s'. owns H s \<longrightarrow> f s = Some (r, s') \<longrightarrow> owns H s')"

lemma owns_counter: "td_counter s' = td_counter s \<Longrightarrow> owns H s \<Longrightarrow> owns H s'"
  by (simp add: owns_def to_tracer_def counts_handles_def)

lemma owns_none: "owns {#} s \<longleftrightarrow> td_counter s = Map.empty"
  by (auto simp: owns_def to_tracer_def counts_handles_def)

lemma to_of_tracer [simp]: "to_tracer (of_tracer m s) = m"
  by (simp add: to_tracer_def of_tracer_def)

lemma keeps_simple:
  "keeps_handles H (tr_return a)" "keeps_handles H (tr_raise e)" "keeps_handles H (on_process p)"
  by (auto simp: keeps_handles_def tr_return_def tr_raise_def on_process_def intro: owns_counter [rotated] split: prod.splits)

lemma then_cases:
  assumes "tr_then f g s = Some (r, s')"
  obtains a s1 where "f s = Some (Ok a, s1)" and "g a s1 = Some (r, s')"
  | e where "f s = Some (Err e, s')" and "r = Err e" | "f s = Some (Panic, s')" and "r = Panic"
  using assms by (cases "f s"; cases "fst (the (f s))") (auto simp: tr_then_def)

lemma keeps_then:
  assumes "keeps_handles H f" and "\<And>a. keeps_handles H (g a)"
  shows "keeps_handles H (tr_then f g)"
  unfolding keeps_handles_def
proof (intro allI impI)
  fix s r s' assume s: "owns H s" and "tr_then f g s = Some (r, s')"
  from this(2) assms s show "owns H s'" unfolding keeps_handles_def by (cases rule: then_cases) blast+
qed

lemma keeps_ok: "keeps_handles H f \<Longrightarrow> keeps_handles H (tr_ok f)"
  by (auto simp: keeps_handles_def tr_ok_def)

lemma keeps_run: "keeps_handles H (run_replacer S r)"
  by (auto simp: keeps_handles_def run_replacer_def on_tracer_def on_tracee_def owns_def tr_return_def counts_handles_def
      split: option.splits)

lemma keeps_case:
  "(\<And>a. keeps_handles H (f a)) \<Longrightarrow> (\<And>b. keeps_handles H (g b)) \<Longrightarrow> keeps_handles H (case x of Inl a \<Rightarrow> f a | Inr b \<Rightarrow> g b)"
  "keeps_handles H h \<Longrightarrow> (\<And>c. keeps_handles H (k c)) \<Longrightarrow> keeps_handles H (case y of None \<Rightarrow> h | Some c \<Rightarrow> k c)"
  by (simp_all split: sum.split option.split)

lemmas keeps_intros = keeps_simple keeps_then keeps_ok keeps_run keeps_case

text \<open>The replacers are prepared, used and dropped.\<close>

lemma keeps_replacer:
  assumes "processes_within (sys_proc S) n" and "fits (3 + 3 * n) H" and "\<And>r G. keeps_handles G (f r)"
  shows "keeps_handles H (tr_then (prepare_replacer S opts d p) (\<lambda>r. with_replacer S r (f r)))"
proof (cases "opt_mount_only opts")
  case True
  then show ?thesis
    using assms(3) [of H None] by (auto simp: prepare_replacer_def keeps_handles_def tr_then_def tr_return_def with_replacer_def)
next
  case False
  show ?thesis
    unfolding keeps_handles_def
  proof (intro allI impI)
    fix s r s' assume s: "owns H s"
      and r: "tr_then (prepare_replacer S opts d p) (\<lambda>r. with_replacer S r (f r)) s = Some (r, s')"
    have "holds True H (UnionReplacer_prepare (sys_ptrace S) (sys_proc S) d p UnionReplacer_new) (\<lambda>u. H + mset (union_handles u)) H"
      by (rule holds_union [OF _ assms(1,2)]) simp
    moreover from s have "counts_handles H (to_tracer s)" by (simp add: owns_def)
    ultimately show "owns H s'"
    proof (cases rule: holds_cases)
      case (2 u m)
      let ?s = "of_tracer m s"
      from 2 False r obtain s1 where "f (Some u) ?s = Some (r, s1)"
        and s': "s' = of_tracer (UnionReplacer_drop (sys_ptrace S) u (to_tracer s1)) s1"
        by (auto simp: prepare_replacer_def on_tracer_def tr_then_def tr_return_def with_replacer_def)
      moreover have "owns (H + mset (union_handles u)) ?s" using 2 by (simp add: owns_def)
      ultimately have "owns (H + mset (union_handles u)) s1" using assms(3) unfolding keeps_handles_def by blast
      then show ?thesis unfolding s' owns_def UnionReplacer_drop_def by (simp add: counts_drops)
    qed (use False r in \<open>auto simp: prepare_replacer_def on_tracer_def tr_then_def owns_def\<close>)
  qed
qed

lemma then_assoc: "tr_then f (\<lambda>a. tr_then (g a) h) = tr_then (tr_then f g) h"
  by (auto simp: tr_then_def fun_eq_iff split: option.split outcome.split)

lemma keeps_toda_inject:
  assumes "processes_within (sys_proc S) n" and "fits (3 + 3 * n) H"
  shows "keeps_handles H (toda_inject E S opts cfg)"
  unfolding toda_inject_def logged_def then_assoc [of "prepare_replacer S opts _ _"]
  by (intro keeps_intros keeps_replacer [OF assms])

lemma keeps_resume:
  assumes "processes_within (sys_proc S) n" and "fits (3 + 3 * n) H"
  shows "keeps_handles H (toda_resume S opts g)"
  unfolding toda_resume_def logged_def Let_def
  by (intro keeps_intros keeps_replacer [OF assms] case_prodI2 | simp only: split_def)+

lemma keeps_wait: "keeps_handles H (wait_for_signal S)"
  by (auto simp: keeps_handles_def wait_for_signal_def intro: owns_counter [rotated] split: option.splits prod.splits)

text \<open>
  C6. The program returns and lets go of every process it traced: if it starts with none traced,
  no listing of the processes is longer than \<open>n\<close>, stopped processes have finitely many pending
  signals, and a signal to the program arrives, then \<open>main\<close> returns, with a value, an error or a
  panic, and no process is counted as traced, whatever the system calls answer on the way.
\<close>

theorem program_detaches:
  assumes "td_counter s = Map.empty" and "processes_within (sys_proc S) n" and "3 + 3 * n < 2 ^ 31"
    and "signals_run_out pending (sys_tracee S)" and "\<forall>w. sys_read_signal S 6 w \<noteq> None"
  shows "\<exists>r s'. toda_main E S opts s = Some (r, s') \<and> td_counter s' = Map.empty"
proof -
  have f: "fits (3 + 3 * n) {#}" using assms(3) by (simp add: fits_def)
  have "keeps_handles {#} (toda_main E S opts)"
    unfolding toda_main_def
    by (intro keeps_intros keeps_wait keeps_toda_inject [OF assms(2) f] keeps_resume [OF assms(2) f])
  moreover obtain r s' where "toda_main E S opts s = Some (r, s')"
    using main_returns [OF assms(4,5)] unfolding returns_def by fastforce
  ultimately show ?thesis using assms(1) unfolding keeps_handles_def owns_none by blast
qed

section \<open>Mounts\<close>

text \<open>The other calls mount nothing.\<close>

definition os_quiet :: "('v \<Rightarrow> 'm mounts) \<Rightarrow> 'v os_env \<Rightarrow> bool" where
  "os_quiet at S \<longleftrightarrow> ptrace_quiet at (sys_ptrace S) \<and> proc_quiet at (sys_proc S) \<and> tracee_quiet at (sys_tracee S) \<and>
     (\<forall>p w. at (snd (sys_canonicalize S p w)) = at w)"

definition td_at :: "('v \<Rightarrow> 'm mounts) \<Rightarrow> 'v toda \<Rightarrow> 'm mounts" where
  "td_at at s = at (host_world (td_host s))"

lemma still_tracer: "still (tracer_view at) f \<Longrightarrow> still (td_at at) (on_tracer f)"
  by (fastforce simp: still_def on_tracer_def of_tracer_def to_tracer_def td_at_def)

lemma prepare_at:
  assumes "os_quiet at S" and "prepare_replacer S opts d p s = Some (r, s')"
  shows "td_at at s' = td_at at s"
proof -
  have "still (td_at at) (prepare_replacer S opts d p)"
    unfolding prepare_replacer_def
    by (intro still_intros still_tracer prepare_quiet) (use assms(1) in \<open>simp_all add: os_quiet_def\<close>)
  with assms(2) show ?thesis unfolding still_def by blast
qed

lemma run_at:
  assumes "os_quiet at S" and "run_replacer S u s = Some (r, s')"
  shows "td_at at s' = td_at at s"
proof -
  have "still (td_at at) (run_replacer S u)"
    unfolding run_replacer_def
    by (intro still_intros still_tracer tracee_quiet_lift union_run_quiet) (use assms(1) in \<open>simp add: os_quiet_def\<close>)
  with assms(2) show ?thesis unfolding still_def by blast
qed

lemma with_replacer_at:
  assumes "os_quiet at S" and "with_replacer S u f s = Some (r, s')"
  shows "\<exists>s1. f s = Some (r, s1) \<and> td_at at s' = td_at at s1 \<and> host_RUNTIME (td_host s') = host_RUNTIME (td_host s1)"
  using assms drops_quiet [of at "sys_ptrace S"]
  by (auto simp: with_replacer_def os_quiet_def of_tracer_def to_tracer_def td_at_def UnionReplacer_drop_def split: option.splits)

lemma toda_world_run: "on_world m s = Some (r, s') \<longleftrightarrow>
  (\<exists>w. m (host_world (td_host s)) = (r, w) \<and> s' = s\<lparr>td_host := (td_host s)\<lparr>host_world := w\<rparr>\<rparr>)"
  by (cases "m (host_world (td_host s))") (auto simp: on_process_def on_host_def run_simps)

lemma canonicalize_at:
  assumes "os_quiet at S" and "on_world (canonicalize S p) s = Some (r, s')"
  shows "td_at at s' = td_at at s \<and> (\<forall>q. r = Ok q \<longrightarrow> fst (sys_canonicalize S p (host_world (td_host s))) = Some q)"
proof -
  obtain x w where x: "sys_canonicalize S p (host_world (td_host s)) = (x, w)" by fastforce
  moreover from this assms(1) have "at w = at (host_world (td_host s))" unfolding os_quiet_def by (metis snd_conv)
  ultimately show ?thesis using assms(2) by (cases x) (auto simp: toda_world_run canonicalize_def td_at_def)
qed

text \<open>
  The mounts once \<open>inject\<close> has bound the path onto itself: one more mount, of what the path showed.
  And once the file system is mounted: that mount is at the hidden directory \<open>q\<close>, and the path has
  FUSE on top if the session is served.
\<close>

definition bound_at :: "(path \<Rightarrow> 'm) \<Rightarrow> 'm mounts \<Rightarrow> path \<Rightarrow> 'm mounts \<Rightarrow> bool" where
  "bound_at plain a p b \<longleftrightarrow> b = a(p := shown plain a p # a p)"

definition mounted_at :: "(path \<Rightarrow> 'm) \<Rightarrow> 'm mounts \<Rightarrow> path \<Rightarrow> path \<Rightarrow> 'm \<Rightarrow> bool \<Rightarrow> 'm mounts \<Rightarrow> bool" where
  "mounted_at plain a p q fuse serving b \<longleftrightarrow>
     b = a(p := (if serving then fuse # a p else a p), q := shown plain a p # a q)"


lemma private_at:
  assumes "mounts_ok (sys_mounts S) at plain fuse" and "on_world (mount_or_panic S None p MS_PRIVATE) s = Some (r, s')"
  shows "td_at at s' = td_at at s"
proof -
  obtain x w where x: "os_mount (sys_mounts S) None p MS_PRIVATE (host_world (td_host s)) = (x, w)" by fastforce
  have "at w = at (host_world (td_host s))"
    using mounts_okD(3,12) [OF assms(1)] x by (cases x) auto
  with x assms(2) show ?thesis by (cases x) (auto simp: toda_world_run mount_or_panic_def td_at_def)
qed

lemma bind_at:
  assumes "mounts_ok (sys_mounts S) at plain fuse" and "on_world (mount_or_panic S (Some p) p MS_BIND) s = Some (r, s')"
  shows "r = Ok () \<and> bound_at plain (td_at at s) p (td_at at s') \<or> r = Panic \<and> td_at at s' = td_at at s"
proof -
  obtain x w where x: "os_mount (sys_mounts S) (Some p) p MS_BIND (host_world (td_host s)) = (x, w)" by fastforce
  with assms(2) mounts_okD(2) [OF assms(1), of p p "host_world (td_host s)" w] mounts_okD(3) [OF assms(1)] show ?thesis
    by (cases x) (auto simp: toda_world_run mount_or_panic_def td_at_def bound_at_def)
qed

lemma mkfuse_node_at:
  assumes "mounts_ok K at plain fuse" and "mkfuse_node K w = (r, w')"
  shows "r \<noteq> Panic \<and> at w' = at w"
proof -
  obtain x v where x: "os_mknod_dev K ''/dev/fuse'' 0x1B6 (10, 229) w = (x, v)" by fastforce
  have "at v = at w" using mounts_okD(13) [OF assms(1), of "''/dev/fuse''" "0x1B6" "(10, 229)" w] x by simp
  moreover have "r \<noteq> Panic \<and> w' = v"
    using assms(2) x by (auto simp: mkfuse_node_def split: sum.splits nix_error.splits if_splits)
  ultimately show ?thesis by simp
qed

lemma mkfuse_at:
  assumes "mounts_ok (sys_mounts S) at plain fuse" and "logged (on_world (mkfuse_node (sys_mounts S))) s = Some (r, s')"
  shows "r = Ok () \<and> td_at at s' = td_at at s"
proof -
  obtain x w where x: "mkfuse_node (sys_mounts S) (host_world (td_host s)) = (x, w)" by fastforce
  then have f: "on_world (mkfuse_node (sys_mounts S)) s = Some (x, s\<lparr>td_host := (td_host s)\<lparr>host_world := w\<rparr>\<rparr>)"
    by (simp add: toda_world_run)
  from mkfuse_node_at [OF assms(1) x] f assms(2) show ?thesis
    by (cases x) (auto simp: logged_def tr_then_def tr_ok_def tr_return_def td_at_def)
qed

text \<open>Mounting and moving the processes, after the path was bound.\<close>

lemma install_at:
  assumes "mounts_ok (sys_mounts S) at plain fuse" and "os_quiet at S" and "has_root p"
    and "MountInjector_create_injection p cfg = Inr mi" and "bound_at plain a p (td_at at s)"
    and "tr_then (on_process (MountInjector_mount E (sys_mounts S) mi)) (\<lambda>g.
      tr_then (run_replacer S u) (\<lambda>_. tr_return g)) s = Some (r, s')"
  shows "case r of
      Ok g \<Rightarrow> mounted_at plain a p (mnt_new_path mi) fuse (grd_handler g = Some Serving) (td_at at s') \<and>
        grd_original_path g = p \<and> grd_new_path g = mnt_new_path mi \<and> \<not> enable_injection (grd_hookfs g) \<and>
        (\<forall>w b. reachable E p (mnt_new_path mi) \<lparr>hookfs = grd_hookfs g, world = w, RUNTIME = b\<rparr>)
    | _ \<Rightarrow> bound_at plain a p (td_at at s') \<or> (\<exists>serving. mounted_at plain a p (mnt_new_path mi) fuse serving (td_at at s'))"
proof -
  obtain x h where x: "MountInjector_mount E (sys_mounts S) mi (td_host s) = (x, h)" by fastforce
  note mt = mount_at [OF assms(1,3,4) x] and paths = create_injection_paths [OF assms(3,4)]
  have b: "td_at at s = a(p := shown plain a p # a p)" using assms(5) by (simp add: bound_at_def)
  have on: "on_process (MountInjector_mount E (sys_mounts S) mi) s = Some (x, s\<lparr>td_host := h\<rparr>)"
    using x by (simp add: on_process_def)
  show ?thesis
  proof (cases x)
    case (Ok g)
    have g: "mounted_at plain a p (mnt_new_path mi) fuse (grd_handler g = Some Serving) (at (host_world h))"
      using mt Ok b paths(2) by (auto simp: mounted_at_def td_at_def fun_eq_iff)
    from assms(6) on Ok obtain y s1 where y: "run_replacer S u (s\<lparr>td_host := h\<rparr>) = Some (y, s1)"
      and r: "s' = s1" "r = (case y of Ok _ \<Rightarrow> Ok g | Err e \<Rightarrow> Err e | Panic \<Rightarrow> Panic)"
      by (auto simp: tr_then_def tr_return_def split: option.splits outcome.splits)
    have "td_at at s1 = at (host_world h)" using run_at [OF assms(2) y] by (simp add: td_at_def)
    with g r mt Ok x paths(1) show ?thesis
      by (cases y) (auto dest: mount_guard)
  next
    case (Err e)
    with assms(6) on have r: "r = Err e" "s' = s\<lparr>td_host := h\<rparr>" by (simp_all add: tr_then_def)
    from mt Err have "td_at at s' = td_at at s" unfolding r by (simp add: td_at_def)
    with assms(5) r show ?thesis by simp
  qed (use mt in simp)
qed

text \<open>The path of the command line is the canonical one.\<close>

definition canonical :: "'v os_env \<Rightarrow> path \<Rightarrow> bool" where
  "canonical S p \<longleftrightarrow> has_root p \<and> (\<forall>w q. fst (sys_canonicalize S p w) = Some q \<longrightarrow> q = p)"

definition injected :: "('w, 'f, 'd) env \<Rightarrow> (path \<Rightarrow> 'm) \<Rightarrow> 'm mounts \<Rightarrow> path \<Rightarrow> 'm \<Rightarrow> ('f, 'd) MountInjectionGuard \<Rightarrow> 'm mounts \<Rightarrow> bool" where
  "injected E plain a p fuse g b \<longleftrightarrow>
     mounted_at plain a p (grd_new_path g) fuse (grd_handler g = Some Serving) b \<and>
     encode_path p = Inr (p, grd_new_path g) \<and> grd_original_path g = p \<and>
     (\<forall>w c. reachable E p (grd_new_path g) \<lparr>hookfs = grd_hookfs g, world = w, RUNTIME = c\<rparr>)"

abbreviation install ::
  "('w, 'f, 'd) env \<Rightarrow> 'v os_env \<Rightarrow> path \<Rightarrow> InjectorConfig list \<Rightarrow> UnionReplacer option \<Rightarrow>
   ('v toda, ('f, 'd) MountInjectionGuard) traced" where
  "install E S p cfg u \<equiv>
     tr_then (logged (on_world (mkfuse_node (sys_mounts S)))) (\<lambda>_.
     case MountInjector_create_injection p cfg of
       Inl e \<Rightarrow> tr_raise e
     | Inr injection \<Rightarrow>
         tr_then (on_process (MountInjector_mount E (sys_mounts S) injection)) (\<lambda>mount_guard.
         tr_then (run_replacer S u) (\<lambda>_. tr_return mount_guard)))"

lemma install_injected:
  assumes "mounts_ok (sys_mounts S) at plain fuse" and "os_quiet at S" and "has_root p" and "bound_at plain a p (td_at at s)"
    and "install E S p cfg u s = Some (r, s')"
  shows "case r of
      Ok g \<Rightarrow> injected E plain a p fuse g (td_at at s')
    | _ \<Rightarrow> bound_at plain a p (td_at at s') \<or> (\<exists>q serving. encode_path p = Inr (p, q) \<and> mounted_at plain a p q fuse serving (td_at at s'))"
  using assms(5)
proof (cases rule: then_cases)
  case (1 v s1)
  have s1: "bound_at plain a p (td_at at s1)" using mkfuse_at [OF assms(1) 1(1)] assms(4) by simp
  show ?thesis
  proof (cases "MountInjector_create_injection p cfg")
    case (Inl e)
    with 1 s1 show ?thesis by (auto simp: tr_raise_def)
  next
    case (Inr mi)
    from install_at [OF assms(1-3) Inr s1, of E u r s'] 1 Inr
    have i: "case r of
        Ok g \<Rightarrow> mounted_at plain a p (mnt_new_path mi) fuse (grd_handler g = Some Serving) (td_at at s') \<and>
          grd_original_path g = p \<and> grd_new_path g = mnt_new_path mi \<and> \<not> enable_injection (grd_hookfs g) \<and>
          (\<forall>w b. reachable E p (mnt_new_path mi) \<lparr>hookfs = grd_hookfs g, world = w, RUNTIME = b\<rparr>)
      | _ \<Rightarrow> bound_at plain a p (td_at at s') \<or> (\<exists>serving. mounted_at plain a p (mnt_new_path mi) fuse serving (td_at at s'))" by simp
    have "encode_path p = Inr (p, mnt_new_path mi)"
      using Inr create_injection_paths(1) [OF assms(3) Inr]
      by (auto simp: create_injection_encode split: sum.splits)
    with i show ?thesis unfolding injected_def by (cases r) auto
  qed
qed (use mkfuse_at [OF assms(1)] in auto)

lemma enable_injected:
  assumes "injected E plain a p fuse g b"
  shows "injected E plain a p fuse (MountInjectionGuard_enable_injection g) b"
proof -
  have "reachable E p (grd_new_path g) \<lparr>hookfs = HookFs_enable_injection (grd_hookfs g), world = w, RUNTIME = c\<rparr>" for w c
    using reachable.step [OF _ fs_step.enable, of E p "grd_new_path g" "\<lparr>hookfs = grd_hookfs g, world = w, RUNTIME = c\<rparr>"] assms
    by (simp add: injected_def)
  with assms show ?thesis by (simp add: injected_def MountInjectionGuard_enable_injection_def)
qed

lemma enable_enabled: "enable_injection (grd_hookfs (MountInjectionGuard_enable_injection g))"
  by (simp add: MountInjectionGuard_enable_injection_def HookFs_enable_injection_def)

lemma then_return:
  "tr_then f (\<lambda>a. tr_return (h a)) s = Some (r, s') \<Longrightarrow>
   \<exists>x. f s = Some (x, s') \<and> r = (case x of Ok a \<Rightarrow> Ok (h a) | Err e \<Rightarrow> Err e | Panic \<Rightarrow> Panic)"
  by (erule then_cases) (auto simp: tr_return_def)

text \<open>What \<open>inject\<close> may leave behind.\<close>

definition inject_result ::
  "('w, 'f, 'd) env \<Rightarrow> (path \<Rightarrow> 'm) \<Rightarrow> 'm mounts \<Rightarrow> path \<Rightarrow> 'm \<Rightarrow> (anyhow, ('f, 'd) MountInjectionGuard) outcome \<Rightarrow> 'm mounts \<Rightarrow> bool" where
  "inject_result E plain a p fuse r b \<longleftrightarrow> (case r of
       Ok g \<Rightarrow> injected E plain a p fuse g b \<and> enable_injection (grd_hookfs g)
     | _ \<Rightarrow> b = a \<or> bound_at plain a p b \<or>
         (\<exists>q serving. encode_path p = Inr (p, q) \<and> mounted_at plain a p q fuse serving b))"

lemma inject_tail:
  assumes "mounts_ok (sys_mounts S) at plain fuse" and "os_quiet at S" and "has_root p" and "bound_at plain a p (td_at at s)"
    and "tr_then (prepare_replacer S opts p p) (\<lambda>u. tr_then (with_replacer S u (install E S p cfg u)) (\<lambda>g.
      tr_return (MountInjectionGuard_enable_injection g))) s = Some (r, s')"
  shows "inject_result E plain a p fuse r (td_at at s')"
  using assms(5)
proof (cases rule: then_cases)
  case (1 u s1)
  have s1: "bound_at plain a p (td_at at s1)" using assms(4) prepare_at [OF assms(2) 1(1)] by simp
  from then_return [OF 1(2)] obtain x where x: "with_replacer S u (install E S p cfg u) s1 = Some (x, s')"
    and r: "r = (case x of Ok g \<Rightarrow> Ok (MountInjectionGuard_enable_injection g) | Err e \<Rightarrow> Err e | Panic \<Rightarrow> Panic)" by blast
  from with_replacer_at [OF assms(2) x] obtain s2 where i: "install E S p cfg u s1 = Some (x, s2)"
    and s2: "td_at at s' = td_at at s2" by blast
  from install_injected [OF assms(1-3) s1 i] show ?thesis
    unfolding r s2 inject_result_def
    by (cases x) (auto simp: enable_injected enable_enabled)
qed (use prepare_at [OF assms(2)] assms(4) in \<open>auto simp: inject_result_def\<close>)

lemma inject_at:
  assumes "mounts_ok (sys_mounts S) at plain fuse" and "os_quiet at S" and "canonical S (opt_path opts)"
    and "toda_inject E S opts cfg s = Some (r, s')"
  shows "inject_result E plain (td_at at s) (opt_path opts) fuse r (td_at at s')"
  using assms(4) unfolding toda_inject_def
proof (cases rule: then_cases)
  case (1 path s1)
  note c = canonicalize_at [OF assms(2) 1(1)]
  with assms(3) have path: "path = opt_path opts" "has_root path" unfolding canonical_def by blast+
  from 1(2) show ?thesis
  proof (cases rule: then_cases)
    case (1 u s2)
    note s2 = private_at [OF assms(1) 1(1)]
    from 1(2) show ?thesis
    proof (cases rule: then_cases)
      case (1 u s3)
      from bind_at [OF assms(1) 1(1)] have "bound_at plain (td_at at s2) path (td_at at s3)" by auto
      with s2 c have "bound_at plain (td_at at s) path (td_at at s3)" by simp
      from inject_tail [OF assms(1,2) path(2) this] 1(2) path(1) show ?thesis by simp
    qed (use s2 c in \<open>auto simp: inject_result_def dest!: bind_at [OF assms(1)]\<close>)
  qed (use c in \<open>auto simp: inject_result_def dest!: private_at [OF assms(1)]\<close>)
qed (auto simp: inject_result_def dest!: canonicalize_at [OF assms(2)])


section \<open>Properties\<close>

text \<open>
  C21. What \<open>inject\<close> does to the mounts, for a path of the command line that is canonical, its
  session thread being through the call of \<open>fuser::mount\<close> when \<open>mount\<close> returns: on success the
  hidden sibling shows what the path showed, a plain directory included; the path has FUSE on top
  if that call succeeded, and just its former mounts if it failed, which \<open>inject\<close> does not notice;
  no other mount changed; the guard belongs to this path and the hidden directory that \<open>resume\<close>
  computes, injection is on, and the file system is in a state its runs reach. When \<open>inject\<close> fails,
  the mounts are as before, or the path stays bound onto itself, or the mount stays at the hidden
  directory without a guard.
\<close>

theorem inject_mounts:
  assumes "mounts_ok (sys_mounts S) at plain fuse" and "os_quiet at S" and "canonical S (opt_path opts)"
    and "toda_inject E S opts cfg s = Some (r, s')"
  shows "inject_result E plain (td_at at s) (opt_path opts) fuse r (td_at at s')"
  by (rule inject_at [OF assms])


section \<open>A small system\<close>

text \<open>
  The mount table of before, and one process with one thread whose working directory is below
  the path; it does what it is told and its system calls return 0.
\<close>

definition small_ptrace :: "'w ptrace_calls" where
  "small_ptrace =
     \<lparr>Process_new = (\<lambda>pid w. (Inr CHR ''S'', w)), Process_tasks = (\<lambda>pid w. (Inr [Some pid], w)),
      pt_attach = (\<lambda>tid w. (Inr (), w)), pt_detach = (\<lambda>tid w. (Inr (), w)), pt_wait_wall = (\<lambda>tid w. w),
      pt_retry = (\<lambda>ms n f w. case f w of (Inr _, w') \<Rightarrow> (Retry_Ok, w') | (Inl e, w') \<Rightarrow> (Retry_Operation e, w'))\<rparr>"

definition small_proc :: "'w proc_calls" where
  "small_proc =
     \<lparr>proc_all = (\<lambda>w. (Some [10], w)), proc_cmdline = (\<lambda>pid w. (Some [''sh''], w)),
      proc_cwd = (\<lambda>pid w. (Some ''/mnt/data/x'', w)), proc_fd = (\<lambda>pid w. (Some [(0, FD_Other)], w)),
      proc_maps = (\<lambda>pid w. (Some [], w))\<rparr>"

definition small_tracee :: "'w tracee_calls" where
  "small_tracee =
     \<lparr>pt_getregs = (\<lambda>pid w. (Inr (sample_regs\<lparr>reg_rax := 0\<rparr>), w)), pt_setregs = (\<lambda>pid r w. (Inr (), w)),
      pt_read = (\<lambda>pid a w. (Inr 0, w)), pt_write = (\<lambda>pid a v w. (Inr (), w)), pt_step = (\<lambda>pid w. (Inr (), w)),
      pt_cont = (\<lambda>pid w. (Inr (), w)), pt_waitpid = (\<lambda>pid w. (Inr Stopped_SIGTRAP, w)),
      vm_writev = (\<lambda>pid a bs w. (Inr (length bs), w))\<rparr>"

definition small_os :: "(path \<Rightarrow> nat list) os_env" where
  "small_os =
     \<lparr>sys_mounts = sample_mounts, sys_ptrace = small_ptrace, sys_proc = small_proc, sys_tracee = small_tracee,
      sys_assemble = (\<lambda>_ _ _. Inr []), sys_canonicalize = (\<lambda>p w. (Some p, w)),
      sys_pipe = (\<lambda>w. (Inr (), w)), sys_signal = (\<lambda>n w. (Inr (), w)),
      sys_write_signal = (\<lambda>bs w. (Inr (length bs), w)), sys_read_signal = (\<lambda>n w. Some (Inr SIGNAL_MSG, w))\<rparr>"

definition small_opts :: Options where
  "small_opts = \<lparr>opt_path = ''/mnt/data'', opt_mount_only = False\<rparr>"

definition small_toda :: "(path \<Rightarrow> nat list) toda" where
  "small_toda = \<lparr>td_host = sample_host, td_counter = Map.empty\<rparr>"

lemma small_quiet: "os_quiet id small_os"
  by (auto simp: os_quiet_def small_os_def ptrace_quiet_def proc_quiet_def tracee_quiet_def small_ptrace_def small_proc_def
      small_tracee_def split: sum.splits prod.splits) (metis snd_conv)+

lemma small_canonical: "canonical small_os (opt_path small_opts)"
  using sample_mount_root(1) by (simp add: canonical_def small_os_def small_opts_def)

lemma small_ptrace_simps:
  "Process_new small_ptrace pid w = (Inr CHR ''S'', w)" "Process_tasks small_ptrace pid w = (Inr [Some pid], w)"
  "pt_attach small_ptrace tid w = (Inr (), w)" "pt_detach small_ptrace tid w = (Inr (), w)" "pt_wait_wall small_ptrace tid w = w"
  "pt_retry small_ptrace ms n f w = (case f w of (Inr _, w') \<Rightarrow> (Retry_Ok, w') | (Inl e, w') \<Rightarrow> (Retry_Operation e, w'))"
  by (simp_all add: small_ptrace_def)

lemma small_attach: "attach_loop small_ptrace pid 2 {} w = Some (Inr {pid}, w)"
  by (simp add: attach_loop.simps [of small_ptrace] small_ptrace_simps attach_task_def)

lemma small_trace:
  "PtraceManager_trace small_ptrace 10 \<lparr>counter = Map.empty, tracer_world = w\<rparr> = Some (Inr 10, \<lparr>counter = [10 \<mapsto> 1], tracer_world = w\<rparr>)"
  "PtraceManager_trace small_ptrace 10 \<lparr>counter = [10 \<mapsto> n], tracer_world = w\<rparr> = Some (Inr 10, \<lparr>counter = [10 \<mapsto> n + 1], tracer_world = w\<rparr>)"
  "TracedProcess_drop small_ptrace 10 \<lparr>counter = [10 \<mapsto> 1], tracer_world = w\<rparr> = \<lparr>counter = Map.empty, tracer_world = w\<rparr>"
  "TracedProcess_drop small_ptrace 10 \<lparr>counter = [10 \<mapsto> 2], tracer_world = w\<rparr> = \<lparr>counter = [10 \<mapsto> 1], tracer_world = w\<rparr>"
  by (simp_all add: PtraceManager_trace_def small_attach TracedProcess_drop_def PtraceManager_detach_def Let_def
      small_ptrace_simps detach_attempt_def)

lemma small_paths: "starts_with ''/mnt/data/x'' ''/mnt/data''" "contains_toda ''sh'' = False"
  by code_simp+

abbreviation small_union :: "path \<Rightarrow> UnionReplacer" where
  "small_union q \<equiv> [R_Fd [], R_Cwd \<lparr>cwd_processes = [10], cwd_new_path = q\<rparr>, R_Mmap []]"

lemma small_prepare:
  "UnionReplacer_prepare small_ptrace small_proc ''/mnt/data'' q UnionReplacer_new \<lparr>counter = Map.empty, tracer_world = w\<rparr> =
     Some (Ok (small_union q), \<lparr>counter = [10 \<mapsto> 1], tracer_world = w\<rparr>)"
  by (simp add: UnionReplacer_prepare_def UnionReplacer_new_def FdReplacer_prepare_def CwdReplacer_prepare_def
      MmapReplacer_prepare_def all_processes_def keep_process_def fd_process_def cwd_process_def mmap_process_def fd_group_def
      fd_items_def tr_then_def tr_world_def tr_return_def tr_ok_def tr_trace_def with_handle_def unwinding_def push_replacer_def
      small_trace small_paths small_proc_def Let_def)

lemma small_tracee_simps:
  "pt_getregs small_tracee pid w = (Inr (sample_regs\<lparr>reg_rax := 0\<rparr>), w)" "pt_setregs small_tracee pid r w = (Inr (), w)"
  "pt_read small_tracee pid a w = (Inr 0, w)" "pt_write small_tracee pid a v w = (Inr (), w)"
  "pt_step small_tracee pid w = (Inr (), w)" "pt_waitpid small_tracee pid w = (Inr Stopped_SIGTRAP, w)"
  "vm_writev small_tracee pid a bs w = (Inr (length bs), w)"
  by (simp_all add: small_tracee_def)

lemma small_syscall:
  "set_args 0 args (sample_regs\<lparr>reg_rax := ident\<rparr>) = Inr regs \<Longrightarrow> TracedProcess_syscall small_tracee pid ident args w = Some (Ok 0, w)"
  by (simp add: TracedProcess_syscall_def with_protect_def TracedProcess_protect_def ThreadGuard_drop_def tr_then_def tr_call_def
      nix_result_def tr_return_def wait_trap.simps [of small_tracee] small_tracee_simps Let_def)

lemma small_chdir:
  "cstring_new q = Some q \<Longrightarrow> TracedProcess_chdir small_tracee pid q w = Some (Ok (), w)"
  by (simp add: TracedProcess_chdir_def with_mmap_def TracedProcess_mmap_def TracedProcess_munmap_def TracedProcess_write_mem_def
      tr_then_def tr_call_def nix_result_def tr_return_def small_syscall small_tracee_simps Let_def)

lemma small_run:
  "cstring_new q = Some q \<Longrightarrow> UnionReplacer_run assemble small_tracee (small_union q) w = Some (Ok (), w)"
  by (simp add: CwdReplacer_run_def small_chdir tr_then_def tr_return_def)

lemma small_strings: "cstring_new ''/mnt/data'' = Some ''/mnt/data''" "cstring_new ''/mnt/__chaosfs__data__'' = Some ''/mnt/__chaosfs__data__''"
  "encode_path ''/mnt/data'' = Inr (''/mnt/data'', ''/mnt/__chaosfs__data__'')"
  by code_simp+

definition small_mounted :: "(path \<Rightarrow> nat list) toda" where
  "small_mounted = small_toda\<lparr>td_host := sample_host\<lparr>host_world :=
     (\<lambda>_. [])(''/mnt/data'' := [0, 1], ''/mnt/__chaosfs__data__'' := [1])\<rparr>\<rparr>"

lemma small_os_simps:
  "sys_mounts small_os = sample_mounts" "sys_ptrace small_os = small_ptrace" "sys_proc small_os = small_proc"
  "sys_tracee small_os = small_tracee" "opt_path small_opts = ''/mnt/data''" "\<not> opt_mount_only small_opts"
  by (simp_all add: small_os_def small_opts_def)

definition world_of :: "'v toda \<Rightarrow> 'v \<Rightarrow> 'v toda" where
  "world_of s w = s\<lparr>td_host := (td_host s)\<lparr>host_world := w\<rparr>\<rparr>"

lemma small_world:
  "on_world (canonicalize small_os p) s = Some (Ok p, s)"
  "on_world (mount_or_panic small_os None p MS_PRIVATE) s = Some (Ok (), s)"
  "on_world (mount_or_panic small_os (Some p) p MS_BIND) s = Some (Ok (), world_of s
     ((host_world (td_host s))(p := shown (\<lambda>_. 9) (host_world (td_host s)) p # host_world (td_host s) p)))"
  "logged (on_world (mkfuse_node sample_mounts)) s = Some (Ok (), s)"
  by (simp_all add: on_process_def on_host_def run_simps canonicalize_def mount_or_panic_def small_os_def sample_mounts_def
      world_of_def logged_def mkfuse_node_def tr_then_def tr_ok_def tr_return_def)

lemma small_prepared:
  "td_counter s = Map.empty \<Longrightarrow> prepare_replacer small_os small_opts ''/mnt/data'' q s =
     Some (Ok (Some (small_union q)), s\<lparr>td_counter := [10 \<mapsto> 1]\<rparr>)"
  by (simp add: prepare_replacer_def small_os_simps on_tracer_def to_tracer_def of_tracer_def small_prepare tr_then_def tr_return_def)

lemma small_ran:
  "cstring_new q = Some q \<Longrightarrow> run_replacer small_os (Some (small_union q)) s = Some (Ok (), s)"
  by (simp add: run_replacer_def small_os_simps on_tracer_def on_tracee_def to_tracer_def of_tracer_def small_run del: UnionReplacer_run.simps)

lemma small_dropped:
  "f s = Some (r, s'\<lparr>td_counter := [10 \<mapsto> 1]\<rparr>) \<Longrightarrow>
   with_replacer small_os (Some (small_union q)) f s = Some (r, s'\<lparr>td_counter := Map.empty\<rparr>)"
  by (simp add: with_replacer_def small_os_simps UnionReplacer_drop_def to_tracer_def of_tracer_def small_trace)

lemma small_mount:
  "host_world h ''/mnt/data'' = x # xs \<Longrightarrow> host_world h ''/mnt/__chaosfs__data__'' = ys \<Longrightarrow>
   MountInjector_mount sample_env sample_mounts sample_mi h = (Ok sample_guard, h\<lparr>host_world :=
     (host_world h)(''/mnt/data'' := 0 # xs, ''/mnt/__chaosfs__data__'' := x # ys)\<rparr>)"
  using sample_mount_root(2)
  by (simp add: MountInjector_mount_def mount_before_spawn_def sample_mi_def run_simps on_host_def MountsInfo_parse_mounts_def
      MountsInfo_move_mount_def create_dir_all_def nix_result_def spawn_session_def sample_mounts_def
      sample_guard_def fun_upd_twist)

lemma small_injected:
  "toda_inject sample_env small_os small_opts [] small_toda =
     Some (Ok (MountInjectionGuard_enable_injection sample_guard), small_mounted)"
proof -
  let ?w = "(\<lambda>_. [])(''/mnt/data'' := [1, 1])"
  let ?s = "world_of small_toda ?w"
  have w: "host_world (td_host small_toda) = (\<lambda>_. [])(''/mnt/data'' := [1])" "td_counter small_toda = Map.empty"
    by (simp_all add: small_toda_def sample_host_def)
  have c: "td_counter ?s = Map.empty" by (simp add: world_of_def small_toda_def)
  let ?i = "install sample_env small_os ''/mnt/data'' [] (Some (small_union ''/mnt/data''))"
  have "MountInjector_mount sample_env sample_mounts sample_mi (td_host (?s\<lparr>td_counter := [10 \<mapsto> 1]\<rparr>)) =
      (Ok sample_guard, td_host small_mounted)"
    by (subst small_mount [where x = 1 and xs = "[1]" and ys = "[]"])
       (simp_all add: world_of_def small_toda_def small_mounted_def sample_host_def fun_upd_twist)
  then have "on_process (MountInjector_mount sample_env sample_mounts sample_mi) (?s\<lparr>td_counter := [10 \<mapsto> 1]\<rparr>) =
      Some (Ok sample_guard, small_mounted\<lparr>td_counter := [10 \<mapsto> 1]\<rparr>)"
    unfolding on_process_def by (simp add: world_of_def small_toda_def small_mounted_def)
  then have i: "?i (?s\<lparr>td_counter := [10 \<mapsto> 1]\<rparr>) = Some (Ok sample_guard, small_mounted\<lparr>td_counter := [10 \<mapsto> 1]\<rparr>)"
    by (simp add: tr_then_def small_os_simps small_world sample_create small_ran small_strings tr_return_def)
  show ?thesis
    using small_dropped [where f = ?i, OF i] small_prepared [OF c]
    by (simp add: toda_inject_def small_os_simps small_world w shown_def tr_then_def tr_return_def)
       (simp add: small_mounted_def small_toda_def)
qed

text \<open>Afterwards the path has two mounts where it had one.\<close>

definition small_end :: "(path \<Rightarrow> nat list) toda" where
  "small_end = small_toda\<lparr>td_host := \<lparr>host_world = (\<lambda>_. [])(''/mnt/data'' := [1, 1]), host_RUNTIME = False\<rparr>\<rparr>"

lemma small_recover:
  "MountInjectionGuard_recover_mount sample_mounts
     (MountInjectionGuard_disable_injection (MountInjectionGuard_enable_injection sample_guard)) (td_host small_mounted) =
   (Ok (), td_host small_end)"
  using sample_mount_root(2)
  by (simp add: MountInjectionGuard_recover_mount_def MountInjectionGuard_disable_injection_def
    MountInjectionGuard_enable_injection_def sample_guard_def run_simps on_host_def MountsInfo_parse_mounts_def
    MountsInfo_bind_mount_def nix_result_def sample_mounts_def sample_host_def small_mounted_def small_end_def shown_def numeral_eq_Suc)
    (simp add: fun_upd_def fun_eq_iff)

lemma small_resumed:
  "toda_resume small_os small_opts (MountInjectionGuard_enable_injection sample_guard) small_mounted = Some (Ok (), small_end)"
proof -
  let ?q = "''/mnt/__chaosfs__data__''"
  let ?f = "tr_then (logged (run_replacer small_os (Some (small_union ?q)))) (\<lambda>_. on_process (MountInjectionGuard_recover_mount
    sample_mounts (MountInjectionGuard_disable_injection (MountInjectionGuard_enable_injection sample_guard))))"
  have c: "td_counter small_mounted = Map.empty" by (simp add: small_mounted_def small_toda_def)
  have r: "?f (small_mounted\<lparr>td_counter := [10 \<mapsto> 1]\<rparr>) = Some (Ok (), small_end\<lparr>td_counter := [10 \<mapsto> 1]\<rparr>)"
    by (simp add: logged_def tr_then_def tr_ok_def tr_return_def small_ran small_strings on_process_def small_recover)
  show ?thesis
    using small_dropped [where f = ?f, OF r] small_prepared [OF c]
    by (simp add: toda_resume_def Let_def small_os_simps small_world small_strings tr_then_def)
       (simp add: small_end_def small_toda_def)
qed

lemma small_main: "toda_main sample_env small_os small_opts small_toda = Some (Ok (), small_end)"
proof -
  have "on_world (nix_result (sys_pipe small_os)) s = Some (Ok (), s)" "on_world (nix_result (sys_signal small_os n)) s = Some (Ok (), s)"
    "wait_for_signal small_os s = Some (Ok (), s)" for s n
    by (simp_all add: on_process_def on_host_def run_simps nix_result_def small_os_def wait_for_signal_def)
  then show ?thesis by (simp add: toda_main_def tr_then_def tr_ok_def small_injected small_resumed)
qed

lemma program_detaches_witness:
  "toda_main sample_env small_os small_opts small_toda = Some (Ok (), small_end) \<and> td_counter small_end = Map.empty"
proof -
  have "processes_within (sys_proc small_os) 1" by (simp add: processes_within_def small_os_simps small_proc_def)
  moreover have "signals_run_out (\<lambda>_. 0) (sys_tracee small_os)"
    by (simp add: signals_run_out_def small_os_simps small_tracee_def)
  moreover have "\<forall>w. sys_read_signal small_os 6 w \<noteq> None" by (simp add: small_os_def)
  ultimately show ?thesis
    using program_detaches [of small_toda small_os 1 "\<lambda>_. 0" sample_env small_opts] small_main
    by (simp add: small_toda_def)
qed

lemma inject_mounts_witness:
  "inject_result sample_env (\<lambda>_. 9) (host_world sample_host) ''/mnt/data'' 0 (Ok (MountInjectionGuard_enable_injection sample_guard))
     (td_at id small_mounted)"
proof -
  have "mounts_ok (sys_mounts small_os) id (\<lambda>_. 9) 0" using sample_mounts_ok by (simp add: small_os_simps)
  from inject_mounts [OF this small_quiet small_canonical small_injected] show ?thesis
    by (simp add: small_os_simps td_at_def small_toda_def)
qed


end
