(* ===== verification/Spec2Isabelle.thy ===== *)
theory Spec2Isabelle
  imports Fs_Dirs Fs_Types Fs_Answers Injector_Effects Control Session_Start Program_Runs
begin

text \<open>
  A verification of toda, a program that injects faults into the file system of running processes.

  \<^bold>\<open>The program.\<close> \<open>main.rs\<close> is started for a directory. \<open>inject\<close> binds the directory onto itself, finds
  the processes that use it (\<open>replacer/\<close>) and stops them with ptrace (\<open>ptrace/mod.rs\<close>), moves the
  original mount to a hidden sibling (\<open>mount_injector.rs\<close>, \<open>mount.rs\<close>, \<open>utils.rs\<close>), mounts a FUSE file
  system in its place (\<open>hookfs/\<close>), and makes the stopped processes reopen their files, mappings and
  working directories through it by running code inside them. The file system passes each
  request to the hidden directory and asks its injectors (\<open>injector/\<close>) whether to delay it, fail it,
  change its attributes or damage its data. A control server (\<open>jsonrpc.rs\<close>) exchanges the
  injectors. On a signal \<open>resume\<close> moves processes and mounts back.

  \<^bold>\<open>How it is modelled.\<close> Effectful code is a state-passing function that ends with a value, an error or
  a panic (\<open>outcome\<close>, \<open>prog\<close> in Prelude); code that may not return is an \<open>option\<close> of that (\<open>traced\<close>).
  Machine integers are words of their width; a path is its byte string; doubles are multiples of
  a fixed unit with the rounding written out (\<open>Std_Values\<close>). System calls and libraries are
  records of functions over an abstract world that the definitions take as an argument (\<open>lib\<close>,
  \<open>env\<close>, \<open>mount_calls\<close>, \<open>ptrace_calls\<close>, \<open>tracee_calls\<close>, \<open>proc_calls\<close>, \<open>kernel\<close>, \<open>os_env\<close>); what the
  properties need of them is a named hypothesis (\<open>rand_ok\<close>, \<open>mounts_ok\<close>, \<open>tracee_ok\<close>,
  \<open>kernel_reads\<close>, \<open>os_quiet\<close>, \<open>processes_within\<close>, \<open>lists_within\<close>), and small concrete systems
  (\<open>Sample\<close>, and the ones beside the properties) satisfy them.

  \<^bold>\<open>Theories and sources.\<close>
  \<^item> Prelude, Std_Path, Std_Values: the shared computations and rules, \<open>std::path\<close>, numbers and times.
  \<^item> Errors (\<open>hookfs/errors.rs\<close>, \<open>hookfs/runtime.rs\<close>), Attributes (\<open>hookfs/utils.rs\<close>), Reply
    (\<open>hookfs/reply.rs\<close>), Tables and Hook_Fs (\<open>hookfs/mod.rs\<close>), Os (its \<open>async_\<close> helpers), Async_Fs
    (\<open>hookfs/async_fs.rs\<close>): the file system; one definition per table operation, request and
    callback. Its state is the record \<open>HookFs\<close> together with the world and the runtime slot.
  \<^item> Injector_Filter (\<open>injector/filter.rs\<close>) and Injectors (the rest of \<open>injector/\<close>): the filter and the
    four injectors. The locale \<open>Injector\<close> is their contract, interpreted on each of them and on
    their list; the locale \<open>path_table\<close> in Tables is the contract of the inode map.
  \<^item> Control (\<open>jsonrpc.rs\<close>), Stop (\<open>stop.rs\<close>), Mounts (\<open>mount.rs\<close>, \<open>utils.rs\<close>, \<open>fuse_device.rs\<close>),
    Mount_Injector (\<open>mount_injector.rs\<close>).
  \<^item> Ptrace_Manager and Tracee (\<open>ptrace/mod.rs\<close>): attaching, detaching and counting handles; system
    calls and code inside a stopped process.
  \<^item> Machine: the instructions the injected code consists of. Fd_Code, Mmap_Code, Accessors,
    Fd_Replacer, Mmap_Replacer (\<open>replacer/fd_replacer.rs\<close>, \<open>replacer/mmap_replacer.rs\<close>): the code, the
    buffers it reads, and the builders, which share the locale \<open>accessor_builder\<close>.
  \<^item> Replacers (\<open>replacer/mod.rs\<close>, \<open>replacer/cwd_replacer.rs\<close>, \<open>replacer/utils.rs\<close> and every \<open>prepare\<close>).
  \<^item> Program (\<open>main.rs\<close>): \<open>inject\<close>, \<open>resume\<close>, \<open>main\<close> as \<open>toda_inject\<close>, \<open>toda_resume\<close>, \<open>toda_main\<close>.

  \<^bold>\<open>What is shown.\<close>
  \<^item> Fs_Invariant, Fs_Simulation, Fs_Runs: every recorded path stays in the original tree, no request
    acts outside it, and with injection off the injectors have no influence.
  \<^item> Fs_Types: every answer has the type the FUSE protocol prescribes for its request.
  \<^item> Fs_Faults, Fs_Handles, Fs_Data, Fs_Dirs, Fs_Names, Fs_Answers: injected errors are the
    answers; the handle table refines an allocator; open, read, release; sizes of reads and
    writes; complete directory listings; lookup counts and names; when requests are answered by
    their handlers. A panic drops the reply of the request, which \<open>fuser\<close> answers with \<open>EIO\<close>; it is
    an answer of its own in the model (\<open>ans_dropped\<close>).
  \<^item> Injector_Effects: rates of filters, frequencies of faults, extent of mistakes, times.
  \<^item> Control, Mounts, Mount_Injector: the server never panics, \<open>mount\<close> followed by \<open>recover_mount\<close>
    restores the mounts.
  \<^item> Stop, Session_Start: no wake-up is lost; every interleaving of the two threads of \<open>mount\<close> ends as
    the sequential \<open>spawn_session\<close> does, and the mounts are known at every moment of it, also when
    \<open>fuser::mount\<close> fails or is late.
  \<^item> Ptrace_Manager, Tracee: attaching returns, counters are numbers of live handles, registers and
    code of a stopped process are restored.
  \<^item> Fd_Replacer, Mmap_Replacer: what is replaced, and that the injected code makes exactly the
    intended calls and reaches its trap.
  \<^item> Replacer_Handles (a logic for owning handles), Quiet (what the replacers leave alone), Returns
    (what returns), Program_Runs: the program returns and lets go of every process, and the mounts
    after \<open>inject\<close> and \<open>resume\<close>.

  \<^bold>\<open>Bounds and loops.\<close> No theorem is limited by fuel. \<open>attach_loop\<close>, \<open>wait_trap\<close> and \<open>cont_trap\<close> are
  partial functions; the first is shown to return always, the other two when finitely many
  signals other than the trap are pending for the traced process (\<open>signals_run_out\<close>). Injected
  code runs by single steps of the machine; the theorems assert that the trap is reached. The client that lists a directory of \<open>n\<close> entries is given
  \<open>n + 1\<close> requests, which is enough for a buffer that holds one entry at a time.

  \<^bold>\<open>Simplifications.\<close> A request runs as one step, so the locks inside the file system and the
  interleaving of two requests are not part of the model. The requests and control calls that
  happen while \<open>main\<close> waits are the runs of Fs_Runs and Control, not steps of
  \<open>toda_main\<close>. In \<open>MountInjector_mount\<close> the session thread runs at once; Session_Start says which
  interleavings that covers, and the properties of \<open>toda_inject\<close> and \<open>toda_resume\<close> are those of the
  runs where the thread is through its call of \<open>fuser::mount\<close> when \<open>mount\<close> returns. Mounts are known by
  the directory they are on, which keeps its name when a mount that contains it is moved. The order in which a \<open>HashMap\<close> of accessors is run is the order of the processes.

  \<^bold>\<open>Not modelled.\<close> Logging (\<open>tracing\<close>), command line parsing, the HTTP and JSON layers of the control
  server, the FUSE session loop, the tokio scheduler and the assembler that turns instructions into bytes belong to libraries; the last is a parameter.
  \<open>lib.rs\<close> and \<open>hookfs/runtime.rs\<close> contain besides \<open>spawn\<close> and \<open>spawn_blocking\<close> only module
  declarations and the construction of the runtime. \<open>Debug\<close> and \<open>Drop\<close> code that only logs is left out.
\<close>

end
